(* ===== verification/Prelude.thy ===== *)
theory Prelude
  imports Main "HOL-Library.Word" "HOL-Library.Sublist"
begin

unbundle bit_operations_syntax

text \<open>
  The prelude of the auth-vpn development: names for the types the components share (bytes,
  instants, operating-system errors), big-endian integers as \<open>encoding/binary\<close> writes them,
  the loops over slices that several managers repeat (\<open>remove_first\<close>, \<open>find_first\<close>), the
  saturating difference of two instants, and the generic lemmas and hint collections the
  component proofs use. Nothing here is specific to one source file.
\<close>

section \<open>Shared types\<close>

type_synonym byte = "8 word"
type_synonym bytes = "byte list"

text \<open>An instant and a duration are counted in nanoseconds, as \<open>time.Time\<close> and
  \<open>time.Duration\<close> are.\<close>

type_synonym instant = int
type_synonym duration = int

abbreviation seconds :: "int \<Rightarrow> duration" where
  "seconds n \<equiv> n * 1000000000"

abbreviation minutes :: "int \<Rightarrow> duration" where
  "minutes n \<equiv> seconds (60 * n)"

text \<open>Hint collections: the defining equations of operations that proofs unfold, the laws of
  the state invariants, and the facts on decoding.\<close>

named_theorems op_defs \<open>equations of operations a component's proofs unfold\<close>
named_theorems inv_intros \<open>an operation keeps its component's invariant\<close>
named_theorems codec_simps \<open>a decoder undoes its encoder\<close>

section \<open>Instants\<close>

text \<open>\<open>Time.Sub\<close> saturates at the ends of the 64-bit \<open>Duration\<close>.\<close>

definition max_duration :: int where
  "max_duration = 9223372036854775807"

definition time_sub :: "instant \<Rightarrow> instant \<Rightarrow> duration" where
  "time_sub t u = max (- max_duration - 1) (min max_duration (t - u))"

lemma time_sub_less_iff:
  "0 < d \<Longrightarrow> d \<le> max_duration \<Longrightarrow> time_sub t u < d \<longleftrightarrow> t - u < d"
  by (auto simp: time_sub_def max_duration_def)

section \<open>Strings and bytes\<close>

definition bytes_of_string :: "string \<Rightarrow> bytes" where
  "bytes_of_string s = map (\<lambda>c. word_of_nat (of_char c)) s"

definition string_of_bytes :: "bytes \<Rightarrow> string" where
  "string_of_bytes b = map (\<lambda>x. char_of (unat x)) b"

lemma char_of_unat_of_char [simp]:
  "char_of (unat (word_of_nat (of_char c) :: byte)) = c"
  by (simp add: unsigned_of_nat take_bit_eq_mod)

lemma string_of_bytes_of_string [simp, codec_simps]:
  "string_of_bytes (bytes_of_string s) = s"
  by (simp add: string_of_bytes_def bytes_of_string_def comp_def map_idI)

lemma length_bytes_of_string [simp]: "length (bytes_of_string s) = length s"
  by (simp add: bytes_of_string_def)

lemma bytes_of_string_inject [simp]: "bytes_of_string s = bytes_of_string t \<longleftrightarrow> s = t"
  by (metis string_of_bytes_of_string)

section \<open>Big-endian integers\<close>

definition be_put32 :: "32 word \<Rightarrow> bytes" where
  "be_put32 v =
     [ucast (drop_bit 24 v), ucast (drop_bit 16 v), ucast (drop_bit 8 v), ucast v]"

definition be_get32 :: "bytes \<Rightarrow> 32 word" where
  "be_get32 b =
     push_bit 24 (ucast (b ! 0)) OR push_bit 16 (ucast (b ! 1)) OR
     push_bit 8 (ucast (b ! 2)) OR ucast (b ! 3)"

definition be_get16 :: "bytes \<Rightarrow> 16 word" where
  "be_get16 b = push_bit 8 (ucast (b ! 0)) OR ucast (b ! 1)"

definition be_put16 :: "16 word \<Rightarrow> bytes" where
  "be_put16 v = [ucast (drop_bit 8 v), ucast v]"

lemma length_be_put32 [simp]: "length (be_put32 v) = 4"
  by (simp add: be_put32_def)

lemma length_be_put16 [simp]: "length (be_put16 v) = 2"
  by (simp add: be_put16_def)

lemma be_get32_put32 [simp, codec_simps]: "be_get32 (be_put32 v) = v"
  by (rule bit_word_eqI)
     (auto simp: be_get32_def be_put32_def bit_simps not_less Suc_le_eq
       dest!: le_Suc_ex split: nat_diff_split)

lemma be_get16_put16 [simp, codec_simps]: "be_get16 (be_put16 v) = v"
  by (rule bit_word_eqI)
     (auto simp: be_get16_def be_put16_def bit_simps not_less Suc_le_eq)

lemma be_put32_get32 [simp, codec_simps]:
  assumes "length b = 4"
  shows "be_put32 (be_get32 b) = b"
proof -
  from assms obtain b0 b1 b2 b3 where b: "b = [b0, b1, b2, b3]"
    by (auto simp: length_Suc_conv eval_nat_numeral)
  have "ucast (drop_bit 24 (be_get32 b)) = b0" "ucast (drop_bit 16 (be_get32 b)) = b1"
    "ucast (drop_bit 8 (be_get32 b)) = b2" "ucast (be_get32 b) = b3"
    by (rule bit_word_eqI; auto simp: be_get32_def b bit_simps dest: bit_imp_le_length)+
  then show ?thesis by (simp add: be_put32_def b)
qed

section \<open>Loops over slices\<close>

text \<open>
  \<open>for i, e := range xs \<lbrace> if p(e) \<lbrace> xs = append(xs[:i], xs[i+1:]...); return \<rbrace> \<rbrace>\<close>:
  the first element that satisfies \<open>p\<close> is cut out; \<open>None\<close> when the loop falls through.
\<close>

fun remove_first :: "('a \<Rightarrow> bool) \<Rightarrow> 'a list \<Rightarrow> 'a list option" where
  "remove_first p [] = None"
| "remove_first p (x # xs) =
     (if p x then Some xs else map_option ((#) x) (remove_first p xs))"

text \<open>\<open>for _, e := range xs \<lbrace> if p(e) \<lbrace> return e \<rbrace> \<rbrace>\<close> is \<open>find p xs\<close>.\<close>

lemma remove_first_None_iff: "remove_first p xs = None \<longleftrightarrow> (\<forall>x\<in>set xs. \<not> p x)"
  by (induction xs) auto

lemma remove_first_SomeD:
  "remove_first p xs = Some ys \<Longrightarrow>
     \<exists>us x vs. xs = us @ x # vs \<and> ys = us @ vs \<and> p x \<and> (\<forall>u\<in>set us. \<not> p u)"
proof (induction xs arbitrary: ys)
  case Nil
  then show ?case by simp
next
  case (Cons a xs)
  show ?case
  proof (cases "p a")
    case True
    with Cons.prems have "a # xs = [] @ a # xs \<and> ys = [] @ xs \<and> p a \<and> (\<forall>u\<in>set []. \<not> p u)"
      by simp
    then show ?thesis by blast
  next
    case False
    with Cons.prems obtain zs where zs: "remove_first p xs = Some zs" and ys: "ys = a # zs"
      by auto
    from Cons.IH [OF zs] obtain us x vs
      where "xs = us @ x # vs" "zs = us @ vs" "p x" "\<forall>u\<in>set us. \<not> p u"
      by blast
    with False ys have "a # xs = (a # us) @ x # vs \<and> ys = (a # us) @ vs \<and> p x \<and>
        (\<forall>u\<in>set (a # us). \<not> p u)"
      by simp
    then show ?thesis by blast
  qed
qed

lemma remove_first_append:
  "\<forall>u\<in>set us. \<not> p u \<Longrightarrow> p x \<Longrightarrow> remove_first p (us @ x # vs) = Some (us @ vs)"
  by (induction us) auto

lemma remove_first_length: "remove_first p xs = Some ys \<Longrightarrow> length xs = Suc (length ys)"
  by (auto dest!: remove_first_SomeD)

lemma remove_first_subset: "remove_first p xs = Some ys \<Longrightarrow> set ys \<subseteq> set xs"
  by (auto dest!: remove_first_SomeD)

lemma remove_first_distinct_key:
  assumes "remove_first (\<lambda>e. key e = k) xs = Some ys" and "distinct (map key xs)"
  shows "distinct (map key ys) \<and> k \<notin> key ` set ys \<and> set ys = {e \<in> set xs. key e \<noteq> k}"
  using remove_first_SomeD [OF assms(1)] assms(2) by (force simp: image_iff)

section \<open>Lists, options and maps\<close>

lemma find_None_iff2: "find p xs = None \<longleftrightarrow> (\<forall>x\<in>set xs. \<not> p x)"
  by (induction xs) auto

lemma find_SomeD: "find p xs = Some x \<Longrightarrow> x \<in> set xs \<and> p x"
  by (induction xs) (auto split: if_splits)

lemma find_append: "find p (xs @ ys) = (case find p xs of Some x \<Rightarrow> Some x | None \<Rightarrow> find p ys)"
  by (induction xs) auto

lemma find_distinct_key:
  "distinct (map key xs) \<Longrightarrow> e \<in> set xs \<Longrightarrow> find (\<lambda>e'. key e' = key e) xs = Some e"
  by (induction xs) (force simp: image_iff)+

lemma split_at_first:
  "\<exists>x\<in>set xs. p x \<Longrightarrow> \<exists>us x vs. xs = us @ x # vs \<and> p x \<and> (\<forall>u\<in>set us. \<not> p u)"
  by (rule split_list_first_prop)

lemma sum_case_False_iff: "(case r of Inl e \<Rightarrow> False | Inr d \<Rightarrow> P d) \<longleftrightarrow> (\<exists>d. r = Inr d \<and> P d)"
  by (cases r) auto

text \<open>\<open>append(xs, x)\<close> under a map with a default, and deletion from a map.\<close>

abbreviation map_delete :: "'a \<Rightarrow> ('a \<rightharpoonup> 'b) \<Rightarrow> ('a \<rightharpoonup> 'b)" where
  "map_delete k m \<equiv> m(k := None)"

lemma finite_dom_delete [simp]: "finite (dom m) \<Longrightarrow> finite (dom (map_delete k m))"
  by simp

lemma card_dom_insert:
  "finite (dom m) \<Longrightarrow> m k = None \<Longrightarrow> card (dom (m(k \<mapsto> v))) = Suc (card (dom m))"
  by (simp add: domIff)

lemma card_dom_delete:
  "finite (dom m) \<Longrightarrow> m k \<noteq> None \<Longrightarrow> Suc (card (dom (map_delete k m))) = card (dom m)"
  by (metis card_Suc_Diff1 domIff dom_fun_upd)

section \<open>Operating-system outcomes\<close>

text \<open>
  What a system call reports: the file does not exist, or any other failure with the text the
  kernel gives it.
\<close>

datatype os_error = ErrNotExist | OSErr string

definition IsNotExist :: "os_error \<Rightarrow> bool" where
  "IsNotExist e \<longleftrightarrow> e = ErrNotExist"

text \<open>
  The file system as the managers see it: contents by path, and what the environment makes
  fail. A read that is not refused returns the contents; a write that is refused may leave the
  file in any state the environment chooses (\<open>None\<close>: no file).
\<close>

record filesys =
  files :: "string \<Rightarrow> string option"
  read_fails :: "string \<Rightarrow> os_error option"
  mkdir_fails :: "string \<Rightarrow> os_error option"
  write_fails :: "string \<Rightarrow> (os_error \<times> string option) option"

definition ReadFile :: "filesys \<Rightarrow> string \<Rightarrow> os_error + string" where
  "ReadFile fs p =
     (case read_fails fs p of
        Some e \<Rightarrow> Inl e
      | None \<Rightarrow> (case files fs p of None \<Rightarrow> Inl ErrNotExist | Some d \<Rightarrow> Inr d))"

definition WriteFile :: "filesys \<Rightarrow> string \<Rightarrow> string \<Rightarrow> filesys \<times> os_error option" where
  "WriteFile fs p d =
     (case write_fails fs p of
        Some (e, left) \<Rightarrow> (fs\<lparr>files := (files fs)(p := left)\<rparr>, Some e)
      | None \<Rightarrow> (fs\<lparr>files := (files fs)(p \<mapsto> d)\<rparr>, None))"

text \<open>A file system on which nothing fails.\<close>

definition healthy_fs :: "(string \<Rightarrow> string option) \<Rightarrow> filesys" where
  "healthy_fs m =
     \<lparr>files = m, read_fails = Map.empty, mkdir_fails = Map.empty, write_fails = Map.empty\<rparr>"

definition MkdirAll :: "filesys \<Rightarrow> string \<Rightarrow> os_error option" where
  "MkdirAll fs p = mkdir_fails fs p"

lemma ReadFile_WriteFile:
  "WriteFile fs p d = (fs', None) \<Longrightarrow> read_fails fs p = None \<Longrightarrow> ReadFile fs' p = Inr d"
  by (auto simp: ReadFile_def WriteFile_def split: option.splits)

lemma ReadFile_WriteFile_other:
  "WriteFile fs p d = (fs', r) \<Longrightarrow> q \<noteq> p \<Longrightarrow> ReadFile fs' q = ReadFile fs q"
  by (auto simp: ReadFile_def WriteFile_def split: option.splits)

lemma WriteFile_frame:
  "WriteFile fs p d = (fs', r) \<Longrightarrow>
     read_fails fs' = read_fails fs \<and> mkdir_fails fs' = mkdir_fails fs \<and>
     write_fails fs' = write_fails fs"
  by (auto simp: WriteFile_def split: option.splits)

section \<open>Step systems\<close>

text \<open>
  What the interleaving models share: initial states, a step relation, and the states reached.
  An invariant holds of the initial states and is kept by every step; a second one may be
  proved with the help of the first.
\<close>

locale step_system =
  fixes start :: "'s \<Rightarrow> bool" and move :: "'s \<Rightarrow> 's \<Rightarrow> bool" and reach :: "'s \<Rightarrow> bool"
  assumes reach_start: "start s \<Longrightarrow> reach s"
    and reach_move: "reach s \<Longrightarrow> move s t \<Longrightarrow> reach t"
    and reach_induct: "reach s \<Longrightarrow> (\<And>s. start s \<Longrightarrow> P s) \<Longrightarrow>
      (\<And>s t. reach s \<Longrightarrow> P s \<Longrightarrow> move s t \<Longrightarrow> P t) \<Longrightarrow> P s"
begin

lemma invariant:
  assumes "reach s" and "\<And>s. start s \<Longrightarrow> I s" and "\<And>s t. I s \<Longrightarrow> move s t \<Longrightarrow> I t"
  shows "I s"
  using assms(1) by (rule reach_induct) (use assms(2,3) in blast)+

lemma invariant_with:
  assumes "reach s" and "\<And>s. reach s \<Longrightarrow> J s" and "\<And>s. start s \<Longrightarrow> I s"
    and "\<And>s t. I s \<Longrightarrow> J s \<Longrightarrow> move s t \<Longrightarrow> I t"
  shows "I s"
  using assms(1) by (rule reach_induct) (use assms(2-4) in blast)+

lemma reach_path:
  assumes "reach s" and "move\<^sup>*\<^sup>* s t"
  shows "reach t"
  using assms(2,1) by induction (auto intro: reach_move)

end

end
