(* ===== verification/Json.thy ===== *)
theory Json
  imports GoStrings
begin

text \<open>
  What the program uses of \<open>encoding/json\<close>: the text \<open>json.Marshal\<close> writes (compact, the HTML
  characters, U+2028 and U+2029 escaped, a byte that is not UTF-8 replaced) and the text
  \<open>json.Unmarshal\<close> accepts (white space, escapes, surrogate pairs, numbers kept as literals,
  at most 10000 nested arrays and objects). The parser's \<open>n\<close> is fuel: one unit is used per
  value, member or element, each of which starts with at least one byte of input, so
  \<open>Suc (length s)\<close> units are enough (\<open>parse_render\<close>).
\<close>

section \<open>UTF-8\<close>

text \<open>The table of \<open>utf8.DecodeRune\<close>: from the first byte, the length of the rune and the range
  of its second byte; length 0 when no rune starts so.\<close>

definition utf8_first :: "nat \<Rightarrow> nat \<times> nat \<times> nat" where
  "utf8_first n =
     (if n < 0x80 then (1, 0, 0)
      else if n < 0xC2 then (0, 0, 0)
      else if n < 0xE0 then (2, 0x80, 0xBF)
      else if n = 0xE0 then (3, 0xA0, 0xBF)
      else if n = 0xED then (3, 0x80, 0x9F)
      else if n < 0xF0 then (3, 0x80, 0xBF)
      else if n = 0xF0 then (4, 0x90, 0xBF)
      else if n < 0xF4 then (4, 0x80, 0xBF)
      else if n = 0xF4 then (4, 0x80, 0x8F)
      else (0, 0, 0))"

definition continuation :: "char \<Rightarrow> bool" where
  "continuation c \<longleftrightarrow> 0x80 \<le> (of_char c :: nat) \<and> (of_char c :: nat) \<le> 0xBF"

text \<open>The length of the rune a string starts with; 0 when the bytes are not one.\<close>

definition utf8_len :: "string \<Rightarrow> nat" where
  "utf8_len s =
     (if s = [] then 0
      else case utf8_first (of_char (hd s)) of (k, lo, hi) \<Rightarrow>
        if k \<le> 1 then k
        else if k \<le> length s \<and> lo \<le> of_char (s ! 1) \<and> of_char (s ! 1) \<le> hi \<and>
          list_all continuation (take (k - 2) (drop 2 s)) then k
        else 0)"

lemma utf8_len_le: "utf8_len s \<le> length s"
  by (cases s) (simp_all add: utf8_len_def split: prod.split)

lemma utf8_len_take:
  assumes "utf8_len s \<noteq> 0"
  shows "utf8_len (take (utf8_len s) s @ t) = utf8_len s"
proof -
  let ?k = "utf8_len s" and ?u = "take (utf8_len s) s"
  obtain c r where s: "s = c # r" using assms by (cases s) (auto simp: utf8_len_def)
  obtain k lo hi where f: "utf8_first (of_char c) = (k, lo, hi)" by (cases "utf8_first (of_char c)")
  show ?thesis
  proof (cases "k \<le> 1")
    case True
    with f s assms show ?thesis by (simp add: utf8_len_def le_Suc_eq)
  next
    case False
    with assms f s have k: "?k = k" "k \<le> length s" "lo \<le> of_char (s ! 1)" "of_char (s ! 1) \<le> hi"
      "list_all continuation (take (k - 2) (drop 2 s))"
      by (auto simp: utf8_len_def split: if_splits)
    have "hd (?u @ t) = c" "(?u @ t) ! 1 = s ! 1" "?u @ t \<noteq> []"
      using k False by (simp_all add: s hd_append nth_append take_Cons')
    moreover have "take (k - 2) (drop 2 (?u @ t)) = take (k - 2) (drop 2 s)"
      using k False by (simp add: take_drop)
    moreover have "k \<le> length (?u @ t)" using k by simp
    ultimately show ?thesis using f k False by (simp add: utf8_len_def)
  qed
qed

function utf8_valid :: "string \<Rightarrow> bool" where
  "utf8_valid s \<longleftrightarrow> (if s = [] then True
     else if utf8_len s = 0 then False else utf8_valid (drop (utf8_len s) s))"
  by pat_completeness auto
termination
  by (relation "measure length") auto

declare utf8_valid.simps [simp del]

definition utf8_enc :: "nat \<Rightarrow> string" where
  "utf8_enc n =
     (if n < 0x80 then [char_of n]
      else if n < 0x800 then [char_of (0xC0 + n div 64), char_of (0x80 + n mod 64)]
      else if n < 0x10000 then
        [char_of (0xE0 + n div 4096), char_of (0x80 + n div 64 mod 64), char_of (0x80 + n mod 64)]
      else
        [char_of (0xF0 + n div 262144), char_of (0x80 + n div 4096 mod 64),
         char_of (0x80 + n div 64 mod 64), char_of (0x80 + n mod 64)])"

definition replacement :: string where
  "replacement = [CHR 0xEF, CHR 0xBF, CHR 0xBD]"

section \<open>Strings\<close>

definition hex_digit :: "char \<Rightarrow> nat option" where
  "hex_digit c =
     (let n = of_char c :: nat
      in if 48 \<le> n \<and> n \<le> 57 then Some (n - 48)
         else if 97 \<le> n \<and> n \<le> 102 then Some (n - 87)
         else if 65 \<le> n \<and> n \<le> 70 then Some (n - 55)
         else None)"

text \<open>\<open>getu4\<close>: the four digits after \<open>\u\<close>.\<close>

fun hex4 :: "string \<Rightarrow> nat option" where
  "hex4 (a # b # c # d # r) =
     (case (hex_digit a, hex_digit b, hex_digit c, hex_digit d) of
        (Some w, Some x, Some y, Some z) \<Rightarrow> Some (4096 * w + 256 * x + 16 * y + z)
      | _ \<Rightarrow> None)"
| "hex4 _ = None"

definition simple_escape :: "char \<Rightarrow> char option" where
  "simple_escape e =
     (if e = CHR 0x22 \<or> e = CHR 0x5C \<or> e = CHR ''/'' then Some e
      else if e = CHR ''b'' then Some (CHR 0x08)
      else if e = CHR ''f'' then Some (CHR 0x0C)
      else if e = CHR ''n'' then Some (CHR 0x0A)
      else if e = CHR ''r'' then Some (CHR 0x0D)
      else if e = CHR ''t'' then Some (CHR 0x09)
      else None)"

text \<open>The text of the rune \<open>n\<close> written \<open>\uXXXX\<close> before \<open>r\<close>, and how much of \<open>r\<close> a second
  surrogate takes.\<close>

definition unescape_u :: "nat \<Rightarrow> string \<Rightarrow> string \<times> nat" where
  "unescape_u n r =
     (if n < 0xD800 \<or> 0xDFFF < n then (utf8_enc n, 0)
      else if n < 0xDC00 \<and> HasPrefix r [CHR 0x5C, CHR ''u''] then
        (case hex4 (drop 2 r) of
           None \<Rightarrow> (replacement, 0)
         | Some m \<Rightarrow>
             if 0xDC00 \<le> m \<and> m \<le> 0xDFFF
             then (utf8_enc (0x10000 + 1024 * (n - 0xD800) + (m - 0xDC00)), 6)
             else (replacement, 0))
      else (replacement, 0))"

definition prepend :: "string \<Rightarrow> (string \<times> string) option \<Rightarrow> (string \<times> string) option" where
  "prepend u r = map_option (\<lambda>(s, t). (u @ s, t)) r"

lemma prepend_Some [simp]: "prepend u (Some (s, t)) = Some (u @ s, t)"
  by (simp add: prepend_def)

text \<open>The string after an opening quote: its value and the input after the closing quote.\<close>

function scan_str :: "string \<Rightarrow> (string \<times> string) option" where
  "scan_str [] = None"
| "scan_str (c # s) =
     (let n = of_char c :: nat
      in if c = CHR 0x22 then Some ([], s)
         else if c = CHR 0x5C then
           (if s = [] then None
            else if hd s = CHR ''u'' then
              (case hex4 (tl s) of
                 None \<Rightarrow> None
               | Some m \<Rightarrow>
                   let (u, k) = unescape_u m (drop 5 s) in prepend u (scan_str (drop (5 + k) s)))
            else (case simple_escape (hd s) of
                    None \<Rightarrow> None
                  | Some d \<Rightarrow> prepend [d] (scan_str (tl s))))
         else if n < 0x20 then None
         else if utf8_len (c # s) = 0 then prepend replacement (scan_str s)
         else prepend (take (utf8_len (c # s)) (c # s)) (scan_str (drop (utf8_len (c # s)) (c # s))))"
  by pat_completeness auto
termination
  by (relation "measure length") (auto simp: le_imp_less_Suc)

declare scan_str.simps(2) [simp del]

text \<open>One ASCII character as \<open>json.Marshal\<close> writes it.\<close>

definition esc_ascii :: "char \<Rightarrow> string" where
  "esc_ascii c =
     (let n = of_char c :: nat
      in if c = CHR 0x22 \<or> c = CHR 0x5C then [CHR 0x5C, c]
         else if c = CHR 0x08 then [CHR 0x5C, CHR ''b'']
         else if c = CHR 0x0C then [CHR 0x5C, CHR ''f'']
         else if c = CHR 0x0A then [CHR 0x5C, CHR ''n'']
         else if c = CHR 0x0D then [CHR 0x5C, CHR ''r'']
         else if c = CHR 0x09 then [CHR 0x5C, CHR ''t'']
         else if n < 0x20 \<or> c \<in> set ''<>&'' then
           [CHR 0x5C, CHR ''u'', CHR ''0'', CHR ''0'', hex_char (n div 16), hex_char (n mod 16)]
         else [c])"

function enc_str :: "string \<Rightarrow> string" where
  "enc_str [] = []"
| "enc_str (c # s) =
     (let k = utf8_len (c # s); u = take k (c # s)
      in if k = 0 then CHR 0x5C # ''ufffd'' @ enc_str s
         else if k = 1 then esc_ascii c @ enc_str s
         else if u = [CHR 0xE2, CHR 0x80, CHR 0xA8] then CHR 0x5C # ''u2028'' @ enc_str (drop k (c # s))
         else if u = [CHR 0xE2, CHR 0x80, CHR 0xA9] then CHR 0x5C # ''u2029'' @ enc_str (drop k (c # s))
         else u @ enc_str (drop k (c # s)))"
  by pat_completeness auto
termination
  by (relation "measure length") (auto simp: le_imp_less_Suc)

declare enc_str.simps(2) [simp del]

definition quote_str :: "string \<Rightarrow> string" where
  "quote_str s = CHR 0x22 # enc_str s @ [CHR 0x22]"

text \<open>Reading back what was written.\<close>

lemma hex_digit_hex_char [simp]: "d < 16 \<Longrightarrow> hex_digit (hex_char d) = Some d"
  by (auto simp: hex_digit_def hex_char_def Let_def)

lemma hex_digit_0: "hex_digit CHR ''0'' = Some 0"
  by (simp add: hex_digit_def)

lemma utf8_len_1: "utf8_len (c # s) = Suc 0 \<Longrightarrow> (of_char c :: nat) < 0x80"
  by (auto simp: utf8_len_def utf8_first_def split: if_splits)

lemma utf8_len_ascii: "(of_char c :: nat) < 0x80 \<Longrightarrow> utf8_len (c # s) = Suc 0"
  by (simp add: utf8_len_def utf8_first_def)

lemma utf8_len_gt1:
  "utf8_len (c # s) \<noteq> 0 \<Longrightarrow> utf8_len (c # s) \<noteq> Suc 0 \<Longrightarrow> 0x80 \<le> (of_char c :: nat)"
  using utf8_len_ascii by force

lemma utf8_enc_small: "n < 0x80 \<Longrightarrow> utf8_enc n = [char_of n]"
  by (simp add: utf8_enc_def)

lemma utf8_enc_separators:
  "utf8_enc 0x2028 = [CHR 0xE2, CHR 0x80, CHR 0xA8]" "utf8_enc 0x2029 = [CHR 0xE2, CHR 0x80, CHR 0xA9]"
proof -
  have "char_of (226 :: nat) = CHR 0xE2" "char_of (128 :: nat) = CHR 0x80"
    "char_of (168 :: nat) = CHR 0xA8" "char_of (169 :: nat) = CHR 0xA9"
    by code_simp+
  then show "utf8_enc 0x2028 = [CHR 0xE2, CHR 0x80, CHR 0xA8]"
    "utf8_enc 0x2029 = [CHR 0xE2, CHR 0x80, CHR 0xA9]"
    by (simp_all add: utf8_enc_def)
qed

lemma scan_str_quote [simp]: "scan_str (CHR 0x22 # r) = Some ([], r)"
  by (simp add: scan_str.simps)

lemma scan_str_escape:
  "e \<noteq> CHR ''u'' \<Longrightarrow> simple_escape e = Some d \<Longrightarrow>
     scan_str (CHR 0x5C # e # r) = prepend [d] (scan_str r)"
  by (simp add: scan_str.simps)

lemma scan_str_u:
  assumes "hex4 [a, b, c, d] = Some m" and "m < 0xD800"
  shows "scan_str (CHR 0x5C # CHR ''u'' # a # b # c # d # r) = prepend (utf8_enc m) (scan_str r)"
proof -
  from assms(1) have "hex4 (a # b # c # d # r) = Some m"
    by (simp split: prod.splits option.splits)
  then show ?thesis using assms(2) by (simp add: scan_str.simps unescape_u_def)
qed

lemma scan_str_plain:
  "c \<noteq> CHR 0x22 \<Longrightarrow> c \<noteq> CHR 0x5C \<Longrightarrow> 0x20 \<le> (of_char c :: nat) \<Longrightarrow> utf8_len (c # s) = k \<Longrightarrow>
     k \<noteq> 0 \<Longrightarrow> scan_str (c # s) = prepend (take k (c # s)) (scan_str (drop k (c # s)))"
  by (simp add: scan_str.simps(2) Let_def)

lemma scan_esc_ascii:
  assumes "(of_char c :: nat) < 0x80"
  shows "scan_str (esc_ascii c @ r) = prepend [c] (scan_str r)"
proof -
  let ?n = "of_char c :: nat"
  show ?thesis
  proof (cases "c \<in> {CHR 0x22, CHR 0x5C, CHR 0x08, CHR 0x0C, CHR 0x0A, CHR 0x0D, CHR 0x09}")
    case True
    then show ?thesis by (auto simp: esc_ascii_def scan_str_escape simple_escape_def)
  next
    case special: False
    show ?thesis
    proof (cases "?n < 0x20 \<or> c \<in> set ''<>&''")
      case True
      have "hex4 [CHR ''0'', CHR ''0'', hex_char (?n div 16), hex_char (?n mod 16)] = Some ?n"
        using assms by (simp add: hex_digit_0)
      from scan_str_u [OF this] special True assms show ?thesis
        by (simp add: esc_ascii_def Let_def utf8_enc_small)
    next
      case False
      have "utf8_len (c # r) = Suc 0" using assms by (rule utf8_len_ascii)
      with False special show ?thesis by (simp add: esc_ascii_def scan_str_plain)
    qed
  qed
qed

lemma scan_enc_str [codec_simps]:
  "utf8_valid s \<Longrightarrow> scan_str (enc_str s @ CHR 0x22 # r) = Some (s, r)"
proof (induction s rule: enc_str.induct)
  case 1
  then show ?case by simp
next
  case (2 c s)
  let ?k = "utf8_len (c # s)" and ?u = "take (utf8_len (c # s)) (c # s)"
    and ?t = "drop (utf8_len (c # s)) (c # s)"
  from "2.prems" have k: "?k \<noteq> 0" and val: "utf8_valid ?t"
    by (simp_all add: utf8_valid.simps [of "c # s"] split: if_splits)
  have split: "?u @ ?t = c # s" by (rule append_take_drop_id)
  consider "?k = 1" | "?k \<noteq> 1" "?u = [CHR 0xE2, CHR 0x80, CHR 0xA8]"
    | "?k \<noteq> 1" "?u = [CHR 0xE2, CHR 0x80, CHR 0xA9]"
    | "?k \<noteq> 1" "?u \<noteq> [CHR 0xE2, CHR 0x80, CHR 0xA8]" "?u \<noteq> [CHR 0xE2, CHR 0x80, CHR 0xA9]"
    by blast
  then show ?case
  proof cases
    case 1
    then have "(of_char c :: nat) < 0x80" using utf8_len_1 by simp
    with 1 "2.IH"(2) val show ?thesis
      by (simp add: enc_str.simps(2) Let_def scan_esc_ascii)
  next
    case 2
    have "hex4 ''2028'' = Some 0x2028" by (simp add: hex_digit_def)
    from scan_str_u [OF this] have
      "scan_str (CHR 0x5C # ''u2028'' @ r') = prepend [CHR 0xE2, CHR 0x80, CHR 0xA8] (scan_str r')" for r'
      by (simp add: utf8_enc_separators)
    with 2 k "2.IH"(3) val split show ?thesis
      by (simp add: enc_str.simps(2) Let_def)
  next
    case 3
    have "hex4 ''2029'' = Some 0x2029" by (simp add: hex_digit_def)
    from scan_str_u [OF this] have
      "scan_str (CHR 0x5C # ''u2029'' @ r') = prepend [CHR 0xE2, CHR 0x80, CHR 0xA9] (scan_str r')" for r'
      by (simp add: utf8_enc_separators)
    with 3 k "2.IH"(4) val split show ?thesis
      by (simp add: enc_str.simps(2) Let_def)
  next
    case 4
    have big: "0x80 \<le> (of_char c :: nat)" using utf8_len_gt1 k 4 by simp
    then have c: "c \<noteq> CHR 0x22" "c \<noteq> CHR 0x5C" "0x20 \<le> (of_char c :: nat)" by auto
    have ih: "scan_str (enc_str ?t @ CHR 0x22 # r) = Some (?t, r)"
      using 4 k "2.IH"(5) val by simp
    let ?x = "enc_str ?t @ CHR 0x22 # r"
    have kl: "utf8_len (?u @ ?x) = ?k" using k by (rule utf8_len_take)
    have len: "length ?u = ?k" using utf8_len_le [of "c # s"] by simp
    obtain u' where u: "?u = c # u'" using k by (cases ?k) auto
    have "scan_str (?u @ ?x) = prepend (take ?k (?u @ ?x)) (scan_str (drop ?k (?u @ ?x)))"
      using scan_str_plain [OF c, of "u' @ ?x" ?k] kl k unfolding u by simp
    also have "\<dots> = prepend ?u (scan_str ?x)" using len by simp
    finally show ?thesis using 4 k ih split by (simp add: enc_str.simps(2) Let_def)
  qed
qed

section \<open>Values\<close>

datatype json =
    JNull
  | JBool bool
  | JNum string
  | JStr string
  | JArr "json list"
  | JObj "(string \<times> json) list"

text \<open>A number literal: sign, integer part, fraction, exponent.\<close>

definition digits_of :: "string \<Rightarrow> string \<times> string" where
  "digits_of s = (takeWhile is_digit s, dropWhile is_digit s)"

definition scan_number :: "string \<Rightarrow> (string \<times> string) option" where
  "scan_number s =
     (let (sg, s1) = (if HasPrefix s ''-'' then (''-'', tl s) else ([], s));
          (ip, s2) = (if HasPrefix s1 ''0'' then (''0'', tl s1) else digits_of s1)
      in if ip = [] then None
         else let (fr, s3, ok) =
                (if HasPrefix s2 ''.'' then
                   (let (d, r) = digits_of (tl s2) in (CHR ''.'' # d, r, d \<noteq> []))
                 else ([], s2, True))
              in if \<not> ok then None
                 else if HasPrefix s3 ''e'' \<or> HasPrefix s3 ''E'' then
                   (let s4 = tl s3;
                        es = (if HasPrefix s4 ''+'' \<or> HasPrefix s4 ''-'' then [hd s4] else []);
                        (d, r) = digits_of (drop (length es) s4)
                    in if d = [] then None else Some (sg @ ip @ fr @ [hd s3] @ es @ d, r))
                 else Some (sg @ ip @ fr, s3))"

definition skip_ws :: "string \<Rightarrow> string" where
  "skip_ws s = dropWhile (\<lambda>c. c \<in> {CHR 0x20, CHR 0x09, CHR 0x0A, CHR 0x0D}) s"

definition max_nesting :: nat where
  "max_nesting = 10000"

text \<open>
  The parser: \<open>d\<close> is the number of arrays and objects that may still be opened, \<open>n\<close> the fuel.
  \<open>parse_elems\<close> reads the elements of an array after its opening bracket when one is known to
  follow, \<open>parse_members\<close> the members of an object.
\<close>

fun parse_value :: "nat \<Rightarrow> nat \<Rightarrow> string \<Rightarrow> (json \<times> string) option"
  and parse_elems :: "nat \<Rightarrow> nat \<Rightarrow> string \<Rightarrow> (json list \<times> string) option"
  and parse_members :: "nat \<Rightarrow> nat \<Rightarrow> string \<Rightarrow> ((string \<times> json) list \<times> string) option" where
  "parse_value 0 d s = None"
| "parse_value (Suc n) d s0 =
     (case skip_ws s0 of
        [] \<Rightarrow> None
      | c # s \<Rightarrow>
          if c = CHR 0x22 then map_option (\<lambda>(w, r). (JStr w, r)) (scan_str s)
          else if c = CHR ''['' then
            (if d = 0 then None
             else if HasPrefix (skip_ws s) '']'' then Some (JArr [], tl (skip_ws s))
             else map_option (\<lambda>(vs, r). (JArr vs, r)) (parse_elems n (d - 1) s))
          else if c = CHR 0x7B then
            (if d = 0 then None
             else if HasPrefix (skip_ws s) [CHR 0x7D] then Some (JObj [], tl (skip_ws s))
             else map_option (\<lambda>(ms, r). (JObj ms, r)) (parse_members n (d - 1) s))
          else if HasPrefix (c # s) ''null'' then Some (JNull, drop 3 s)
          else if HasPrefix (c # s) ''true'' then Some (JBool True, drop 3 s)
          else if HasPrefix (c # s) ''false'' then Some (JBool False, drop 4 s)
          else map_option (\<lambda>(w, r). (JNum w, r)) (scan_number (c # s)))"
| "parse_elems 0 d s = None"
| "parse_elems (Suc n) d s =
     (case parse_value n d s of
        None \<Rightarrow> None
      | Some (v, r) \<Rightarrow>
          (case skip_ws r of
             [] \<Rightarrow> None
           | c # r' \<Rightarrow>
               if c = CHR '']'' then Some ([v], r')
               else if c = CHR '','' then map_option (\<lambda>(vs, t). (v # vs, t)) (parse_elems n d r')
               else None))"
| "parse_members 0 d s = None"
| "parse_members (Suc n) d s =
     (if \<not> HasPrefix (skip_ws s) [CHR 0x22] then None
      else case scan_str (tl (skip_ws s)) of
        None \<Rightarrow> None
      | Some (k, r0) \<Rightarrow>
          if \<not> HasPrefix (skip_ws r0) '':'' then None
          else (case parse_value n d (tl (skip_ws r0)) of
             None \<Rightarrow> None
           | Some (v, r) \<Rightarrow>
               (case skip_ws r of
                  [] \<Rightarrow> None
                | c # r' \<Rightarrow>
                    if c = CHR 0x7D then Some ([(k, v)], r')
                    else if c = CHR '','' then
                      map_option (\<lambda>(ms, t). ((k, v) # ms, t)) (parse_members n d r')
                    else None)))"

text \<open>A whole input: one value and nothing but white space after it.\<close>

definition parse_json :: "string \<Rightarrow> json option" where
  "parse_json s =
     (case parse_value (Suc (2 * length s)) max_nesting s of
        None \<Rightarrow> None
      | Some (v, r) \<Rightarrow> if skip_ws r = [] then Some v else None)"

text \<open>\<open>json.Marshal\<close>.\<close>

fun render :: "json \<Rightarrow> string" where
  "render JNull = ''null''"
| "render (JBool b) = (if b then ''true'' else ''false'')"
| "render (JNum w) = w"
| "render (JStr s) = quote_str s"
| "render (JArr vs) = ''['' @ join_with '','' (map render vs) @ '']''"
| "render (JObj ms) =
     [CHR 0x7B] @ join_with '','' (map (\<lambda>(k, v). quote_str k @ '':'' @ render v) ms) @ [CHR 0x7D]"

section \<open>What Marshal writes, Unmarshal reads\<close>

text \<open>The literal of an integer as \<open>strconv\<close> writes it.\<close>

definition int_literal :: "string \<Rightarrow> bool" where
  "int_literal w =
     (let ds = (if HasPrefix w ''-'' then tl w else w)
      in ds \<noteq> [] \<and> list_all is_digit ds \<and> (HasPrefix ds ''0'' \<longrightarrow> ds = ''0''))"

text \<open>The values whose text reads back unchanged: strings and keys in UTF-8, integers.\<close>

fun wf_json :: "json \<Rightarrow> bool" where
  "wf_json JNull = True"
| "wf_json (JBool b) = True"
| "wf_json (JNum w) = int_literal w"
| "wf_json (JStr s) = utf8_valid s"
| "wf_json (JArr vs) = list_all wf_json vs"
| "wf_json (JObj ms) = list_all (\<lambda>(k, v). utf8_valid k \<and> wf_json v) ms"

fun json_depth :: "json \<Rightarrow> nat" where
  "json_depth (JArr vs) = Suc (foldr (\<lambda>v. max (json_depth v)) vs 0)"
| "json_depth (JObj ms) = Suc (foldr (\<lambda>(k, v). max (json_depth v)) ms 0)"
| "json_depth _ = 0"

definition delimited :: "string \<Rightarrow> bool" where
  "delimited r \<longleftrightarrow> r = [] \<or> hd r \<in> {CHR '','', CHR '']'', CHR 0x7D, CHR 0x0A}"

lemma digits_of_append:
  "list_all is_digit ds \<Longrightarrow> delimited r \<Longrightarrow> digits_of (ds @ r) = (ds, r)"
proof -
  assume ds: "list_all is_digit ds" and r: "delimited r"
  have "\<not> is_digit CHR '',''" "\<not> is_digit CHR '']''" "\<not> is_digit CHR 0x7D"
    "\<not> is_digit CHR 0x0A"
    by (simp_all add: is_digit_def digit_val_def)
  then have "takeWhile is_digit r = []" "dropWhile is_digit r = r"
    using r by (cases r; auto simp: delimited_def)+
  with ds show ?thesis
    by (simp add: digits_of_def list_all_iff takeWhile_append2 dropWhile_append2)
qed

lemma delimited_prefixes:
  "delimited r \<Longrightarrow> \<not> HasPrefix r ''.'' \<and> \<not> HasPrefix r ''e'' \<and> \<not> HasPrefix r ''E''"
  by (cases r) (auto simp: delimited_def)

lemma scan_number_literal:
  assumes "int_literal w" and r: "delimited r"
  shows "scan_number (w @ r) = Some (w, r)"
proof -
  define sg where "sg = (if HasPrefix w ''-'' then ''-'' else [])"
  define ds where "ds = (if HasPrefix w ''-'' then tl w else w)"
  have w: "w = sg @ ds" by (auto simp: sg_def ds_def HasPrefix_iff)
  from assms(1) have ds: "ds \<noteq> []" "list_all is_digit ds" "HasPrefix ds ''0'' \<longrightarrow> ds = ''0''"
    by (simp_all add: int_literal_def Let_def ds_def)
  have nosign: "\<not> HasPrefix (ds @ r) ''-''"
    using ds by (cases ds) auto
  have sign: "(if HasPrefix (w @ r) ''-'' then (''-'', tl (w @ r)) else ([], w @ r)) = (sg, ds @ r)"
  proof (cases "HasPrefix w ''-''")
    case True
    with w show ?thesis by (auto simp: sg_def)
  next
    case False
    then have "ds = w" "sg = []" by (simp_all add: ds_def sg_def)
    with nosign show ?thesis by simp
  qed
  have int: "(if HasPrefix (ds @ r) ''0'' then (''0'', tl (ds @ r)) else digits_of (ds @ r)) = (ds, r)"
    using ds digits_of_append [OF ds(2) r] by (cases ds) auto
  show ?thesis
    unfolding scan_number_def sign
    using int delimited_prefixes [OF r] ds by (simp add: Let_def w)
qed

lemma render_head:
  assumes "wf_json v"
  obtains c s where "render v = c # s" "c \<notin> {CHR 0x20, CHR 0x09, CHR 0x0A, CHR 0x0D}"
    "c \<noteq> CHR '']''"
proof (cases v)
  case (JNum w)
  with assms obtain c s where w: "w = c # s" and c: "c = CHR ''-'' \<or> is_digit c"
    by (cases w) (auto simp: int_literal_def Let_def split: if_splits)
  have "\<not> is_digit d" if "d \<in> {CHR 0x20, CHR 0x09, CHR 0x0A, CHR 0x0D, CHR '']''}" for d
    using that by (auto simp: is_digit_def digit_val_def)
  with c have "c \<notin> {CHR 0x20, CHR 0x09, CHR 0x0A, CHR 0x0D}" "c \<noteq> CHR '']''" by auto
  with that w JNum show ?thesis by simp
next
  case (JBool b)
  with that show ?thesis by (cases b) auto
qed (use that in \<open>auto simp: quote_str_def\<close>)

lemma skip_ws_Cons:
  "c \<notin> {CHR 0x20, CHR 0x09, CHR 0x0A, CHR 0x0D} \<Longrightarrow> skip_ws (c # s) = c # s"
  by (simp add: skip_ws_def)

lemma parse_elems_render:
  assumes vs: "vs \<noteq> []"
    and ih: "\<And>v m r'. v \<in> set vs \<Longrightarrow> 2 * length (render v) \<le> m \<Longrightarrow> delimited r' \<Longrightarrow>
      parse_value m d (render v @ r') = Some (v, r')"
    and n: "2 * length (join_with '','' (map render vs)) < n"
  shows "parse_elems n d (join_with '','' (map render vs) @ CHR '']'' # r) = Some (vs, r)"
  using vs ih n
proof (induction vs arbitrary: n)
  case Nil
  then show ?case by simp
next
  case (Cons v vs)
  obtain m where m: "n = Suc m" using Cons.prems(3) by (cases n) auto
  show ?case
  proof (cases vs)
    case Nil
    have "parse_value m d (render v @ CHR '']'' # r) = Some (v, CHR '']'' # r)"
      using Cons.prems(2,3) m Nil by (simp add: delimited_def)
    with Nil m show ?thesis by (simp add: skip_ws_def)
  next
    case (Cons w ws)
    let ?t = "join_with '','' (map render vs) @ CHR '']'' # r"
    have v: "parse_value m d (render v @ CHR '','' # ?t) = Some (v, CHR '','' # ?t)"
      using Cons.prems(2,3) m Cons by (intro Cons.prems(2)) (auto simp: delimited_def)
    have "parse_elems m d ?t = Some (vs, r)"
      using Cons.prems(3) m Cons by (intro Cons.IH) (auto intro: Cons.prems(2))
    with v m Cons show ?thesis by (simp add: skip_ws_def)
  qed
qed

lemma parse_members_render:
  assumes ms: "ms \<noteq> []"
    and keys: "\<And>k v. (k, v) \<in> set ms \<Longrightarrow> utf8_valid k"
    and ih: "\<And>k v m r'. (k, v) \<in> set ms \<Longrightarrow> 2 * length (render v) \<le> m \<Longrightarrow> delimited r' \<Longrightarrow>
      parse_value m d (render v @ r') = Some (v, r')"
    and n: "2 * length (join_with '','' (map (\<lambda>(k, v). quote_str k @ '':'' @ render v) ms)) < n"
  shows "parse_members n d
    (join_with '','' (map (\<lambda>(k, v). quote_str k @ '':'' @ render v) ms) @ CHR 0x7D # r) = Some (ms, r)"
  using ms keys ih n
proof (induction ms arbitrary: n)
  case Nil
  then show ?case by simp
next
  case (Cons kv ms)
  obtain k v where kv: "kv = (k, v)" by (cases kv)
  obtain m where m: "n = Suc m" using Cons.prems(4) by (cases n) auto
  have key: "scan_str (enc_str k @ CHR 0x22 # x) = Some (k, x)" for x
    using Cons.prems(2) [of k v] kv by (simp add: scan_enc_str)
  show ?case
  proof (cases ms)
    case Nil
    have "parse_value m d (render v @ CHR 0x7D # r) = Some (v, CHR 0x7D # r)"
      using Cons.prems(3,4) m Nil kv by (auto simp: delimited_def)
    with Nil m kv key show ?thesis by (simp add: skip_ws_def quote_str_def)
  next
    case (Cons w ws)
    let ?t = "join_with '','' (map (\<lambda>(k, v). quote_str k @ '':'' @ render v) ms) @ CHR 0x7D # r"
    have v: "parse_value m d (render v @ CHR '','' # ?t) = Some (v, CHR '','' # ?t)"
      using Cons.prems(3,4) m Cons kv by (intro Cons.prems(3)) (auto simp: delimited_def)
    have "parse_members m d ?t = Some (ms, r)"
      using Cons.prems(4) m Cons kv
      by (intro Cons.IH) (auto intro: Cons.prems(2,3))
    with v m Cons kv key show ?thesis by (simp add: skip_ws_def quote_str_def)
  qed
qed

lemma join_nonempty: "ws \<noteq> [] \<Longrightarrow> hd ws = c # s \<Longrightarrow> \<exists>t. join_with sep ws = c # t"
  by (cases ws; cases "tl ws") auto

lemma max_depth_member: "v \<in> set vs \<Longrightarrow> json_depth v \<le> foldr (\<lambda>v. max (json_depth v)) vs 0"
  by (induction vs) auto

lemma max_depth_value:
  "(k, v) \<in> set ms \<Longrightarrow> json_depth v \<le> foldr (\<lambda>(k, v). max (json_depth v)) ms 0"
  by (induction ms) auto

lemma parse_value_num:
  assumes w: "int_literal w" and r: "delimited r"
  shows "parse_value (Suc m) d (w @ r) = Some (JNum w, r)"
proof -
  obtain c s where cs: "w = c # s" and c: "c = CHR ''-'' \<or> is_digit c"
    using w by (cases w) (auto simp: int_literal_def Let_def split: if_splits)
  have "\<not> is_digit d" if
    "d \<in> {CHR 0x20, CHR 0x09, CHR 0x0A, CHR 0x0D, CHR 0x22, CHR ''['', CHR 0x7B, CHR ''n'', CHR ''t'', CHR ''f''}"
    for d using that by (auto simp: is_digit_def digit_val_def)
  with c have "c \<notin> {CHR 0x20, CHR 0x09, CHR 0x0A, CHR 0x0D, CHR 0x22, CHR ''['', CHR 0x7B,
      CHR ''n'', CHR ''t'', CHR ''f''}"
    by auto
  then show ?thesis
    using scan_number_literal [OF w r] by (simp add: cs skip_ws_Cons)
qed

lemma parse_value_render:
  "wf_json v \<Longrightarrow> json_depth v \<le> d \<Longrightarrow> 2 * length (render v) \<le> n \<Longrightarrow> delimited r \<Longrightarrow>
     parse_value n d (render v @ r) = Some (v, r)"
proof (induction v arbitrary: d n r)
  case JNull
  then show ?case by (cases n) (auto simp: skip_ws_def)
next
  case (JBool b)
  then show ?case by (cases n; cases b) (auto simp: skip_ws_def)
next
  case (JNum w)
  then have "n \<noteq> 0" by (cases w) (auto simp: int_literal_def)
  with JNum show ?case by (cases n) (simp_all add: parse_value_num del: parse_value.simps(2))
next
  case (JStr s)
  then show ?case by (cases n) (auto simp: skip_ws_def quote_str_def scan_enc_str)
next
  case (JArr vs)
  from JArr.prems obtain m e where n: "n = Suc m" and d: "d = Suc e"
    by (cases n; cases d) auto
  show ?case
  proof (cases "vs = []")
    case True
    then show ?thesis by (simp add: n d skip_ws_def)
  next
    case False
    let ?j = "join_with '','' (map render vs)"
    obtain c s where c: "render (hd vs) = c # s" "c \<notin> {CHR 0x20, CHR 0x09, CHR 0x0A, CHR 0x0D}"
      "c \<noteq> CHR '']''"
      using render_head [of "hd vs"] False JArr.prems(1) by (auto simp: list_all_iff)
    obtain t where j: "?j = c # t"
      using join_nonempty [of "map render vs" c s] False c by (auto simp: hd_map)
    have "parse_elems m e (?j @ CHR '']'' # r) = Some (vs, r)"
    proof (rule parse_elems_render [OF False])
      show "parse_value k e (render v @ r') = Some (v, r')"
        if "v \<in> set vs" "2 * length (render v) \<le> k" "delimited r'" for v k r'
        using JArr.IH JArr.prems(1,2) that max_depth_member [of v vs]
        by (auto simp: d list_all_iff)
      show "2 * length ?j < m" using JArr.prems(3) n by simp
    qed
    moreover have "\<not> HasPrefix (skip_ws (?j @ CHR '']'' # r)) '']''"
      using c by (simp add: j skip_ws_Cons)
    ultimately show ?thesis by (simp add: n d skip_ws_Cons)
  qed
next
  case (JObj ms)
  from JObj.prems obtain m e where n: "n = Suc m" and d: "d = Suc e"
    by (cases n; cases d) auto
  show ?case
  proof (cases "ms = []")
    case True
    then show ?thesis by (simp add: n d skip_ws_def)
  next
    case False
    let ?j = "join_with '','' (map (\<lambda>(k, v). quote_str k @ '':'' @ render v) ms)"
    obtain k0 v0 ms0 where ms: "ms = (k0, v0) # ms0" using False by (cases ms) auto
    obtain t where
      j: "join_with '','' (map (\<lambda>(k, v). quote_str k @ CHR '':'' # render v) ms) = CHR 0x22 # t"
      by (cases ms0) (auto simp: ms quote_str_def)
    have "parse_members m e (?j @ CHR 0x7D # r) = Some (ms, r)"
    proof (rule parse_members_render [OF False])
      show "utf8_valid k" if "(k, v) \<in> set ms" for k v
        using JObj.prems(1) that by (auto simp: list_all_iff)
      show "parse_value i e (render v @ r') = Some (v, r')"
        if "(k, v) \<in> set ms" "2 * length (render v) \<le> i" "delimited r'" for k v i r'
        using JObj.IH [of "(k, v)" v e i r'] JObj.prems(1,2) that max_depth_value [of k v ms]
        by (fastforce simp: d list_all_iff)
      show "2 * length ?j < m" using JObj.prems(3) n by simp
    qed
    moreover have "\<not> HasPrefix (skip_ws (?j @ CHR 0x7D # r)) [CHR 0x7D]"
      by (simp add: j skip_ws_Cons)
    ultimately show ?thesis by (simp add: n d skip_ws_Cons)
  qed
qed

lemma parse_render [codec_simps]:
  "wf_json v \<Longrightarrow> json_depth v \<le> max_nesting \<Longrightarrow> parse_json (render v) = Some v"
  using parse_value_render [of v max_nesting "Suc (2 * length (render v))" "[]"]
  by (simp add: parse_json_def delimited_def skip_ws_def)

section \<open>Integers\<close>

lemma nat_string_hd_0: "HasPrefix (nat_string n) ''0'' \<Longrightarrow> nat_string n = ''0''"
proof (induction n rule: nat_string.induct)
  case (1 n)
  show ?case
  proof (cases "n < 10")
    case True
    with "1.prems" show ?thesis
      by (auto simp: nat_string.simps [of n] digit_char_def)
  next
    case False
    then obtain c u where u: "nat_string (n div 10) = c # u"
      using nat_string_nonempty [of "n div 10"] by (cases "nat_string (n div 10)") auto
    with "1.prems" False have "HasPrefix (nat_string (n div 10)) ''0''"
      by (simp add: nat_string.simps [of n])
    with "1.IH" False have "nat_string (n div 10) = ''0''" by simp
    then have "digits_value 0 ''0'' = Some (n div 10)"
      using digits_value_nat_string [of "n div 10"] by simp
    then have "n div 10 = 0" by (simp add: digit_val_def)
    with False show ?thesis by simp
  qed
qed

lemma int_literal_nat_string [simp]: "int_literal (nat_string n)"
  using nat_string_hd_0 [of n] nat_string_digits [of _ n]
  by (auto simp: int_literal_def Let_def list_all_iff)

text \<open>\<open>strconv.ParseUint(w, 10, 64)\<close> within \<open>w\<close> bits, as the decoder stores unsigned fields.\<close>

definition parse_uint :: "nat \<Rightarrow> string \<Rightarrow> nat option" where
  "parse_uint bits w =
     (if w = [] then None
      else case digits_value 0 w of
             None \<Rightarrow> None
           | Some n \<Rightarrow> if n < 2 ^ bits then Some n else None)"

lemma parse_uint_nat_string [simp, codec_simps]:
  "parse_uint bits (nat_string n) = (if n < 2 ^ bits then Some n else None)"
  by (simp add: parse_uint_def)

section \<open>Struct fields\<close>

text \<open>
  A key names a field when the two are equal up to Unicode simple case folding; besides the
  ASCII letters only U+017F folds to \<open>s\<close> and U+212A to \<open>k\<close>.
\<close>

fun fold_key :: "string \<Rightarrow> string" where
  "fold_key (a # b # c # s) =
     (if a = CHR 0xC5 \<and> b = CHR 0xBF then CHR ''s'' # fold_key (c # s)
      else if a = CHR 0xE2 \<and> b = CHR 0x84 \<and> c = CHR 0xAA then CHR ''k'' # fold_key s
      else lower_char a # fold_key (b # c # s))"
| "fold_key [a, b] =
     (if a = CHR 0xC5 \<and> b = CHR 0xBF then ''s'' else lower_char a # fold_key [b])"
| "fold_key [a] = [lower_char a]"
| "fold_key [] = []"

definition key_is :: "string \<Rightarrow> string \<Rightarrow> bool" where
  "key_is k name \<longleftrightarrow> fold_key k = fold_key name"

text \<open>
  Decoding one member into a field: the new field and whether the value had the field's type
  (\<open>null\<close> leaves the field alone; a value of another type is reported, and decoding goes on).
\<close>

definition dec_string :: "json \<Rightarrow> string \<Rightarrow> string \<times> bool" where
  "dec_string v old = (case v of JStr s \<Rightarrow> (s, True) | JNull \<Rightarrow> (old, True) | _ \<Rightarrow> (old, False))"

definition dec_bool :: "json \<Rightarrow> bool \<Rightarrow> bool \<times> bool" where
  "dec_bool v old = (case v of JBool b \<Rightarrow> (b, True) | JNull \<Rightarrow> (old, True) | _ \<Rightarrow> (old, False))"

definition dec_uint :: "nat \<Rightarrow> json \<Rightarrow> nat \<Rightarrow> nat \<times> bool" where
  "dec_uint bits v old =
     (case v of
        JNum w \<Rightarrow> (case parse_uint bits w of Some n \<Rightarrow> (n, True) | None \<Rightarrow> (old, False))
      | JNull \<Rightarrow> (old, True)
      | _ \<Rightarrow> (old, False))"

text \<open>A struct: \<open>upd\<close> decodes one member into the record; the members come in the order of the
  input, so the last of several members of one name decides.\<close>

definition dec_struct :: "(string \<Rightarrow> json \<Rightarrow> 'r \<Rightarrow> 'r \<times> bool) \<Rightarrow> json \<Rightarrow> 'r \<Rightarrow> 'r \<times> bool" where
  "dec_struct upd v r =
     (case v of
        JObj ms \<Rightarrow> foldl (\<lambda>(r, ok) (k, v). let (r', ok') = upd k v r in (r', ok \<and> ok')) (r, True) ms
      | JNull \<Rightarrow> (r, True)
      | _ \<Rightarrow> (r, False))"

text \<open>\<open>json.Unmarshal(data, &r)\<close>: \<open>None\<close> for a syntax error (the record is not touched), else the
  record and whether every value had its field's type.\<close>

definition Unmarshal :: "(string \<Rightarrow> json \<Rightarrow> 'r \<Rightarrow> 'r \<times> bool) \<Rightarrow> string \<Rightarrow> 'r \<Rightarrow> 'r \<times> bool" where
  "Unmarshal upd s r = (case parse_json s of None \<Rightarrow> (r, False) | Some v \<Rightarrow> dec_struct upd v r)"

text \<open>\<open>json.NewDecoder(r).Decode(&r)\<close>: the first value of a stream; what follows an object or
  an array is left unread, after any other value the decoder wants white space or the end.\<close>

definition decode_first :: "(string \<Rightarrow> json \<Rightarrow> 'r \<Rightarrow> 'r \<times> bool) \<Rightarrow> string \<Rightarrow> 'r \<Rightarrow> 'r \<times> bool" where
  "decode_first upd s r =
     (case parse_value (Suc (2 * length s)) max_nesting s of
        None \<Rightarrow> (r, False)
      | Some (v, rest) \<Rightarrow>
          if (case v of JObj ms \<Rightarrow> False | JArr vs \<Rightarrow> False | _ \<Rightarrow> rest \<noteq> [] \<and> skip_ws rest = rest)
          then (r, False)
          else dec_struct upd v r)"

text \<open>What \<open>json.NewEncoder(w).Encode(v)\<close> writes: the value and a new line.\<close>

definition encode_line :: "json \<Rightarrow> string" where
  "encode_line v = render v @ [CHR 0x0A]"

lemma decode_encoded_line:
  assumes "wf_json v" and "json_depth v \<le> max_nesting"
  shows "decode_first upd (encode_line v) r = dec_struct upd v r"
proof -
  have "parse_value (Suc (2 * length (encode_line v))) max_nesting (render v @ [CHR 0x0A]) = Some (v, [CHR 0x0A])"
    using assms by (intro parse_value_render) (auto simp: delimited_def encode_line_def)
  then show ?thesis by (auto simp: decode_first_def encode_line_def skip_ws_def split: json.split)
qed

end
