(* ===== verification/Protocol.thy ===== *)
theory Protocol
  imports Json
begin

text \<open>
  The wire messages of \<open>pkg/protocol/messages.go\<close>: the frame types and, for every message
  struct, a record, its JSON value (field names and \<open>omitempty\<close> as in the struct tags) and the
  decoder of its members. \<open>Encode\<close> is \<open>json.Marshal\<close> into bytes, \<open>Decode\<close> is \<open>json.Unmarshal\<close>
  into a zero struct; an \<open>Inl ()\<close> is a syntax error or a value of the wrong type. A slice that
  JSON tells from an empty one (\<open>null\<close> and \<open>[]\<close>) is an option, \<open>None\<close> for nil.
\<close>

section \<open>Frame types\<close>

definition TypeAuth :: byte where "TypeAuth = 0x01"
definition TypeAuthOK :: byte where "TypeAuthOK = 0x02"
definition TypeAuthFail :: byte where "TypeAuthFail = 0x03"
definition TypeIPPacket :: byte where "TypeIPPacket = 0x04"
definition TypePing :: byte where "TypePing = 0x05"
definition TypePong :: byte where "TypePong = 0x06"
definition TypeDisconnect :: byte where "TypeDisconnect = 0x07"
definition TypeProxyDial :: byte where "TypeProxyDial = 0x08"
definition TypeProxyOK :: byte where "TypeProxyOK = 0x09"
definition TypeProxyFail :: byte where "TypeProxyFail = 0x0A"
definition TypeProxyData :: byte where "TypeProxyData = 0x0B"
definition TypeProxyClose :: byte where "TypeProxyClose = 0x0C"

lemmas frame_types =
  TypeAuth_def TypeAuthOK_def TypeAuthFail_def TypeIPPacket_def TypePing_def TypePong_def
  TypeDisconnect_def TypeProxyDial_def TypeProxyOK_def TypeProxyFail_def TypeProxyData_def
  TypeProxyClose_def

section \<open>Messages\<close>

record AuthRequest =
  ar_Token :: string
  ar_Mode :: string

record ProxyDialRequest =
  pd_StreamID :: "32 word"
  pd_Host :: string
  pd_Port :: "16 word"

record ProxyDialOK =
  po_StreamID :: "32 word"

record ProxyDialFail =
  pf_StreamID :: "32 word"
  pf_Reason :: string

record DNSConfig =
  dns_Server :: string
  dns_Domains :: "string list option"

record AuthOKResponse =
  ok_ClientIP :: string
  ok_ServerIP :: string
  ok_Subnet :: string
  ok_Routes :: "string list"
  ok_DNS :: "DNSConfig option"

record AuthFailResponse =
  af_Reason :: string

definition slice_list :: "'a list option \<Rightarrow> 'a list" where
  "slice_list s = (case s of None \<Rightarrow> [] | Some xs \<Rightarrow> xs)"

section \<open>JSON values of the messages\<close>

definition json_word :: "'w::len word \<Rightarrow> json" where
  "json_word w = JNum (nat_string (unat w))"

definition json_strings :: "string list \<Rightarrow> json" where
  "json_strings xs = JArr (map JStr xs)"

definition json_AuthRequest :: "AuthRequest \<Rightarrow> json" where
  "json_AuthRequest r =
     JObj ((''token'', JStr (ar_Token r)) #
           (if ar_Mode r = [] then [] else [(''mode'', JStr (ar_Mode r))]))"

definition json_ProxyDialRequest :: "ProxyDialRequest \<Rightarrow> json" where
  "json_ProxyDialRequest r =
     JObj [(''stream_id'', json_word (pd_StreamID r)), (''host'', JStr (pd_Host r)),
           (''port'', json_word (pd_Port r))]"

definition json_ProxyDialOK :: "ProxyDialOK \<Rightarrow> json" where
  "json_ProxyDialOK r = JObj [(''stream_id'', json_word (po_StreamID r))]"

definition json_ProxyDialFail :: "ProxyDialFail \<Rightarrow> json" where
  "json_ProxyDialFail r =
     JObj [(''stream_id'', json_word (pf_StreamID r)), (''reason'', JStr (pf_Reason r))]"

definition json_DNSConfig :: "DNSConfig \<Rightarrow> json" where
  "json_DNSConfig d =
     JObj [(''server'', JStr (dns_Server d)),
           (''domains'', case dns_Domains d of None \<Rightarrow> JNull | Some ds \<Rightarrow> json_strings ds)]"

definition json_AuthOKResponse :: "AuthOKResponse \<Rightarrow> json" where
  "json_AuthOKResponse r =
     JObj ([(''client_ip'', JStr (ok_ClientIP r)), (''server_ip'', JStr (ok_ServerIP r)),
            (''subnet'', JStr (ok_Subnet r))] @
           (if ok_Routes r = [] then [] else [(''routes'', json_strings (ok_Routes r))]) @
           (case ok_DNS r of None \<Rightarrow> [] | Some d \<Rightarrow> [(''dns'', json_DNSConfig d)]))"

definition json_AuthFailResponse :: "AuthFailResponse \<Rightarrow> json" where
  "json_AuthFailResponse r = JObj [(''reason'', JStr (af_Reason r))]"

section \<open>Decoding of members\<close>

definition dec_word :: "json \<Rightarrow> 'w::len word \<Rightarrow> 'w word \<times> bool" where
  "dec_word v old = (let (n, ok) = dec_uint (LENGTH('w)) v (unat old) in (word_of_nat n, ok))"

text \<open>An array into a nil slice of strings: an element of another type stays empty.\<close>

definition dec_strings :: "json \<Rightarrow> string list option \<Rightarrow> string list option \<times> bool" where
  "dec_strings v old =
     (case v of
        JArr vs \<Rightarrow> (let rs = map (\<lambda>v. dec_string v []) vs in (Some (map fst rs), list_all snd rs))
      | JNull \<Rightarrow> (None, True)
      | _ \<Rightarrow> (old, False))"

definition mem_AuthRequest :: "string \<Rightarrow> json \<Rightarrow> AuthRequest \<Rightarrow> AuthRequest \<times> bool" where
  "mem_AuthRequest k v r =
     (if key_is k ''token'' then
        (let (s, ok) = dec_string v (ar_Token r) in (r\<lparr>ar_Token := s\<rparr>, ok))
      else if key_is k ''mode'' then
        (let (s, ok) = dec_string v (ar_Mode r) in (r\<lparr>ar_Mode := s\<rparr>, ok))
      else (r, True))"

definition mem_ProxyDialRequest ::
    "string \<Rightarrow> json \<Rightarrow> ProxyDialRequest \<Rightarrow> ProxyDialRequest \<times> bool" where
  "mem_ProxyDialRequest k v r =
     (if key_is k ''stream_id'' then
        (let (n, ok) = dec_word v (pd_StreamID r) in (r\<lparr>pd_StreamID := n\<rparr>, ok))
      else if key_is k ''host'' then
        (let (s, ok) = dec_string v (pd_Host r) in (r\<lparr>pd_Host := s\<rparr>, ok))
      else if key_is k ''port'' then
        (let (n, ok) = dec_word v (pd_Port r) in (r\<lparr>pd_Port := n\<rparr>, ok))
      else (r, True))"

definition mem_ProxyDialOK :: "string \<Rightarrow> json \<Rightarrow> ProxyDialOK \<Rightarrow> ProxyDialOK \<times> bool" where
  "mem_ProxyDialOK k v r =
     (if key_is k ''stream_id'' then
        (let (n, ok) = dec_word v (po_StreamID r) in (r\<lparr>po_StreamID := n\<rparr>, ok))
      else (r, True))"

definition mem_ProxyDialFail :: "string \<Rightarrow> json \<Rightarrow> ProxyDialFail \<Rightarrow> ProxyDialFail \<times> bool" where
  "mem_ProxyDialFail k v r =
     (if key_is k ''stream_id'' then
        (let (n, ok) = dec_word v (pf_StreamID r) in (r\<lparr>pf_StreamID := n\<rparr>, ok))
      else if key_is k ''reason'' then
        (let (s, ok) = dec_string v (pf_Reason r) in (r\<lparr>pf_Reason := s\<rparr>, ok))
      else (r, True))"

definition mem_DNSConfig :: "string \<Rightarrow> json \<Rightarrow> DNSConfig \<Rightarrow> DNSConfig \<times> bool" where
  "mem_DNSConfig k v d =
     (if key_is k ''server'' then
        (let (s, ok) = dec_string v (dns_Server d) in (d\<lparr>dns_Server := s\<rparr>, ok))
      else if key_is k ''domains'' then
        (let (ds, ok) = dec_strings v (dns_Domains d) in (d\<lparr>dns_Domains := ds\<rparr>, ok))
      else (d, True))"

text \<open>A pointer field: \<open>null\<close> clears it, anything else decodes into what it points to, a new
  zero struct when it is nil.\<close>

definition dec_DNS :: "json \<Rightarrow> DNSConfig option \<Rightarrow> DNSConfig option \<times> bool" where
  "dec_DNS v old =
     (if v = JNull then (None, True)
      else let d0 = (case old of Some d \<Rightarrow> d | None \<Rightarrow> \<lparr>dns_Server = [], dns_Domains = None\<rparr>);
               (d, ok) = dec_struct mem_DNSConfig v d0
           in (Some d, ok))"

definition mem_AuthOKResponse ::
    "string \<Rightarrow> json \<Rightarrow> AuthOKResponse \<Rightarrow> AuthOKResponse \<times> bool" where
  "mem_AuthOKResponse k v r =
     (if key_is k ''client_ip'' then
        (let (s, ok) = dec_string v (ok_ClientIP r) in (r\<lparr>ok_ClientIP := s\<rparr>, ok))
      else if key_is k ''server_ip'' then
        (let (s, ok) = dec_string v (ok_ServerIP r) in (r\<lparr>ok_ServerIP := s\<rparr>, ok))
      else if key_is k ''subnet'' then
        (let (s, ok) = dec_string v (ok_Subnet r) in (r\<lparr>ok_Subnet := s\<rparr>, ok))
      else if key_is k ''routes'' then
        (let (ss, ok) = dec_strings v (Some (ok_Routes r))
         in (r\<lparr>ok_Routes := slice_list ss\<rparr>, ok))
      else if key_is k ''dns'' then
        (let (d, ok) = dec_DNS v (ok_DNS r) in (r\<lparr>ok_DNS := d\<rparr>, ok))
      else (r, True))"

definition mem_AuthFailResponse ::
    "string \<Rightarrow> json \<Rightarrow> AuthFailResponse \<Rightarrow> AuthFailResponse \<times> bool" where
  "mem_AuthFailResponse k v r =
     (if key_is k ''reason'' then
        (let (s, ok) = dec_string v (af_Reason r) in (r\<lparr>af_Reason := s\<rparr>, ok))
      else (r, True))"

section \<open>Encode and Decode\<close>

definition Encode :: "json \<Rightarrow> bytes" where
  "Encode v = bytes_of_string (render v)"

definition Decode :: "(string \<Rightarrow> json \<Rightarrow> 'r \<Rightarrow> 'r \<times> bool) \<Rightarrow> 'r \<Rightarrow> bytes \<Rightarrow> unit + 'r" where
  "Decode upd zero data =
     (let (r, ok) = Unmarshal upd (string_of_bytes data) zero in if ok then Inr r else Inl ())"

definition decode_AuthRequest :: "bytes \<Rightarrow> unit + AuthRequest" where
  "decode_AuthRequest = Decode mem_AuthRequest \<lparr>ar_Token = [], ar_Mode = []\<rparr>"

definition decode_ProxyDialRequest :: "bytes \<Rightarrow> unit + ProxyDialRequest" where
  "decode_ProxyDialRequest =
     Decode mem_ProxyDialRequest \<lparr>pd_StreamID = 0, pd_Host = [], pd_Port = 0\<rparr>"

definition decode_ProxyDialOK :: "bytes \<Rightarrow> unit + ProxyDialOK" where
  "decode_ProxyDialOK = Decode mem_ProxyDialOK \<lparr>po_StreamID = 0\<rparr>"

definition decode_ProxyDialFail :: "bytes \<Rightarrow> unit + ProxyDialFail" where
  "decode_ProxyDialFail = Decode mem_ProxyDialFail \<lparr>pf_StreamID = 0, pf_Reason = []\<rparr>"

definition zero_AuthOK :: AuthOKResponse where
  "zero_AuthOK = \<lparr>ok_ClientIP = [], ok_ServerIP = [], ok_Subnet = [], ok_Routes = [], ok_DNS = None\<rparr>"

definition decode_AuthOKResponse :: "bytes \<Rightarrow> unit + AuthOKResponse" where
  "decode_AuthOKResponse = Decode mem_AuthOKResponse zero_AuthOK"

definition decode_AuthFailResponse :: "bytes \<Rightarrow> unit + AuthFailResponse" where
  "decode_AuthFailResponse = Decode mem_AuthFailResponse \<lparr>af_Reason = []\<rparr>"

section \<open>Round trips\<close>

lemma unat_lt_2p: "unat (w :: 'w::len word) < 2 ^ LENGTH('w)"
  by (rule unsigned_less)

lemma Decode_Encode:
  assumes "wf_json v" and "json_depth v \<le> max_nesting"
  shows "Decode upd zero (Encode v) =
    (let (r, ok) = dec_struct upd v zero in if ok then Inr r else Inl ())"
  using assms by (simp add: Decode_def Encode_def Unmarshal_def parse_render)

lemma dec_word_json_word [simp, codec_simps]: "dec_word (json_word w) old = (w, True)"
  by (simp add: dec_word_def json_word_def dec_uint_def unat_lt_2p)

lemma wf_json_word [simp]: "wf_json (json_word w)" "json_depth (json_word w) = 0"
  by (simp_all add: json_word_def)

lemma wf_json_strings [simp]:
  "wf_json (json_strings xs) = list_all utf8_valid xs"
  by (simp add: json_strings_def list.pred_map comp_def)

lemma depth_json_strings [simp]: "json_depth (json_strings xs) = 1"
proof -
  have "foldr (\<lambda>v. max (json_depth v)) (map JStr xs) 0 = 0" by (induction xs) auto
  then show ?thesis by (simp add: json_strings_def)
qed

lemma dec_strings_json_strings [simp, codec_simps]:
  "dec_strings (json_strings xs) old = (Some xs, True)"
  by (simp add: dec_strings_def json_strings_def dec_string_def comp_def list_all_iff)

lemma dec_string_JStr [simp]: "dec_string (JStr s) old = (s, True)"
  by (simp add: dec_string_def)

lemma utf8_valid_ascii:
  "list_all (\<lambda>c. (of_char c :: nat) < 0x80) s \<Longrightarrow> utf8_valid s"
  by (induction s) (simp_all add: utf8_valid.simps utf8_len_ascii)

lemmas field_keys = key_is_def lower_char_def

lemmas message_jsons =
  json_AuthRequest_def json_ProxyDialRequest_def json_ProxyDialOK_def json_ProxyDialFail_def
  json_AuthOKResponse_def json_DNSConfig_def json_AuthFailResponse_def

lemmas message_members =
  mem_AuthRequest_def mem_ProxyDialRequest_def mem_ProxyDialOK_def mem_ProxyDialFail_def
  mem_AuthOKResponse_def mem_DNSConfig_def mem_AuthFailResponse_def

lemma decode_encode_AuthRequest [codec_simps]:
  assumes "utf8_valid (ar_Token r)" and "utf8_valid (ar_Mode r)"
  shows "decode_AuthRequest (Encode (json_AuthRequest r)) = Inr r"
proof -
  have wf: "wf_json (json_AuthRequest r)" "json_depth (json_AuthRequest r) \<le> max_nesting"
    using assms by (auto simp: json_AuthRequest_def utf8_valid_ascii max_nesting_def)
  show ?thesis
    unfolding decode_AuthRequest_def Decode_Encode [OF wf]
    by (simp add: json_AuthRequest_def dec_struct_def mem_AuthRequest_def field_keys)
qed

lemma decode_encode_ProxyDialRequest [codec_simps]:
  assumes "utf8_valid (pd_Host r)"
  shows "decode_ProxyDialRequest (Encode (json_ProxyDialRequest r)) = Inr r"
proof -
  have wf: "wf_json (json_ProxyDialRequest r)" "json_depth (json_ProxyDialRequest r) \<le> max_nesting"
    using assms by (auto simp: json_ProxyDialRequest_def utf8_valid_ascii max_nesting_def)
  show ?thesis
    unfolding decode_ProxyDialRequest_def Decode_Encode [OF wf]
    by (simp add: json_ProxyDialRequest_def dec_struct_def mem_ProxyDialRequest_def field_keys)
qed

lemma decode_encode_ProxyDialOK [codec_simps]:
  "decode_ProxyDialOK (Encode (json_ProxyDialOK r)) = Inr r"
proof -
  have wf: "wf_json (json_ProxyDialOK r)" "json_depth (json_ProxyDialOK r) \<le> max_nesting"
    by (auto simp: json_ProxyDialOK_def utf8_valid_ascii max_nesting_def)
  show ?thesis
    unfolding decode_ProxyDialOK_def Decode_Encode [OF wf]
    by (simp add: json_ProxyDialOK_def dec_struct_def mem_ProxyDialOK_def field_keys)
qed

lemma decode_encode_ProxyDialFail [codec_simps]:
  assumes "utf8_valid (pf_Reason r)"
  shows "decode_ProxyDialFail (Encode (json_ProxyDialFail r)) = Inr r"
proof -
  have wf: "wf_json (json_ProxyDialFail r)" "json_depth (json_ProxyDialFail r) \<le> max_nesting"
    using assms by (auto simp: json_ProxyDialFail_def utf8_valid_ascii max_nesting_def)
  show ?thesis
    unfolding decode_ProxyDialFail_def Decode_Encode [OF wf]
    by (simp add: json_ProxyDialFail_def dec_struct_def mem_ProxyDialFail_def field_keys)
qed

lemma decode_encode_AuthFailResponse [codec_simps]:
  assumes "utf8_valid (af_Reason r)"
  shows "decode_AuthFailResponse (Encode (json_AuthFailResponse r)) = Inr r"
proof -
  have wf: "wf_json (json_AuthFailResponse r)" "json_depth (json_AuthFailResponse r) \<le> max_nesting"
    using assms by (auto simp: json_AuthFailResponse_def utf8_valid_ascii max_nesting_def)
  show ?thesis
    unfolding decode_AuthFailResponse_def Decode_Encode [OF wf]
    by (simp add: json_AuthFailResponse_def dec_struct_def mem_AuthFailResponse_def field_keys)
qed

text \<open>The strings of a response are UTF-8.\<close>

definition dns_utf8 :: "DNSConfig \<Rightarrow> bool" where
  "dns_utf8 d \<longleftrightarrow> utf8_valid (dns_Server d) \<and> list_all utf8_valid (slice_list (dns_Domains d))"

definition ok_utf8 :: "AuthOKResponse \<Rightarrow> bool" where
  "ok_utf8 r \<longleftrightarrow>
     utf8_valid (ok_ClientIP r) \<and> utf8_valid (ok_ServerIP r) \<and> utf8_valid (ok_Subnet r) \<and>
     list_all utf8_valid (ok_Routes r) \<and> pred_option dns_utf8 (ok_DNS r)"

lemma wf_DNSConfig:
  "dns_utf8 d \<Longrightarrow> wf_json (json_DNSConfig d) \<and> json_depth (json_DNSConfig d) \<le> 2"
  by (auto simp: json_DNSConfig_def dns_utf8_def slice_list_def utf8_valid_ascii split: option.splits)

lemma dec_DNS_json_DNSConfig [simp, codec_simps]:
  "dec_DNS (json_DNSConfig d) None = (Some d, True)"
  by (cases "dns_Domains d")
     (simp_all add: dec_DNS_def json_DNSConfig_def dec_struct_def mem_DNSConfig_def field_keys
       dec_strings_def [of JNull])

lemma wf_AuthOKResponse:
  assumes "ok_utf8 r"
  shows "wf_json (json_AuthOKResponse r) \<and> json_depth (json_AuthOKResponse r) \<le> max_nesting"
proof (cases "ok_DNS r")
  case None
  with assms show ?thesis
    by (auto simp: json_AuthOKResponse_def ok_utf8_def utf8_valid_ascii max_nesting_def)
next
  case (Some d)
  with assms have "wf_json (json_DNSConfig d)" "json_depth (json_DNSConfig d) \<le> 2"
    by (auto simp: ok_utf8_def dest: wf_DNSConfig)
  with Some assms show ?thesis
    by (auto simp: json_AuthOKResponse_def ok_utf8_def utf8_valid_ascii max_nesting_def)
qed

lemma decode_encode_AuthOKResponse [codec_simps]:
  assumes "ok_utf8 r"
  shows "decode_AuthOKResponse (Encode (json_AuthOKResponse r)) = Inr r"
proof -
  have wf: "wf_json (json_AuthOKResponse r)" "json_depth (json_AuthOKResponse r) \<le> max_nesting"
    using wf_AuthOKResponse [OF assms] by blast+
  show ?thesis
    unfolding decode_AuthOKResponse_def Decode_Encode [OF wf]
    by (cases "ok_DNS r"; cases "ok_Routes r = []")
       (simp_all add: json_AuthOKResponse_def dec_struct_def mem_AuthOKResponse_def field_keys
         zero_AuthOK_def slice_list_def)
qed

end
