(* ===== verification/Frame.thy ===== *)
theory Frame
  imports Protocol
begin

text \<open>
  \<open>internal/tunnel/frame.go\<close>: \<open>WriteFrame\<close> and \<open>ReadFrame\<close> over a reader and a writer that
  may fail. A reader is the bytes that will still arrive and the error a read gets after them
  (\<open>EOF\<close> when the peer closed); \<open>io.ReadFull\<close> turns an end inside the wanted bytes into
  \<open>UnexpectedEOF\<close>. A writer is the bytes accepted so far and, when it will fail, after how
  many more bytes. The locale \<open>framing\<close> states what a self-delimiting encoding gives its user
  (a stream of encodings splits in one way only); it is interpreted on the frames.
\<close>

section \<open>Readers and writers\<close>

datatype io_error = EOF | UnexpectedEOF | IOError string

record reader =
  rd_buf :: bytes
  rd_end :: io_error

record writer =
  wr_out :: bytes
  wr_fail :: "(nat \<times> io_error) option"

definition ReadFull :: "reader \<Rightarrow> nat \<Rightarrow> (io_error + bytes) \<times> reader" where
  "ReadFull r n =
     (if n \<le> length (rd_buf r) then (Inr (take n (rd_buf r)), r\<lparr>rd_buf := drop n (rd_buf r)\<rparr>)
      else (Inl (if rd_buf r \<noteq> [] \<and> rd_end r = EOF then UnexpectedEOF else rd_end r),
            r\<lparr>rd_buf := []\<rparr>))"

definition Write :: "writer \<Rightarrow> bytes \<Rightarrow> writer \<times> io_error option" where
  "Write w b =
     (case wr_fail w of
        None \<Rightarrow> (w\<lparr>wr_out := wr_out w @ b\<rparr>, None)
      | Some (k, e) \<Rightarrow>
          if length b \<le> k
          then (w\<lparr>wr_out := wr_out w @ b, wr_fail := Some (k - length b, e)\<rparr>, None)
          else (w\<lparr>wr_out := wr_out w @ take k b, wr_fail := Some (0, e)\<rparr>, Some e))"

section \<open>Frames\<close>

definition maxFrameSize :: nat where "maxFrameSize = 65535"
definition headerSize :: nat where "headerSize = 4"

datatype frame_error = FrameTooLarge nat | InvalidLength "32 word" | FrameIO io_error

definition frame_bytes :: "byte \<Rightarrow> bytes \<Rightarrow> bytes" where
  "frame_bytes msgType payload =
     be_put32 (word_of_nat (1 + length payload)) @ msgType # payload"

definition WriteFrame :: "writer \<Rightarrow> byte \<Rightarrow> bytes \<Rightarrow> writer \<times> frame_error option" where
  "WriteFrame w msgType payload =
     (let contentLen = 1 + length payload
      in if maxFrameSize < contentLen then (w, Some (FrameTooLarge contentLen))
         else let (w', e) = Write w (frame_bytes msgType payload)
              in (w', map_option FrameIO e))"

definition ReadFrame :: "reader \<Rightarrow> (frame_error + byte \<times> bytes) \<times> reader" where
  "ReadFrame r =
     (case ReadFull r headerSize of
        (Inl e, r1) \<Rightarrow> (Inl (FrameIO e), r1)
      | (Inr header, r1) \<Rightarrow>
          let contentLen = be_get32 header
          in if contentLen = 0 \<or> maxFrameSize < unat contentLen
             then (Inl (InvalidLength contentLen), r1)
             else (case ReadFull r1 (unat contentLen) of
                     (Inl e, r2) \<Rightarrow> (Inl (FrameIO e), r2)
                   | (Inr content, r2) \<Rightarrow> (Inr (hd content, tl content), r2)))"

text \<open>The frames of a stream, until a read fails: one unit of fuel per frame; a frame takes five
  bytes or more, so \<open>Suc (length (rd_buf r))\<close> units are enough.\<close>

fun ReadFrames :: "nat \<Rightarrow> reader \<Rightarrow> (byte \<times> bytes) list \<times> frame_error option" where
  "ReadFrames 0 r = ([], None)"
| "ReadFrames (Suc n) r =
     (case ReadFrame r of
        (Inl e, r') \<Rightarrow> ([], Some e)
      | (Inr f, r') \<Rightarrow> (let (fs, e) = ReadFrames n r' in (f # fs, e)))"

definition frames_bytes :: "(byte \<times> bytes) list \<Rightarrow> bytes" where
  "frames_bytes fs = concat (map (\<lambda>(t, p). frame_bytes t p) fs)"

fun WriteFrames :: "writer \<Rightarrow> (byte \<times> bytes) list \<Rightarrow> writer \<times> frame_error option" where
  "WriteFrames w [] = (w, None)"
| "WriteFrames w ((t, p) # fs) =
     (case WriteFrame w t p of
        (w', None) \<Rightarrow> WriteFrames w' fs
      | (w', Some e) \<Rightarrow> (w', Some e))"

section \<open>Reading\<close>

lemma unat_frame_length:
  "length p < maxFrameSize \<Longrightarrow> unat (word_of_nat (1 + length p) :: 32 word) = 1 + length p"
  unfolding unsigned_of_nat take_bit_eq_mod by (simp add: maxFrameSize_def)

lemma length_frame_bytes [simp]: "length (frame_bytes t p) = 5 + length p"
  by (simp add: frame_bytes_def)

lemma ReadFull_append:
  "length u = n \<Longrightarrow> rd_buf r = u @ v \<Longrightarrow> ReadFull r n = (Inr u, r\<lparr>rd_buf := v\<rparr>)"
  by (simp add: ReadFull_def)

lemma ReadFull_Inr:
  assumes "ReadFull r n = (Inr u, r')"
  shows "length u = n \<and> rd_buf r = u @ rd_buf r' \<and> rd_end r' = rd_end r"
  using assms by (auto simp: ReadFull_def split: if_splits)

lemma be_get32_frame:
  assumes "length p < maxFrameSize"
  shows "be_get32 (take headerSize (frame_bytes t p @ s)) = word_of_nat (1 + length p)"
  by (simp add: frame_bytes_def headerSize_def)

lemma ReadFrame_frame_bytes:
  assumes p: "length p < maxFrameSize" and r: "rd_buf r = frame_bytes t p @ s"
  shows "ReadFrame r = (Inr (t, p), r\<lparr>rd_buf := s\<rparr>)"
proof -
  let ?h = "be_put32 (word_of_nat (1 + length p))"
  have 1: "ReadFull r headerSize = (Inr ?h, r\<lparr>rd_buf := (t # p) @ s\<rparr>)"
    using r by (intro ReadFull_append) (simp_all add: frame_bytes_def headerSize_def)
  have 2: "ReadFull (r\<lparr>rd_buf := (t # p) @ s\<rparr>) (1 + length p) = (Inr (t # p), r\<lparr>rd_buf := s\<rparr>)"
    using ReadFull_append [of "t # p" "1 + length p" "r\<lparr>rd_buf := (t # p) @ s\<rparr>" s] by simp
  have len: "unat (word_of_nat (1 + length p) :: 32 word) = 1 + length p"
    using p by (rule unat_frame_length)
  have nz: "(word_of_nat (1 + length p) :: 32 word) \<noteq> 0"
    using len by (metis Suc_eq_plus1_left nat.distinct(1) unsigned_0)
  from 1 2 len nz p show ?thesis
    by (simp add: ReadFrame_def Let_def)
qed

lemma ReadFrame_Inr:
  assumes "ReadFrame r = (Inr (t, p), r')"
  shows "length p < maxFrameSize \<and> rd_buf r = frame_bytes t p @ rd_buf r' \<and> rd_end r' = rd_end r"
proof -
  obtain h r1 where h: "ReadFull r headerSize = (Inr h, r1)"
    using assms by (auto simp: ReadFrame_def Let_def split: prod.splits sum.splits if_splits)
  let ?n = "be_get32 h"
  have n: "?n \<noteq> 0" "unat ?n \<le> maxFrameSize"
    and c: "\<exists>c. ReadFull r1 (unat ?n) = (Inr c, r') \<and> t = hd c \<and> p = tl c"
    using assms h by (auto simp: ReadFrame_def Let_def split: prod.splits sum.splits if_splits)
  from c obtain c where c: "ReadFull r1 (unat ?n) = (Inr c, r')" "t = hd c" "p = tl c" by blast
  have H: "length h = 4" "rd_buf r = h @ rd_buf r1" "rd_end r1 = rd_end r"
    using ReadFull_Inr [OF h] by (simp_all add: headerSize_def)
  have C: "length c = unat ?n" "rd_buf r1 = c @ rd_buf r'" "rd_end r' = rd_end r1"
    using ReadFull_Inr [OF c(1)] by simp_all
  have pos: "0 < unat ?n" using n(1) by (simp add: unat_gt_0)
  then have cons: "c = t # p" using C(1) c by (cases c) auto
  then have "length p < maxFrameSize" using C(1) n(2) by simp
  moreover have "be_put32 (word_of_nat (1 + length p)) = h"
  proof -
    have "1 + length p = unat ?n" using C(1) cons by simp
    then have "word_of_nat (1 + length p) = ?n" by (simp only: of_nat_unat unsigned_ucast_eq ucast_id)
    then show ?thesis using H(1) by simp
  qed
  ultimately show ?thesis using H C cons by (simp add: frame_bytes_def)
qed

section \<open>Self-delimiting encodings\<close>

locale framing =
  fixes enc :: "'a \<Rightarrow> 'b list"
    and dec :: "'b list \<Rightarrow> ('a \<times> 'b list) option"
    and ok :: "'a \<Rightarrow> bool"
  assumes dec_enc: "ok a \<Longrightarrow> dec (enc a @ r) = Some (a, r)"
    and enc_dec: "dec b = Some (a, r) \<Longrightarrow> ok a \<and> b = enc a @ r"
    and enc_nonempty: "enc a \<noteq> []"
begin

lemma enc_prefix_free:
  assumes "ok a" and "ok a'" and "enc a @ r = enc a' @ r'"
  shows "a = a' \<and> r = r'"
  using dec_enc [OF assms(1), of r] dec_enc [OF assms(2), of r'] unfolding assms(3) by simp

lemma enc_stream_unique:
  "list_all ok as \<Longrightarrow> list_all ok bs \<Longrightarrow>
     concat (map enc as) = concat (map enc bs) \<Longrightarrow> as = bs"
proof (induction as arbitrary: bs)
  case Nil
  then show ?case by (cases bs) (auto simp: enc_nonempty)
next
  case (Cons a as)
  from Cons.prems(3) obtain b bs' where bs: "bs = b # bs'"
    by (cases bs) (simp_all add: enc_nonempty)
  have "a = b \<and> concat (map enc as) = concat (map enc bs')"
    using Cons.prems bs by (intro enc_prefix_free) simp_all
  moreover from this have "as = bs'"
    using Cons.prems(1,2) bs by (intro Cons.IH) simp_all
  ultimately show ?case using bs by simp
qed

end

definition take_frame :: "bytes \<Rightarrow> ((byte \<times> bytes) \<times> bytes) option" where
  "take_frame b =
     (case ReadFrame \<lparr>rd_buf = b, rd_end = EOF\<rparr> of
        (Inr f, r) \<Rightarrow> Some (f, rd_buf r)
      | (Inl e, r) \<Rightarrow> None)"

interpretation frames: framing "\<lambda>(t, p). frame_bytes t p" take_frame "\<lambda>(t, p). length p < maxFrameSize"
proof
  fix f :: "byte \<times> bytes" and r
  assume "case f of (t, p) \<Rightarrow> length p < maxFrameSize"
  then show "take_frame ((case f of (t, p) \<Rightarrow> frame_bytes t p) @ r) = Some (f, r)"
    by (cases f) (simp add: take_frame_def ReadFrame_frame_bytes)
next
  fix b and f :: "byte \<times> bytes" and r
  assume "take_frame b = Some (f, r)"
  then show "(case f of (t, p) \<Rightarrow> length p < maxFrameSize) \<and>
      b = (case f of (t, p) \<Rightarrow> frame_bytes t p) @ r"
    by (cases f) (auto simp: take_frame_def split: prod.splits sum.splits dest!: ReadFrame_Inr)
next
  fix f :: "byte \<times> bytes"
  show "(case f of (t, p) \<Rightarrow> frame_bytes t p) \<noteq> []"
    by (cases f) (simp add: frame_bytes_def)
qed

section \<open>Writing\<close>

lemma WriteFrame_None:
  assumes "WriteFrame w t p = (w', None)"
  shows "length p < maxFrameSize \<and> wr_out w' = wr_out w @ frame_bytes t p"
  using assms
  by (auto simp: WriteFrame_def Write_def Let_def split: if_splits option.splits prod.splits)

lemma WriteFrame_ok:
  "wr_fail w = None \<Longrightarrow> length p < maxFrameSize \<Longrightarrow>
     WriteFrame w t p = (w\<lparr>wr_out := wr_out w @ frame_bytes t p\<rparr>, None)"
  by (simp add: WriteFrame_def Write_def)

lemma WriteFrame_too_large:
  "maxFrameSize \<le> length p \<Longrightarrow> WriteFrame w t p = (w, Some (FrameTooLarge (1 + length p)))"
  by (simp add: WriteFrame_def)

text \<open>Whatever the outcome, a writer only grows, by a prefix of the frame.\<close>

lemma WriteFrame_prefix:
  assumes "WriteFrame w t p = (w', r)"
  shows "\<exists>b. prefix b (frame_bytes t p) \<and> wr_out w' = wr_out w @ b"
  using assms
  by (auto simp: WriteFrame_def Write_def Let_def take_is_prefix
      split: if_splits option.splits prod.splits)

lemma WriteFrames_None:
  "WriteFrames w fs = (w', None) \<Longrightarrow>
     list_all (\<lambda>(t, p). length p < maxFrameSize) fs \<and> wr_out w' = wr_out w @ frames_bytes fs"
  by (induction w fs rule: WriteFrames.induct)
     (auto simp: frames_bytes_def split: prod.splits option.splits dest!: WriteFrame_None)

section \<open>Streams of frames\<close>

lemma ReadFrames_frames_bytes:
  assumes "list_all (\<lambda>(t, p). length p < maxFrameSize) fs" and "length fs < n"
    and "rd_buf r = frames_bytes fs"
  shows "ReadFrames n r = (fs, Some (FrameIO (rd_end r)))"
  using assms
proof (induction fs arbitrary: n r)
  case Nil
  then show ?case
    by (cases n) (auto simp: frames_bytes_def ReadFrame_def ReadFull_def headerSize_def)
next
  case (Cons f fs)
  obtain t p where f: "f = (t, p)" by (cases f)
  obtain m where n: "n = Suc m" using Cons.prems(2) by (cases n) auto
  have "ReadFrame r = (Inr (t, p), r\<lparr>rd_buf := frames_bytes fs\<rparr>)"
    using Cons.prems f by (intro ReadFrame_frame_bytes) (simp_all add: frames_bytes_def)
  with Cons n f show ?case by simp
qed

lemma ReadFrames_fuel:
  "length (rd_buf r) < n \<Longrightarrow> snd (ReadFrames n r) \<noteq> None"
proof (induction n arbitrary: r)
  case 0
  then show ?case by simp
next
  case (Suc n)
  show ?case
  proof (cases "ReadFrame r")
    case (Pair res r')
    show ?thesis
    proof (cases res)
      case (Inl e)
      with Pair show ?thesis by simp
    next
      case (Inr f)
      then obtain t p where "res = Inr (t, p)" by (cases f) auto
      with Pair have "rd_buf r = frame_bytes t p @ rd_buf r'"
        using ReadFrame_Inr by blast
      with Suc.prems have "length (rd_buf r') < n" by (simp add: frame_bytes_def)
      from Suc.IH [OF this] Pair Inr show ?thesis by (auto split: prod.splits)
    qed
  qed
qed

text \<open>A stream cut anywhere inside a frame is not taken for a frame.\<close>

lemma ReadFrame_truncated:
  assumes p: "length p < maxFrameSize" and cutoff: "strict_prefix b (frame_bytes t p)"
    and r: "rd_buf r = b" "rd_end r = EOF"
  shows "\<exists>r'. ReadFrame r = (Inl (FrameIO (if b = [] then EOF else
    if length b = headerSize then EOF else UnexpectedEOF)), r')"
proof -
  from cutoff have len: "length b < 5 + length p"
    using prefix_length_less by fastforce
  show ?thesis
  proof (cases "length b < headerSize")
    case True
    then show ?thesis using r by (auto simp: ReadFrame_def ReadFull_def headerSize_def)
  next
    case False
    let ?h = "be_put32 (word_of_nat (1 + length p))"
    have "take 4 b = ?h"
      using False cutoff by (auto simp: strict_prefix_def prefix_def frame_bytes_def headerSize_def append_eq_append_conv2 append_eq_conv_conj)
    then have h: "ReadFull r headerSize = (Inr ?h, r\<lparr>rd_buf := drop 4 b\<rparr>)"
      using False r by (simp add: ReadFull_def headerSize_def)
    have n: "unat (word_of_nat (1 + length p) :: 32 word) = 1 + length p"
      using p by (rule unat_frame_length)
    then have nz: "(word_of_nat (1 + length p) :: 32 word) \<noteq> 0"
      by (metis Suc_eq_plus1_left nat.distinct(1) unsigned_0)
    have "ReadFull (r\<lparr>rd_buf := drop 4 b\<rparr>) (1 + length p) =
        (Inl (if drop 4 b \<noteq> [] then UnexpectedEOF else EOF), r\<lparr>rd_buf := []\<rparr>)"
      using len False r by (auto simp: ReadFull_def headerSize_def)
    with h n nz p False show ?thesis
      by (auto simp: ReadFrame_def Let_def headerSize_def)
  qed
qed

section \<open>Properties\<close>

text \<open>C3: a sequence of frames written to a connection is what the peer reads from it, in order and
  with nothing left over; the read after the last frame reports the end of the stream.\<close>

theorem frame_stream_round_trip:
  assumes "WriteFrames w fs = (w', None)" and "wr_out w = []" and "rd_buf r = wr_out w'"
  shows "ReadFrames (Suc (length fs)) r = (fs, Some (FrameIO (rd_end r)))"
  using WriteFrames_None [OF assms(1)] assms(2,3)
  by (intro ReadFrames_frames_bytes) simp_all

theorem frame_stream_round_trip_witness:
  "ReadFrames 3 \<lparr>rd_buf = [0, 0, 0, 1, 5, 0, 0, 0, 3, 4, 9, 8], rd_end = EOF\<rparr> =
     ([(TypePing, []), (TypeIPPacket, [9, 8])], Some (FrameIO EOF))"
proof -
  have w: "WriteFrames \<lparr>wr_out = [], wr_fail = None\<rparr> [(TypePing, []), (TypeIPPacket, [9, 8])] =
      (\<lparr>wr_out = [0, 0, 0, 1, 5, 0, 0, 0, 3, 4, 9, 8], wr_fail = None\<rparr>, None)"
    by (simp add: WriteFrame_ok frame_bytes_def be_put32_def maxFrameSize_def frame_types)
  show ?thesis
    using frame_stream_round_trip [OF w, of "\<lparr>rd_buf = [0, 0, 0, 1, 5, 0, 0, 0, 3, 4, 9, 8], rd_end = EOF\<rparr>"]
    by (simp add: numeral_3_eq_3)
qed

text \<open>\<open>ReadFrame\<close> delivers a message exactly when the stream starts with its encoding: the
  length prefix, the type and a payload below the size limit; it consumes those bytes and no
  others.\<close>

theorem ReadFrame_exact:
  "ReadFrame r = (Inr (t, p), r') \<longleftrightarrow>
     length p < maxFrameSize \<and> rd_buf r = frame_bytes t p @ rd_buf r' \<and> rd_end r = rd_end r'"
proof
  assume "ReadFrame r = (Inr (t, p), r')"
  from ReadFrame_Inr [OF this]
  show "length p < maxFrameSize \<and> rd_buf r = frame_bytes t p @ rd_buf r' \<and> rd_end r = rd_end r'" by simp
next
  assume "length p < maxFrameSize \<and> rd_buf r = frame_bytes t p @ rd_buf r' \<and> rd_end r = rd_end r'"
  then show "ReadFrame r = (Inr (t, p), r')"
    using ReadFrame_frame_bytes [of p r t "rd_buf r'"] by simp
qed

text \<open>A stream that ends inside a frame never yields a message: the read fails with the end of
  the stream when the cut is before the frame or right after its header, and with an unexpected
  end anywhere else.\<close>

theorem ReadFrame_cut_off:
  assumes "length p < maxFrameSize" and "strict_prefix b (frame_bytes t p)"
    and "rd_buf r = b" and "rd_end r = EOF"
  shows "fst (ReadFrame r) =
    Inl (FrameIO (if b = [] \<or> length b = headerSize then EOF else UnexpectedEOF))"
  using ReadFrame_truncated [OF assms] by auto

theorem ReadFrame_cut_off_witness:
  "fst (ReadFrame \<lparr>rd_buf = [0, 0, 0, 3, 4, 9], rd_end = EOF\<rparr>) = Inl (FrameIO UnexpectedEOF)"
  using ReadFrame_cut_off [of "[9, 8]" "[0, 0, 0, 3, 4, 9]" 4 "\<lparr>rd_buf = [0, 0, 0, 3, 4, 9], rd_end = EOF\<rparr>"]
  by (simp add: maxFrameSize_def headerSize_def frame_bytes_def be_put32_def strict_prefix_def prefix_def)

end
