(* ===== verification/Sha256.thy ===== *)
theory Sha256
  imports Prelude
begin

unbundle bit_operations_syntax

text \<open>
  Go's \<open>crypto/sha256\<close>: \<open>Sum256\<close> on 32-bit words, as FIPS 180-4 defines it. The tokens are
  stored by this hash; the proofs never unfold it.
\<close>

text \<open>The first 32 bits of the fractional parts of the cube roots of the first 64 primes.\<close>

definition sha_K :: "32 word list" where
  "sha_K =
     [1116352408, 1899447441, 3049323471, 3921009573, 961987163, 1508970993, 2453635748, 2870763221,
      3624381080, 310598401, 607225278, 1426881987, 1925078388, 2162078206, 2614888103, 3248222580,
      3835390401, 4022224774, 264347078, 604807628, 770255983, 1249150122, 1555081692, 1996064986,
      2554220882, 2821834349, 2952996808, 3210313671, 3336571891, 3584528711, 113926993, 338241895,
      666307205, 773529912, 1294757372, 1396182291, 1695183700, 1986661051, 2177026350, 2456956037,
      2730485921, 2820302411, 3259730800, 3345764771, 3516065817, 3600352804, 4094571909, 275423344,
      430227734, 506948616, 659060556, 883997877, 958139571, 1322822218, 1537002063, 1747873779,
      1955562222, 2024104815, 2227730452, 2361852424, 2428436474, 2756734187, 3204031479, 3329325298]"

definition sha_H0 :: "32 word list" where
  "sha_H0 =
     [0x6a09e667, 0xbb67ae85, 0x3c6ef372, 0xa54ff53a, 0x510e527f, 0x9b05688c,
      0x1f83d9ab, 0x5be0cd19]"

definition rotr :: "nat \<Rightarrow> 32 word \<Rightarrow> 32 word" where
  "rotr n x = drop_bit n x OR push_bit (32 - n) x"

text \<open>The message schedule, oldest word first.\<close>

definition schedule_next :: "32 word list \<Rightarrow> nat \<Rightarrow> 32 word" where
  "schedule_next w t =
     (let a = w ! (t - 15); b = w ! (t - 2);
          s0 = rotr 7 a XOR rotr 18 a XOR drop_bit 3 a;
          s1 = rotr 17 b XOR rotr 19 b XOR drop_bit 10 b
      in w ! (t - 16) + s0 + w ! (t - 7) + s1)"

definition schedule :: "32 word list \<Rightarrow> 32 word list" where
  "schedule m = foldl (\<lambda>w t. w @ [schedule_next w t]) m [16..<64]"

fun sha_round :: "32 word list \<Rightarrow> 32 word \<times> 32 word \<Rightarrow> 32 word list" where
  "sha_round [a, b, c, d, e, f, g, h] (k, w) =
     (let s1 = rotr 6 e XOR rotr 11 e XOR rotr 25 e;
          ch = (e AND f) XOR (NOT e AND g);
          t1 = h + s1 + ch + k + w;
          s0 = rotr 2 a XOR rotr 13 a XOR rotr 22 a;
          maj = (a AND b) XOR (a AND c) XOR (b AND c)
      in [t1 + s0 + maj, a, b, c, d + t1, e, f, g])"
| "sha_round st kw = st"

definition sha_block :: "32 word list \<Rightarrow> 32 word list \<Rightarrow> 32 word list" where
  "sha_block hs m = map2 (+) hs (foldl sha_round hs (zip sha_K (schedule m)))"

fun be_words :: "nat \<Rightarrow> bytes \<Rightarrow> 32 word list" where
  "be_words 0 b = []"
| "be_words (Suc n) b = be_get32 (take 4 b) # be_words n (drop 4 b)"

text \<open>Padding to whole blocks of 64 bytes: \<open>0x80\<close>, zeros, the length in bits.\<close>

definition sha_pad :: "bytes \<Rightarrow> bytes" where
  "sha_pad b =
     (let n = length b; bits = word_of_nat (8 * n) :: 64 word
      in b @ [0x80] @ replicate ((55 + 64 - n mod 64) mod 64) 0 @
         be_put32 (ucast (drop_bit 32 bits)) @ be_put32 (ucast bits))"

fun sha_blocks :: "nat \<Rightarrow> 32 word list \<Rightarrow> bytes \<Rightarrow> 32 word list" where
  "sha_blocks 0 hs b = hs"
| "sha_blocks (Suc n) hs b = sha_blocks n (sha_block hs (be_words 16 (take 64 b))) (drop 64 b)"

definition Sum256 :: "bytes \<Rightarrow> bytes" where
  "Sum256 b =
     (let p = sha_pad b in concat (map be_put32 (sha_blocks (length p div 64) sha_H0 p)))"

lemma length_sha_round [simp]: "length (sha_round st kw) = length st"
  by (cases "(st, kw)" rule: sha_round.cases) (simp_all add: Let_def)

lemma length_sha_rounds [simp]: "length (foldl sha_round st kws) = length st"
  by (induction kws arbitrary: st) simp_all

lemma length_sha_block [simp]: "length (sha_block hs m) = length hs"
  by (simp add: sha_block_def)

lemma length_sha_blocks [simp]: "length (sha_blocks n hs b) = length hs"
  by (induction n hs b rule: sha_blocks.induct) simp_all

text \<open>The padded message is whole blocks, and the digest has 32 bytes.\<close>

lemma sha_pad_blocks: "length (sha_pad b) mod 64 = 0"
proof -
  have "(n + 9 + (119 - n mod 64) mod 64) mod 64 = 0" for n :: nat
  proof -
    obtain q r where n: "n = 64 * q + r" and r: "r < 64"
      using mult_div_mod_eq [of 64 n] by (metis mod_less_divisor zero_less_numeral)
    have m: "n mod 64 = r" using n r by simp
    have "(119 - r) mod 64 = (if r < 56 then 55 - r else 119 - r)"
    proof (cases "r < 56")
      case True
      then have "119 - r = 64 + (55 - r)" by simp
      with True show ?thesis by (simp only: mod_add_self1) simp
    qed simp
    then have "n + 9 + (119 - n mod 64) mod 64 = 64 * (if r < 56 then q + 1 else q + 2)"
      using r unfolding m by (auto simp: n)
    then show ?thesis by (metis mod_mult_self1_is_0)
  qed
  from this [of "length b"] show ?thesis by (simp add: sha_pad_def Let_def add_ac)
qed

lemma length_Sum256 [simp]: "length (Sum256 b) = 32"
  by (simp add: Sum256_def Let_def length_concat comp_def sha_H0_def sum_list_triv)

end
