(* ===== verification/Tokens.thy ===== *)
theory Tokens
  imports GoStrings Sha256
begin

text \<open>
  \<open>internal/auth/token.go\<close>: the token manager. A \<open>manager\<close> is the token slice and the path of
  its file; the file system, the clock (\<open>now\<close>) and the outcome of \<open>rand.Read\<close> are arguments.
  \<open>gopkg.in/yaml.v3\<close> is not part of the repository: the two functions the code calls,
  \<open>marshal\<close> and \<open>unmarshal\<close> of the tokens file, are parameters, and \<open>yaml_ok\<close> is what the
  persistence lemmas use of them (what \<open>Marshal\<close> writes, \<open>Unmarshal\<close> reads back). Each
  operation runs under the manager's mutex and is one step here.
\<close>

section \<open>State\<close>

record token =
  tok_Name :: string
  tok_Hash :: string
  tok_CreatedAt :: instant
  tok_ExpiresAt :: "instant option"
  tok_OneTime :: bool
  tok_Used :: bool

record manager =
  tm_tokens :: "token list"
  tm_filePath :: string

datatype token_error =
    TokenAlreadyUsed
  | TokenExpired
  | InvalidToken
  | TokenNotFound string
  | RandError string
  | YamlError string
  | FileError os_error

type_synonym marshaller = "token list \<Rightarrow> string + string"
type_synonym unmarshaller = "string \<Rightarrow> string + token list"

definition yaml_ok :: "marshaller \<Rightarrow> unmarshaller \<Rightarrow> bool" where
  "yaml_ok marshal unmarshal \<longleftrightarrow> (\<forall>ts d. marshal ts = Inr d \<longrightarrow> unmarshal d = Inr ts)"

section \<open>Operations\<close>

definition hashToken :: "string \<Rightarrow> string" where
  "hashToken raw = EncodeToString (Sum256 (bytes_of_string raw))"

definition load_tokens :: "unmarshaller \<Rightarrow> filesys \<Rightarrow> manager \<Rightarrow> token_error + manager" where
  "load_tokens unmarshal fs m =
     (case ReadFile fs (tm_filePath m) of
        Inl e \<Rightarrow> Inl (FileError e)
      | Inr d \<Rightarrow>
          (case unmarshal d of
             Inl e \<Rightarrow> Inl (YamlError e)
           | Inr ts \<Rightarrow> Inr (m\<lparr>tm_tokens := ts\<rparr>)))"

definition NewManager :: "unmarshaller \<Rightarrow> filesys \<Rightarrow> string \<Rightarrow> token_error + manager" where
  "NewManager unmarshal fs path =
     (let m = \<lparr>tm_tokens = [], tm_filePath = path\<rparr>
      in case load_tokens unmarshal fs m of
           Inl (FileError ErrNotExist) \<Rightarrow> Inr m
         | r \<Rightarrow> r)"

definition save_tokens :: "marshaller \<Rightarrow> filesys \<Rightarrow> manager \<Rightarrow> filesys \<times> token_error option" where
  "save_tokens marshal fs m =
     (case MkdirAll fs (path_Dir (tm_filePath m)) of
        Some e \<Rightarrow> (fs, Some (FileError e))
      | None \<Rightarrow>
          (case marshal (tm_tokens m) of
             Inl e \<Rightarrow> (fs, Some (YamlError e))
           | Inr d \<Rightarrow>
               (let (fs', e) = WriteFile fs (tm_filePath m) d in (fs', map_option FileError e))))"

text \<open>\<open>rnd\<close> is what \<open>rand.Read\<close> delivers: an error, or the 16 bytes asked for.\<close>

definition Generate :: "(string + bytes) \<Rightarrow> token_error + string" where
  "Generate rnd = (case rnd of Inl e \<Rightarrow> Inl (RandError e) | Inr b \<Rightarrow> Inr (EncodeToString b))"

text \<open>\<open>Add\<close> returns the raw token together with the error of the save, as the code does.\<close>

definition Add_token ::
    "marshaller \<Rightarrow> filesys \<Rightarrow> instant \<Rightarrow> (string + bytes) \<Rightarrow> manager \<Rightarrow> string \<Rightarrow> instant option \<Rightarrow>
     bool \<Rightarrow> manager \<times> filesys \<times> string \<times> token_error option" where
  "Add_token marshal fs now rnd m name expiresAt oneTime =
     (case Generate rnd of
        Inl e \<Rightarrow> (m, fs, [], Some e)
      | Inr raw \<Rightarrow>
          let t = \<lparr>tok_Name = name, tok_Hash = hashToken raw, tok_CreatedAt = now,
                   tok_ExpiresAt = expiresAt, tok_OneTime = oneTime, tok_Used = False\<rparr>;
              m' = m\<lparr>tm_tokens := tm_tokens m @ [t]\<rparr>;
              (fs', e) = save_tokens marshal fs m'
          in (m', fs', raw, e))"

definition expired :: "instant \<Rightarrow> token \<Rightarrow> bool" where
  "expired now t = (case tok_ExpiresAt t of None \<Rightarrow> False | Some e \<Rightarrow> e < now)"

text \<open>The loop of \<open>Validate\<close>: its result and the tokens after it.\<close>

fun validate_loop :: "string \<Rightarrow> instant \<Rightarrow> token list \<Rightarrow> (token_error + token) \<times> token list" where
  "validate_loop h now [] = (Inl InvalidToken, [])"
| "validate_loop h now (t # ts) =
     (if tok_Hash t \<noteq> h then
        (let (r, ts') = validate_loop h now ts in (r, t # ts'))
      else if tok_OneTime t \<and> tok_Used t then (Inl TokenAlreadyUsed, t # ts)
      else if expired now t then (Inl TokenExpired, t # ts)
      else if tok_OneTime t then (Inr (t\<lparr>tok_Used := True\<rparr>), t\<lparr>tok_Used := True\<rparr> # ts)
      else (Inr t, t # ts))"

definition Validate ::
    "marshaller \<Rightarrow> filesys \<Rightarrow> instant \<Rightarrow> manager \<Rightarrow> string \<Rightarrow>
     (token_error + token) \<times> manager \<times> filesys" where
  "Validate marshal fs now m raw =
     (let (r, ts) = validate_loop (hashToken raw) now (tm_tokens m);
          m' = m\<lparr>tm_tokens := ts\<rparr>
      in case r of
           Inr t \<Rightarrow> if tok_OneTime t then (r, m', fst (save_tokens marshal fs m')) else (r, m', fs)
         | Inl e \<Rightarrow> (r, m', fs))"

definition Revoke ::
    "marshaller \<Rightarrow> filesys \<Rightarrow> manager \<Rightarrow> string \<Rightarrow> manager \<times> filesys \<times> token_error option" where
  "Revoke marshal fs m name =
     (case remove_first (\<lambda>t. tok_Name t = name) (tm_tokens m) of
        None \<Rightarrow> (m, fs, Some (TokenNotFound name))
      | Some ts \<Rightarrow>
          let m' = m\<lparr>tm_tokens := ts\<rparr>; (fs', e) = save_tokens marshal fs m'
          in (m', fs', e))"

definition List_tokens :: "manager \<Rightarrow> token list" where
  "List_tokens m = tm_tokens m"

text \<open>The messages \<open>Validate\<close> fails with; they are sent to the client.\<close>

fun validate_message :: "token_error \<Rightarrow> string" where
  "validate_message TokenAlreadyUsed = ''token already used''"
| "validate_message TokenExpired = ''token expired''"
| "validate_message _ = ''invalid token''"

section \<open>One validation\<close>

text \<open>The first token of a hash decides; nothing but its \<open>Used\<close> flag ever changes.\<close>

lemma validate_loop_miss:
  "\<forall>t\<in>set ts. tok_Hash t \<noteq> h \<Longrightarrow> validate_loop h now ts = (Inl InvalidToken, ts)"
  by (induction ts) auto

lemma validate_loop_hit:
  "\<forall>u\<in>set us. tok_Hash u \<noteq> h \<Longrightarrow> tok_Hash t = h \<Longrightarrow>
     validate_loop h now (us @ t # vs) =
       (let (r, ts) = validate_loop h now [t] in (r, us @ ts @ vs))"
  by (induction us) auto

lemma validate_loop_length: "length (snd (validate_loop h now ts)) = length ts"
  by (induction ts) (auto simp: Let_def split: prod.splits)

lemma validate_loop_hashes:
  "map tok_Hash (snd (validate_loop h now ts)) = map tok_Hash ts"
  by (induction ts) (auto simp: Let_def split: prod.splits)

lemma validate_loop_names:
  "map tok_Name (snd (validate_loop h now ts)) = map tok_Name ts"
  by (induction ts) (auto simp: Let_def split: prod.splits)

lemma validate_loop_Inr:
  assumes "validate_loop h now ts = (Inr t, ts')"
  shows "\<exists>us u vs. ts = us @ u # vs \<and> ts' = us @ t # vs \<and> tok_Hash u = h \<and>
    (\<forall>x\<in>set us. tok_Hash x \<noteq> h) \<and> \<not> (tok_OneTime u \<and> tok_Used u) \<and> \<not> expired now u \<and>
    t = (if tok_OneTime u then u\<lparr>tok_Used := True\<rparr> else u)"
  using assms
proof (induction ts arbitrary: ts')
  case Nil
  then show ?case by simp
next
  case (Cons a ts)
  show ?case
  proof (cases "tok_Hash a = h")
    case True
    have "ts' = t # ts" "t = (if tok_OneTime a then a\<lparr>tok_Used := True\<rparr> else a)"
      "\<not> (tok_OneTime a \<and> tok_Used a)" "\<not> expired now a"
      using Cons.prems True by (auto split: if_splits)
    then have "a # ts = [] @ a # ts" "ts' = [] @ t # ts" "\<not> (tok_OneTime a \<and> tok_Used a)"
      "\<not> expired now a" "t = (if tok_OneTime a then a\<lparr>tok_Used := True\<rparr> else a)"
      by simp_all
    with True show ?thesis by (metis empty_iff list.set(1))
  next
    case False
    with Cons.prems obtain vs where vs: "validate_loop h now ts = (Inr t, vs)" "ts' = a # vs"
      by (auto split: prod.splits)
    from Cons.IH [OF vs(1)] obtain us u ws where
      "ts = us @ u # ws" "vs = us @ t # ws" "tok_Hash u = h" "\<forall>x\<in>set us. tok_Hash x \<noteq> h"
      "\<not> (tok_OneTime u \<and> tok_Used u)" "\<not> expired now u"
      "t = (if tok_OneTime u then u\<lparr>tok_Used := True\<rparr> else u)"
      by blast
    with False vs(2) have "a # ts = (a # us) @ u # ws" "ts' = (a # us) @ t # ws"
      "\<forall>x\<in>set (a # us). tok_Hash x \<noteq> h" "tok_Hash u = h" "\<not> (tok_OneTime u \<and> tok_Used u)"
      "\<not> expired now u" "t = (if tok_OneTime u then u\<lparr>tok_Used := True\<rparr> else u)"
      by simp_all
    then show ?thesis by blast
  qed
qed

lemma validate_loop_Inl: "validate_loop h now ts = (Inl e, ts') \<Longrightarrow> ts' = ts"
  by (induction ts arbitrary: ts') (auto split: if_splits prod.splits)

lemma Validate_tokens:
  "Validate marshal fs now m raw = (r, m', fs') \<Longrightarrow>
     validate_loop (hashToken raw) now (tm_tokens m) = (r, tm_tokens m') \<and>
     tm_filePath m' = tm_filePath m"
  by (auto simp: Validate_def Let_def split: prod.splits sum.splits if_splits)

section \<open>Spent tokens\<close>

text \<open>A hash is spent when every token that has it is one-time and used.\<close>

definition spent :: "string \<Rightarrow> token list \<Rightarrow> bool" where
  "spent h ts \<longleftrightarrow> (\<forall>t\<in>set ts. tok_Hash t = h \<longrightarrow> tok_OneTime t \<and> tok_Used t)"

lemma validate_spent:
  "spent h ts \<Longrightarrow> validate_loop h now ts = (r, ts') \<Longrightarrow> ts' = ts \<and> (\<exists>e. r = Inl e)"
  by (induction ts arbitrary: ts') (auto simp: spent_def split: if_splits prod.splits)

lemma validate_keeps_spent:
  assumes "spent h ts" and "validate_loop h' now ts = (r, ts')"
  shows "spent h ts'"
proof (cases r)
  case (Inl e)
  with assms validate_loop_Inl show ?thesis by blast
next
  case (Inr t)
  from validate_loop_Inr [OF assms(2) [unfolded Inr]] obtain us u vs where
    "ts = us @ u # vs" "ts' = us @ t # vs" "t = (if tok_OneTime u then u\<lparr>tok_Used := True\<rparr> else u)"
    by blast
  with assms(1) show ?thesis by (auto simp: spent_def)
qed

lemma validate_one_time_spends:
  assumes "validate_loop h now ts = (Inr t, ts')" and "tok_OneTime t"
    and "distinct (map tok_Hash ts)"
  shows "spent h ts'"
proof -
  from validate_loop_Inr [OF assms(1)] obtain us u vs where s: "ts = us @ u # vs"
    "ts' = us @ t # vs" "tok_Hash u = h" "t = (if tok_OneTime u then u\<lparr>tok_Used := True\<rparr> else u)"
    by blast
  have "\<forall>x\<in>set us \<union> set vs. tok_Hash x \<noteq> h"
    using assms(3) s(1,3) by (auto simp: image_iff)
  with assms(2) s show ?thesis by (auto simp: spent_def split: if_splits)
qed

lemma revoke_keeps_spent:
  "spent h ts \<Longrightarrow> remove_first p ts = Some ts' \<Longrightarrow> spent h ts'"
  by (auto simp: spent_def dest!: remove_first_subset)

section \<open>Sequences of operations\<close>

text \<open>What can happen to a manager, with what the environment supplies to each operation.\<close>

datatype token_op =
    OpAdd instant "string + bytes" string "instant option" bool
  | OpValidate instant string
  | OpRevoke string

text \<open>One step; the last component is the hash and the token of a successful validation.\<close>

fun token_step ::
    "marshaller \<Rightarrow> token_op \<Rightarrow> manager \<times> filesys \<Rightarrow> (manager \<times> filesys) \<times> (string \<times> token) option"
where
  "token_step marshal (OpAdd now rnd name expiry one) (m, fs) =
     (let (m', fs', raw, e) = Add_token marshal fs now rnd m name expiry one in ((m', fs'), None))"
| "token_step marshal (OpValidate now raw) (m, fs) =
     (let (r, m', fs') = Validate marshal fs now m raw
      in ((m', fs'), case r of Inl e \<Rightarrow> None | Inr t \<Rightarrow> Some (hashToken raw, t)))"
| "token_step marshal (OpRevoke name) (m, fs) =
     (let (m', fs', e) = Revoke marshal fs m name in ((m', fs'), None))"

fun token_run ::
    "marshaller \<Rightarrow> token_op list \<Rightarrow> manager \<times> filesys \<Rightarrow> (string \<times> token) list" where
  "token_run marshal [] s = []"
| "token_run marshal (op # ops) s =
     (let (s', g) = token_step marshal op s
      in (case g of None \<Rightarrow> [] | Some x \<Rightarrow> [x]) @ token_run marshal ops s')"

text \<open>The hashes an operation may add.\<close>

fun adds_hash :: "token_op \<Rightarrow> string option" where
  "adds_hash (OpAdd now rnd name expiry one) =
     (case Generate rnd of Inl e \<Rightarrow> None | Inr raw \<Rightarrow> Some (hashToken raw))"
| "adds_hash _ = None"

lemma token_step_spent:
  assumes "spent h (tm_tokens m)" and "adds_hash op \<noteq> Some h"
    and "token_step marshal op (m, fs) = ((m', fs'), g)"
  shows "spent h (tm_tokens m') \<and> (\<forall>t. g \<noteq> Some (h, t))"
proof (cases op)
  case (OpAdd now rnd name expiry one)
  with assms show ?thesis
    by (auto simp: Add_token_def Let_def spent_def split: sum.splits prod.splits)
next
  case (OpValidate now raw)
  with assms obtain r where v: "Validate marshal fs now m raw = (r, m', fs')"
    and g: "g = (case r of Inl e \<Rightarrow> None | Inr t \<Rightarrow> Some (hashToken raw, t))"
    by (auto split: prod.splits)
  note l = Validate_tokens [OF v, THEN conjunct1]
  have "g \<noteq> Some (h, t)" for t
  proof
    assume "g = Some (h, t)"
    with g have "r = Inr t" "hashToken raw = h" by (auto split: sum.splits)
    with validate_spent [OF assms(1)] l show False by blast
  qed
  with validate_keeps_spent [OF assms(1) l] show ?thesis by blast
next
  case (OpRevoke name)
  with assms show ?thesis
    by (auto simp: Revoke_def Let_def split: option.splits prod.splits dest: revoke_keeps_spent)
qed

lemma token_run_spent:
  assumes "spent h (tm_tokens (fst s))" and "\<forall>op\<in>set ops. adds_hash op \<noteq> Some h"
  shows "\<forall>x\<in>set (token_run marshal ops s). fst x \<noteq> h"
  using assms
proof (induction ops arbitrary: s)
  case Nil
  then show ?case by simp
next
  case (Cons op ops)
  obtain m fs where s: "s = (m, fs)" by (cases s)
  obtain m' fs' g where st: "token_step marshal op (m, fs) = ((m', fs'), g)"
    by (metis prod.exhaust)
  have *: "spent h (tm_tokens m') \<and> (\<forall>t. g \<noteq> Some (h, t))"
    using Cons.prems s by (intro token_step_spent [OF _ _ st]) auto
  with Cons.IH [of "(m', fs')"] Cons.prems st s show ?case by (auto split: option.splits)
qed

section \<open>Distinct hashes\<close>

definition tokens_wf :: "token list \<Rightarrow> bool" where
  "tokens_wf ts \<longleftrightarrow> distinct (map tok_Hash ts)"

lemma tokens_wf_Validate [inv_intros]:
  assumes "tokens_wf (tm_tokens m)" and "Validate marshal fs now m raw = (r, m', fs')"
  shows "tokens_wf (tm_tokens m')"
  using assms Validate_tokens [OF assms(2)] validate_loop_hashes [of "hashToken raw" now "tm_tokens m"]
  by (simp add: tokens_wf_def)

lemma tokens_wf_Revoke [inv_intros]:
  assumes "tokens_wf (tm_tokens m)" and "Revoke marshal fs m name = (m', fs', e)"
  shows "tokens_wf (tm_tokens m')"
  using assms
  by (auto simp: tokens_wf_def Revoke_def Let_def split: option.splits prod.splits
      dest!: remove_first_SomeD)

lemma tokens_wf_Add [inv_intros]:
  assumes "tokens_wf (tm_tokens m)"
    and "Add_token marshal fs now rnd m name expiry one = (m', fs', raw, e)"
    and "\<forall>r. Generate rnd = Inr r \<longrightarrow> hashToken r \<notin> tok_Hash ` set (tm_tokens m)"
  shows "tokens_wf (tm_tokens m')"
  using assms by (auto simp: tokens_wf_def Add_token_def Let_def split: sum.splits prod.splits)

section \<open>The file\<close>

lemma save_tokens_None:
  assumes "save_tokens marshal fs m = (fs', None)"
  shows "\<exists>d. marshal (tm_tokens m) = Inr d \<and> WriteFile fs (tm_filePath m) d = (fs', None)"
  using assms by (auto simp: save_tokens_def split: option.splits sum.splits prod.splits)

lemma NewManager_saved:
  assumes "yaml_ok marshal unmarshal" and "save_tokens marshal fs m = (fs', None)"
    and "read_fails fs (tm_filePath m) = None"
  shows "NewManager unmarshal fs' (tm_filePath m) = Inr m"
proof -
  obtain d where d: "marshal (tm_tokens m) = Inr d" "WriteFile fs (tm_filePath m) d = (fs', None)"
    using save_tokens_None [OF assms(2)] by blast
  from d(1) assms(1) have "unmarshal d = Inr (tm_tokens m)" by (simp add: yaml_ok_def)
  moreover have "ReadFile fs' (tm_filePath m) = Inr d"
    using d(2) assms(3) by (rule ReadFile_WriteFile)
  ultimately show ?thesis by (simp add: NewManager_def load_tokens_def)
qed

lemma Validate_result:
  "fst (Validate marshal fs now m raw) = fst (validate_loop (hashToken raw) now (tm_tokens m))"
  by (auto simp: Validate_def Let_def split: prod.splits sum.splits)

lemma validate_loop_decides:
  "fst (validate_loop h now ts) =
     (case find (\<lambda>t. tok_Hash t = h) ts of
        None \<Rightarrow> Inl InvalidToken
      | Some t \<Rightarrow>
          if tok_OneTime t \<and> tok_Used t then Inl TokenAlreadyUsed
          else if expired now t then Inl TokenExpired
          else Inr (t\<lparr>tok_Used := tok_OneTime t \<or> tok_Used t\<rparr>))"
  by (induction ts) (auto split: prod.splits)

section \<open>Single tokens\<close>

text \<open>A hash is single when at most one token has it, and that one is one-time.\<close>

definition single :: "string \<Rightarrow> token list \<Rightarrow> bool" where
  "single h ts \<longleftrightarrow>
     (\<forall>t\<in>set ts. tok_Hash t = h \<longrightarrow> tok_OneTime t) \<and> length (filter (\<lambda>t. tok_Hash t = h) ts) \<le> 1"

lemma single_if_wf:
  assumes "tokens_wf ts" and "\<forall>t\<in>set ts. tok_Hash t = h \<longrightarrow> tok_OneTime t"
  shows "single h ts"
proof -
  have "filter (\<lambda>t. tok_Hash t = h) ts = [] \<or> (\<exists>t. filter (\<lambda>t. tok_Hash t = h) ts = [t])"
    using assms(1) unfolding tokens_wf_def
    by (induction ts) (auto simp: filter_empty_conv image_iff)
  with assms(2) show ?thesis by (auto simp: single_def)
qed

lemma single_validate:
  assumes "single h ts" and "validate_loop k now ts = (r, ts')"
  shows "single h ts' \<and> (\<forall>t. k = h \<longrightarrow> r = Inr t \<longrightarrow> spent h ts')"
proof (cases r)
  case (Inl e)
  with assms validate_loop_Inl show ?thesis by blast
next
  case (Inr t)
  from validate_loop_Inr [OF assms(2) [unfolded Inr]] obtain us u vs where s: "ts = us @ u # vs"
    "ts' = us @ t # vs" "tok_Hash u = k" "t = (if tok_OneTime u then u\<lparr>tok_Used := True\<rparr> else u)"
    by blast
  have "spent h ts'" if "k = h"
    using assms(1) s that by (auto simp: single_def spent_def filter_empty_conv)
  with assms(1) s show ?thesis by (auto simp: single_def)
qed

lemma single_remove:
  assumes "single h ts" and "remove_first p ts = Some ts'"
  shows "single h ts'"
proof -
  obtain us t vs where "ts = us @ t # vs" "ts' = us @ vs"
    using remove_first_SomeD [OF assms(2)] by blast
  with assms(1) show ?thesis by (auto simp: single_def split: if_splits)
qed

lemma token_step_single:
  assumes "single h (tm_tokens m)" and "adds_hash op \<noteq> Some h"
    and "token_step marshal op (m, fs) = ((m', fs'), g)"
  shows "single h (tm_tokens m') \<and> (\<forall>t. g = Some (h, t) \<longrightarrow> spent h (tm_tokens m'))"
proof (cases op)
  case (OpAdd now rnd name expiry one)
  with assms show ?thesis
    by (auto simp: Add_token_def Let_def single_def split: sum.splits prod.splits)
next
  case (OpValidate now raw)
  with assms(3) obtain r where v: "Validate marshal fs now m raw = (r, m', fs')"
    and g: "g = (case r of Inl e \<Rightarrow> None | Inr t \<Rightarrow> Some (hashToken raw, t))"
    by (auto split: prod.splits)
  from single_validate [OF assms(1) Validate_tokens [OF v, THEN conjunct1]] g
  show ?thesis by (auto split: sum.splits)
next
  case (OpRevoke name)
  with assms show ?thesis
    by (auto simp: Revoke_def Let_def split: option.splits prod.splits dest: single_remove)
qed

lemma token_run_single:
  assumes "single h (tm_tokens (fst s))" and "\<forall>op\<in>set ops. adds_hash op \<noteq> Some h"
  shows "length (filter (\<lambda>x. fst x = h) (token_run marshal ops s)) \<le> 1"
  using assms
proof (induction ops arbitrary: s)
  case Nil
  then show ?case by simp
next
  case (Cons op ops)
  obtain m fs where s: "s = (m, fs)" by (cases s)
  obtain m' fs' g where st: "token_step marshal op (m, fs) = ((m', fs'), g)"
    by (metis prod.exhaust)
  have *: "single h (tm_tokens m') \<and> (\<forall>t. g = Some (h, t) \<longrightarrow> spent h (tm_tokens m'))"
    using Cons.prems s by (intro token_step_single [OF _ _ st]) auto
  have none: "filter (\<lambda>x. fst x = h) (token_run marshal ops (m', fs')) = []" if "spent h (tm_tokens m')"
    using token_run_spent [of h "(m', fs')" ops marshal] that Cons.prems by (simp add: filter_empty_conv)
  show ?case
    using Cons.IH [of "(m', fs')"] Cons.prems st s * none by (auto split: option.splits)
qed

lemma added_token_kept:
  assumes "yaml_ok marshal unmarshal"
    and "Add_token marshal fs now (Inr rnd) m name expiry one = (m', fs', raw, None)"
    and "hashToken (EncodeToString rnd) \<notin> tok_Hash ` set (tm_tokens m)"
    and "read_fails fs (tm_filePath m) = None"
    and "\<forall>e. expiry = Some e \<longrightarrow> later \<le> e"
  shows "\<exists>t. NewManager unmarshal fs' (tm_filePath m) = Inr m' \<and>
    fst (Validate marshal fs' later m' raw) = Inr t \<and> tok_Name t = name"
proof -
  define t where "t = \<lparr>tok_Name = name, tok_Hash = hashToken (EncodeToString rnd), tok_CreatedAt = now,
    tok_ExpiresAt = expiry, tok_OneTime = one, tok_Used = False\<rparr>"
  have m': "m' = m\<lparr>tm_tokens := tm_tokens m @ [t]\<rparr>" and raw: "raw = EncodeToString rnd"
    and saved: "save_tokens marshal fs m' = (fs', None)"
    using assms(2) by (auto simp: Add_token_def Generate_def Let_def t_def split: prod.splits)
  have "NewManager unmarshal fs' (tm_filePath m) = Inr m'"
    using NewManager_saved [OF assms(1) saved] assms(4) by (simp add: m')
  moreover have "find (\<lambda>u. tok_Hash u = hashToken raw) (tm_tokens m) = None"
    using assms(3) by (simp add: find_None_iff2 raw) (metis image_eqI)
  then have "find (\<lambda>u. tok_Hash u = hashToken raw) (tm_tokens m') = Some t"
    by (simp add: m' find_append raw t_def)
  then have "\<exists>t'. fst (Validate marshal fs' later m' raw) = Inr t' \<and> tok_Name t' = name"
    using assms(5)
    by (auto simp: Validate_result validate_loop_decides expired_def t_def split: option.splits)
  ultimately show ?thesis by blast
qed

section \<open>Properties\<close>

text \<open>\<open>Validate\<close> decides by the first token that has the hash of the presented string: it
  is refused when there is none, when that one is one-time and used, or when it has expired; a
  one-time token comes back marked as used.\<close>

theorem Validate_decides:
  "fst (Validate marshal fs now m raw) =
     (case find (\<lambda>t. tok_Hash t = hashToken raw) (tm_tokens m) of
        None \<Rightarrow> Inl InvalidToken
      | Some t \<Rightarrow>
          if tok_OneTime t \<and> tok_Used t then Inl TokenAlreadyUsed
          else if expired now t then Inl TokenExpired
          else Inr (t\<lparr>tok_Used := tok_OneTime t \<or> tok_Used t\<rparr>))"
  by (simp add: Validate_result validate_loop_decides)

text \<open>C4: over any sequence of additions, validations and revocations that does not add a token with
  the same hash again, a one-time token is accepted at most once.\<close>

theorem one_time_accepted_once:
  assumes "tokens_wf (tm_tokens m)"
    and "\<forall>t\<in>set (tm_tokens m). tok_Hash t = h \<longrightarrow> tok_OneTime t"
    and "\<forall>op\<in>set ops. adds_hash op \<noteq> Some h"
  shows "length (filter (\<lambda>x. fst x = h) (token_run marshal ops (m, fs))) \<le> 1"
  using token_run_single [of h "(m, fs)" ops marshal] single_if_wf [OF assms(1,2)] assms(3) by simp

theorem one_time_accepted_once_witness:
  "length (filter (\<lambda>x. fst x = hashToken ''k'')
     (token_run (\<lambda>ts. Inr []) [OpValidate 1 ''k'', OpRevoke ''b'', OpValidate 2 ''k'']
        (\<lparr>tm_tokens = [\<lparr>tok_Name = ''a'', tok_Hash = hashToken ''k'', tok_CreatedAt = 0,
             tok_ExpiresAt = None, tok_OneTime = True, tok_Used = False\<rparr>], tm_filePath = ''t''\<rparr>,
         healthy_fs Map.empty))) \<le> 1"
  by (rule one_time_accepted_once) (simp_all add: tokens_wf_def)

text \<open>C21: a token that \<open>Add\<close> has stored survives a restart: the manager that reads the file
  back is the one that wrote it, and it accepts the raw string that \<open>Add\<close> returned until the
  token expires, provided the hash is new and the YAML library reads back what it wrote.\<close>

theorem added_token_survives_restart:
  assumes "yaml_ok marshal unmarshal"
    and "Add_token marshal fs now (Inr rnd) m name expiry one = (m', fs', raw, None)"
    and "hashToken (EncodeToString rnd) \<notin> tok_Hash ` set (tm_tokens m)"
    and "read_fails fs (tm_filePath m) = None"
    and "\<forall>e. expiry = Some e \<longrightarrow> later \<le> e"
  shows "\<exists>t. NewManager unmarshal fs' (tm_filePath m) = Inr m' \<and>
    fst (Validate marshal fs' later m' raw) = Inr t \<and> tok_Name t = name"
  using assms by (rule added_token_kept)

theorem added_token_survives_restart_witness:
  "let t = \<lparr>tok_Name = ''a'', tok_Hash = hashToken ''01'', tok_CreatedAt = 5, tok_ExpiresAt = Some 9,
         tok_OneTime = True, tok_Used = False\<rparr>;
       m = \<lparr>tm_tokens = [t], tm_filePath = ''f''\<rparr>
   in \<exists>u. NewManager (\<lambda>d. Inr [t]) (healthy_fs [''f'' \<mapsto> ''y'']) ''f'' = Inr m \<and>
        fst (Validate (\<lambda>ts. if ts = [t] then Inr ''y'' else Inl []) (healthy_fs [''f'' \<mapsto> ''y'']) 8 m ''01'')
          = Inr u \<and> tok_Name u = ''a''"
proof -
  define t where "t = \<lparr>tok_Name = ''a'', tok_Hash = hashToken ''01'', tok_CreatedAt = 5,
    tok_ExpiresAt = Some 9, tok_OneTime = True, tok_Used = False\<rparr>"
  let ?marshal = "\<lambda>ts. if ts = [t] then Inr ''y'' else Inl []"
  let ?m = "\<lparr>tm_tokens = [], tm_filePath = ''f''\<rparr>" and ?m' = "\<lparr>tm_tokens = [t], tm_filePath = ''f''\<rparr>"
  have y: "yaml_ok ?marshal (\<lambda>d. Inr [t])" by (simp add: yaml_ok_def)
  have h: "EncodeToString [1] = ''01''" by code_simp
  have a: "Add_token ?marshal (healthy_fs Map.empty) 5 (Inr [1]) ?m ''a'' (Some 9) True =
      (?m', healthy_fs [''f'' \<mapsto> ''y''], ''01'', None)"
    by (simp add: Add_token_def Generate_def h save_tokens_def healthy_fs_def MkdirAll_def WriteFile_def
        t_def)
  show ?thesis
    using added_token_survives_restart [OF y a, of 8] by (simp add: healthy_fs_def t_def)
qed

end
