(* ===== verification/RateLimit.thy ===== *)
theory RateLimit
  imports Prelude
begin

text \<open>
  \<open>internal/auth/ratelimit.go\<close>: failures and bans by remote IP. \<open>now\<close> is \<open>time.Now()\<close> at
  each call; \<open>now.Sub(t)\<close> is \<open>time_sub\<close>. \<open>limiter_spec\<close> states, from the history of the
  calls about one address alone, when it is banned; \<open>limiter_agrees\<close> relates it to the maps.
\<close>

section \<open>State and operations\<close>

record limiter =
  rl_attempts :: "string \<rightharpoonup> instant list"
  rl_bans :: "string \<rightharpoonup> instant"
  rl_maxAttempts :: nat
  rl_window :: duration
  rl_banDuration :: duration

definition NewRateLimiter :: limiter where
  "NewRateLimiter =
     \<lparr>rl_attempts = Map.empty, rl_bans = Map.empty, rl_maxAttempts = 5,
      rl_window = minutes 1, rl_banDuration = minutes 1\<rparr>"

definition IsBanned :: "instant \<Rightarrow> limiter \<Rightarrow> string \<Rightarrow> bool \<times> limiter" where
  "IsBanned now r ip =
     (case rl_bans r ip of
        None \<Rightarrow> (False, r)
      | Some until \<Rightarrow>
          if now < until then (True, r)
          else (False, r\<lparr>rl_bans := map_delete ip (rl_bans r)\<rparr>))"

definition attempts_of :: "limiter \<Rightarrow> string \<Rightarrow> instant list" where
  "attempts_of r ip = (case rl_attempts r ip of None \<Rightarrow> [] | Some ts \<Rightarrow> ts)"

definition RecordFailure :: "instant \<Rightarrow> limiter \<Rightarrow> string \<Rightarrow> limiter" where
  "RecordFailure now r ip =
     (let recent = filter (\<lambda>t. time_sub now t < rl_window r) (attempts_of r ip) @ [now];
          r1 = r\<lparr>rl_attempts := (rl_attempts r)(ip \<mapsto> recent)\<rparr>
      in if rl_maxAttempts r \<le> length recent
         then r1\<lparr>rl_bans := (rl_bans r1)(ip \<mapsto> now + rl_banDuration r),
                rl_attempts := map_delete ip (rl_attempts r1)\<rparr>
         else r1)"

definition Reset :: "limiter \<Rightarrow> string \<Rightarrow> limiter" where
  "Reset r ip =
     r\<lparr>rl_attempts := map_delete ip (rl_attempts r), rl_bans := map_delete ip (rl_bans r)\<rparr>"

section \<open>Histories\<close>

datatype limiter_op =
    OpIsBanned instant string
  | OpFailure instant string
  | OpReset string

fun op_ip :: "limiter_op \<Rightarrow> string" where
  "op_ip (OpIsBanned now ip) = ip"
| "op_ip (OpFailure now ip) = ip"
| "op_ip (OpReset ip) = ip"

fun limiter_step :: "limiter \<Rightarrow> limiter_op \<Rightarrow> limiter" where
  "limiter_step r (OpIsBanned now ip) = snd (IsBanned now r ip)"
| "limiter_step r (OpFailure now ip) = RecordFailure now r ip"
| "limiter_step r (OpReset ip) = Reset r ip"

definition limiter_run :: "limiter_op list \<Rightarrow> limiter" where
  "limiter_run ops = foldl limiter_step NewRateLimiter ops"

text \<open>
  The contract for one address: its recent failures and the end of its ban, as a function of
  the operations on that address only.
\<close>

fun spec_step :: "instant list \<times> instant option \<Rightarrow> limiter_op \<Rightarrow> instant list \<times> instant option" where
  "spec_step (fs, ban) (OpIsBanned now ip) =
     (fs, case ban of Some u \<Rightarrow> if now < u then ban else None | None \<Rightarrow> None)"
| "spec_step (fs, ban) (OpFailure now ip) =
     (let recent = filter (\<lambda>t. time_sub now t < minutes 1) fs @ [now]
      in if 5 \<le> length recent then ([], Some (now + minutes 1)) else (recent, ban))"
| "spec_step (fs, ban) (OpReset ip) = ([], None)"

definition limiter_spec :: "limiter_op list \<Rightarrow> string \<Rightarrow> instant list \<times> instant option" where
  "limiter_spec ops ip = foldl spec_step ([], None) (filter (\<lambda>op. op_ip op = ip) ops)"

definition standard :: "limiter \<Rightarrow> bool" where
  "standard r \<longleftrightarrow> rl_maxAttempts r = 5 \<and> rl_window r = minutes 1 \<and> rl_banDuration r = minutes 1"

definition limiter_agrees :: "limiter \<Rightarrow> string \<Rightarrow> instant list \<times> instant option \<Rightarrow> bool" where
  "limiter_agrees r ip s \<longleftrightarrow> attempts_of r ip = fst s \<and> rl_bans r ip = snd s"

lemma standard_new [simp, intro]: "standard NewRateLimiter"
  by (simp add: standard_def NewRateLimiter_def)

lemma standard_step [inv_intros]: "standard r \<Longrightarrow> standard (limiter_step r op)"
  by (cases op) (auto simp: standard_def IsBanned_def RecordFailure_def Reset_def Let_def
      split: option.splits)

lemma step_other:
  "op_ip op \<noteq> ip \<Longrightarrow> limiter_agrees r ip s \<Longrightarrow> limiter_agrees (limiter_step r op) ip s"
  by (cases op) (auto simp: limiter_agrees_def attempts_of_def IsBanned_def RecordFailure_def
      Reset_def Let_def split: option.splits)

lemma step_same:
  assumes "op_ip op = ip" and "standard r" and "limiter_agrees r ip s"
  shows "limiter_agrees (limiter_step r op) ip (spec_step s op)"
proof -
  obtain fs ban where s: "s = (fs, ban)" by (cases s)
  with assms have a: "attempts_of r ip = fs" "rl_bans r ip = ban"
    by (simp_all add: limiter_agrees_def)
  show ?thesis
  proof (cases op)
    case (OpIsBanned now ip')
    with assms a s show ?thesis
      by (auto simp: limiter_agrees_def attempts_of_def IsBanned_def split: option.splits)
  next
    case (OpFailure now ip')
    with assms a s show ?thesis
      by (simp add: limiter_agrees_def RecordFailure_def Let_def standard_def attempts_of_def)
  next
    case (OpReset ip')
    with assms a s show ?thesis
      by (simp add: limiter_agrees_def attempts_of_def Reset_def)
  qed
qed

lemma limiter_run_agrees:
  "standard (limiter_run ops) \<and> limiter_agrees (limiter_run ops) ip (limiter_spec ops ip)"
proof (induction ops rule: rev_induct)
  case Nil
  show ?case
    by (simp add: limiter_run_def limiter_spec_def limiter_agrees_def attempts_of_def NewRateLimiter_def
        standard_def)
next
  case (snoc op ops)
  then have st: "standard (limiter_run ops)"
    and ag: "limiter_agrees (limiter_run ops) ip (limiter_spec ops ip)" by auto
  have run: "limiter_run (ops @ [op]) = limiter_step (limiter_run ops) op"
    by (simp add: limiter_run_def)
  show ?case
  proof (cases "op_ip op = ip")
    case True
    then have "limiter_spec (ops @ [op]) ip = spec_step (limiter_spec ops ip) op"
      by (simp add: limiter_spec_def)
    with step_same [OF True st ag] standard_step [OF st] show ?thesis by (simp add: run)
  next
    case False
    then have "limiter_spec (ops @ [op]) ip = limiter_spec ops ip"
      by (simp add: limiter_spec_def)
    with step_other [OF False ag] standard_step [OF st] show ?thesis by (simp add: run)
  qed
qed

section \<open>Bans\<close>

lemma IsBanned_iff: "fst (IsBanned now r ip) \<longleftrightarrow> (\<exists>u. rl_bans r ip = Some u \<and> now < u)"
  by (auto simp: IsBanned_def split: option.splits)

lemma IsBanned_run:
  "fst (IsBanned now (limiter_run ops) ip) \<longleftrightarrow>
     (\<exists>u. snd (limiter_spec ops ip) = Some u \<and> now < u)"
  using limiter_run_agrees [of ops ip] by (simp add: IsBanned_iff limiter_agrees_def)

definition failures_at :: "string \<Rightarrow> instant list \<Rightarrow> limiter_op list" where
  "failures_at ip ts = map (\<lambda>t. OpFailure t ip) ts"

text \<open>The recorded failures lie in the past minute and never reach five.\<close>

lemma spec_failures_bound: "length (fst (limiter_spec ops ip)) < 5"
proof -
  have "length (fst (foldl spec_step s os)) < 5" if "length (fst s) < 5" for s os
    using that
  proof (induction os arbitrary: s)
    case Nil
    then show ?case by simp
  next
    case (Cons op os)
    obtain fs ban where s: "s = (fs, ban)" by (cases s)
    have "length (fst (spec_step s op)) < 5"
      using Cons.prems s by (cases op) (simp_all add: Let_def)
    with Cons.IH show ?case by simp
  qed
  then show ?thesis by (simp add: limiter_spec_def)
qed

text \<open>Fewer than five failures since the start or the last reset never ban.\<close>

fun failure_count :: "limiter_op list \<Rightarrow> nat" where
  "failure_count [] = 0"
| "failure_count (OpFailure now ip # ops) = Suc (failure_count ops)"
| "failure_count (op # ops) = failure_count ops"

lemma spec_few_failures:
  "length fs + failure_count os < 5 \<Longrightarrow>
     length (fst (foldl spec_step (fs, None) os)) \<le> length fs + failure_count os \<and>
     snd (foldl spec_step (fs, None) os) = None"
proof (induction os arbitrary: fs)
  case Nil
  then show ?case by simp
next
  case (Cons op os)
  show ?case
  proof (cases op)
    case (OpIsBanned now ip)
    with Cons show ?thesis by simp
  next
    case (OpFailure now ip)
    let ?f = "filter (\<lambda>t. time_sub now t < minutes 1) fs"
    have le: "length ?f \<le> length fs" by (rule length_filter_le)
    have n: "length fs + Suc (failure_count os) < 5"
      using Cons.prems OpFailure by simp
    have len: "length (?f @ [now]) = Suc (length ?f)" by simp
    have lt: "length (?f @ [now]) + failure_count os < 5"
      unfolding len using le n by linarith
    have step: "spec_step (fs, None) op = (?f @ [now], None)"
    proof -
      have "\<not> 5 \<le> length (?f @ [now])" unfolding len using le n by linarith
      then show ?thesis unfolding OpFailure spec_step.simps Let_def by (simp only: if_False)
    qed
    have cnt: "failure_count (op # os) = Suc (failure_count os)" by (simp add: OpFailure)
    show ?thesis
      using Cons.IH [OF lt] le unfolding foldl_Cons step cnt len by linarith
  next
    case (OpReset ip)
    with Cons.IH [of "[]"] Cons.prems show ?thesis by simp
  qed
qed

text \<open>Five failures less than a minute apart ban for a minute from the fifth.\<close>

lemma spec_five_failures:
  assumes "length ts = 5" and "\<forall>t\<in>set ts. last ts - t < minutes 1"
    and "\<forall>i j. i < j \<longrightarrow> j < 5 \<longrightarrow> ts ! i \<le> ts ! j"
  shows "\<exists>s. foldl spec_step ([], ban) (map (\<lambda>t. OpFailure t ip) ts) = s \<and>
    s = ([], Some (last ts + minutes 1))"
proof -
  obtain a b c d e where ts: "ts = [a, b, c, d, e]"
    using assms(1) by (auto simp: length_Suc_conv eval_nat_numeral)
  have le: "a \<le> b" "b \<le> c" "c \<le> d" "d \<le> e"
    using assms(3)[rule_format, of 0 1] assms(3)[rule_format, of 1 2] assms(3)[rule_format, of 2 3]
      assms(3)[rule_format, of 3 4]
    by (simp_all add: ts)
  have "e - a < minutes 1" using assms(2) by (simp add: ts)
  then have near: "time_sub y x < minutes 1" if "a \<le> x" "y \<le> e" for x y
    using that by (subst time_sub_less_iff) (auto simp: max_duration_def)
  show ?thesis
    using near le by (simp add: ts Let_def)
qed

section \<open>Properties\<close>


text \<open>C6: whether an address is banned after any sequence of checks, failures and resets of any
  addresses is a function of the operations on that address alone: a failure is remembered for a
  minute, the fifth one remembered bans for a minute, a reset clears both.\<close>

theorem limiter_refines_spec:
  "fst (IsBanned now (limiter_run ops) ip) \<longleftrightarrow>
     (\<exists>u. snd (limiter_spec ops ip) = Some u \<and> now < u)"
  by (rule IsBanned_run)

text \<open>Five failures of an address within a minute of the last one ban it for exactly a minute from
  then on, whatever the other addresses do in between.\<close>

theorem five_failures_ban:
  assumes "filter (\<lambda>op. op_ip op = ip) ops = OpReset ip # map (\<lambda>t. OpFailure t ip) [t1, t2, t3, t4, t5]"
    and "t1 \<le> t2" and "t2 \<le> t3" and "t3 \<le> t4" and "t4 \<le> t5" and "t5 - t1 < minutes 1"
  shows "fst (IsBanned now (limiter_run ops) ip) \<longleftrightarrow> now < t5 + minutes 1"
proof -
  have "limiter_spec ops ip = foldl spec_step ([], None) (map (\<lambda>t. OpFailure t ip) [t1, t2, t3, t4, t5])"
    by (simp add: limiter_spec_def assms(1))
  also have "\<dots> = ([], Some (t5 + minutes 1))"
    using spec_five_failures [of "[t1, t2, t3, t4, t5]" None ip] assms(2-)
    by (auto simp: nth_Cons split: nat.splits)
  finally show ?thesis by (simp add: IsBanned_run)
qed

theorem five_failures_ban_witness:
  "fst (IsBanned 60000000003 (limiter_run
     [OpReset ''a'', OpFailure 0 ''a'', OpFailure 1 ''b'', OpFailure 1 ''a'', OpIsBanned 2 ''b'',
      OpFailure 2 ''a'', OpFailure 3 ''a'', OpFailure 4 ''a'']) ''a'')"
  using five_failures_ban [of "''a''" "[OpReset ''a'', OpFailure 0 ''a'', OpFailure 1 ''b'', OpFailure 1 ''a'',
      OpIsBanned 2 ''b'', OpFailure 2 ''a'', OpFailure 3 ''a'', OpFailure 4 ''a'']" 0 1 2 3 4 60000000003]
  by simp

text \<open>An address with fewer than five failures since its last reset is not banned.\<close>

theorem few_failures_no_ban:
  assumes "filter (\<lambda>op. op_ip op = ip) ops = pre @ OpReset ip # post" and "failure_count post < 5"
  shows "\<not> fst (IsBanned now (limiter_run ops) ip)"
proof -
  have "limiter_spec ops ip = foldl spec_step ([], None) post"
    by (cases "foldl spec_step ([], None) pre") (simp add: limiter_spec_def assms(1))
  with spec_few_failures [of "[]" post] assms(2) show ?thesis by (simp add: IsBanned_run)
qed

theorem few_failures_no_ban_witness:
  "\<not> fst (IsBanned 9 (limiter_run
     [OpFailure 0 ''a'', OpFailure 1 ''a'', OpFailure 2 ''a'', OpReset ''a'', OpFailure 3 ''a'',
      OpFailure 4 ''a'']) ''a'')"
  by (rule few_failures_no_ban [of "''a''" _ "[OpFailure 0 ''a'', OpFailure 1 ''a'', OpFailure 2 ''a'']"
        "[OpFailure 3 ''a'', OpFailure 4 ''a'']"]) simp_all

end
