(* ===== verification/GoNet.thy ===== *)
theory GoNet
  imports GoStrings
begin

unbundle bit_operations_syntax

text \<open>
  What the program uses of Go's \<open>net\<close> and \<open>net/netip\<close>: \<open>ParseIP\<close> and \<open>ParseCIDR\<close> for IPv4
  and IPv6 text (zones are refused, an IPv4-mapped IPv6 address is an IPv4 address to
  \<open>To4\<close>), \<open>IP.String\<close>, masks, \<open>IPNet.Contains\<close>, \<open>IsLoopback\<close>, \<open>IsPrivate\<close>,
  \<open>SplitHostPort\<close> and \<open>JoinHostPort\<close>. A \<open>net.IP\<close> is its bytes, 4 or 16 of them; a nil
  \<open>net.IP\<close> is \<open>None\<close> where the code tests for it.
\<close>

section \<open>Addresses\<close>

type_synonym ip = bytes

definition v4_prefix :: bytes where
  "v4_prefix = replicate 10 0 @ [255, 255]"

definition To4 :: "ip \<Rightarrow> ip option" where
  "To4 a =
     (if length a = 4 then Some a
      else if length a = 16 \<and> take 12 a = v4_prefix then Some (drop 12 a)
      else None)"

text \<open>\<open>net.ParseIP(s).To4()\<close>: a nil address has no 4-byte form.\<close>

definition To4_nil :: "ip option \<Rightarrow> ip option" where
  "To4_nil a = (case a of None \<Rightarrow> None | Some b \<Rightarrow> To4 b)"

definition parse_octet :: "string \<Rightarrow> byte option" where
  "parse_octet w =
     (if w = [] \<or> (hd w = CHR ''0'' \<and> 1 < length w) then None
      else case digits_value 0 w of
             None \<Rightarrow> None
           | Some n \<Rightarrow> if n \<le> 255 then Some (word_of_nat n) else None)"

definition parse_ipv4 :: "string \<Rightarrow> bytes option" where
  "parse_ipv4 s =
     (case map parse_octet (split_on CHR ''.'' s) of
        [Some a, Some b, Some c, Some d] \<Rightarrow> Some [a, b, c, d]
      | _ \<Rightarrow> None)"

definition hex_val :: "char \<Rightarrow> nat option" where
  "hex_val c =
     (let n = of_char c :: nat
      in if 48 \<le> n \<and> n \<le> 57 then Some (n - 48)
         else if 97 \<le> n \<and> n \<le> 102 then Some (n - 87)
         else if 65 \<le> n \<and> n \<le> 70 then Some (n - 55)
         else None)"

definition hex_group :: "string \<Rightarrow> nat" where
  "hex_group g =
     foldl (\<lambda>acc c. 16 * acc + (case hex_val c of None \<Rightarrow> 0 | Some d \<Rightarrow> d)) 0 g"

text \<open>
  The loop of \<open>netip.parseIPv6\<close>: \<open>k\<close> groups may still be read, \<open>out\<close> are the bytes so far,
  \<open>el\<close> is the position of the \<open>::\<close> once one is seen.
\<close>

fun parse6_loop :: "nat \<Rightarrow> string \<Rightarrow> bytes \<Rightarrow> nat option \<Rightarrow> (bytes \<times> nat option \<times> string) option" where
  "parse6_loop 0 s out el = Some (out, el, s)"
| "parse6_loop (Suc k) s out el =
     (let g = takeWhile (\<lambda>c. hex_val c \<noteq> None) s;
          r = dropWhile (\<lambda>c. hex_val c \<noteq> None) s;
          out' = out @ [word_of_nat (hex_group g div 256), word_of_nat (hex_group g mod 256)]
      in if g = [] \<or> 4 < length g then None
         else (case r of
             [] \<Rightarrow> Some (out', el, [])
           | c # r' \<Rightarrow>
               if c = CHR ''.'' then
                 (if (el = None \<and> length out \<noteq> 12) \<or> 16 < length out + 4 then None
                  else map_option (\<lambda>q. (out @ q, el, [])) (parse_ipv4 s))
               else if c \<noteq> CHR '':'' \<or> r' = [] then None
               else if hd r' = CHR '':'' then
                 (if el \<noteq> None then None
                  else if tl r' = [] then Some (out', Some (length out'), [])
                  else parse6_loop k (tl r') out' (Some (length out')))
               else parse6_loop k r' out' el))"

definition parse_ipv6 :: "string \<Rightarrow> bytes option" where
  "parse_ipv6 s =
     (let lead = HasPrefix s ''::'';
          s' = (if lead then drop 2 s else s)
      in if lead \<and> s' = [] then Some (replicate 16 0)
         else case parse6_loop 8 s' [] (if lead then Some 0 else None) of
                None \<Rightarrow> None
              | Some (out, el, rest) \<Rightarrow>
                  if rest \<noteq> [] then None
                  else if length out < 16 then
                    (case el of
                       None \<Rightarrow> None
                     | Some e \<Rightarrow> Some (take e out @ replicate (16 - length out) 0 @ drop e out))
                  else if el \<noteq> None then None else Some out)"

text \<open>\<open>net.ParseIP\<close>: 16 bytes, IPv4 in its mapped form; the first of \<open>.\<close>, \<open>:\<close>, \<open>%\<close>
  decides the family, and an address with a zone is not an address.\<close>

definition ParseIP :: "string \<Rightarrow> ip option" where
  "ParseIP s =
     (case find (\<lambda>c. c \<in> set ''.:%'') s of
        Some c \<Rightarrow>
          if c = CHR ''.'' then map_option (\<lambda>q. v4_prefix @ q) (parse_ipv4 s)
          else if c = CHR '':'' \<and> CHR ''%'' \<notin> set s then parse_ipv6 s
          else None
      | None \<Rightarrow> None)"

text \<open>The dotted form of four bytes.\<close>

definition dotted :: "bytes \<Rightarrow> string" where
  "dotted b = join_with ''.'' (map (\<lambda>x. nat_string (unat x)) b)"

fun hex_digits :: "nat \<Rightarrow> string" where
  "hex_digits n = (if n < 16 then [hex_char n] else hex_digits (n div 16) @ [hex_char (n mod 16)])"

declare hex_digits.simps [simp del]

definition group_at :: "ip \<Rightarrow> nat \<Rightarrow> nat" where
  "group_at a i = 256 * unat (a ! (2 * i)) + unat (a ! Suc (2 * i))"

definition zeros_from :: "ip \<Rightarrow> nat \<Rightarrow> nat" where
  "zeros_from a i = length (takeWhile (\<lambda>j. group_at a j = 0) [i..<8])"

text \<open>The first longest run of at least two zero groups.\<close>

definition zero_run :: "ip \<Rightarrow> (nat \<times> nat) option" where
  "zero_run a =
     foldl (\<lambda>best i. let l = zeros_from a i
        in if 2 \<le> l \<and> (case best of None \<Rightarrow> 0 | Some (s, e) \<Rightarrow> e - s) < l then Some (i, i + l)
           else best) None [0..<8]"

definition ip6_string :: "ip \<Rightarrow> string" where
  "ip6_string a =
     (let grp = (\<lambda>i. hex_digits (group_at a i))
      in case zero_run a of
           None \<Rightarrow> join_with '':'' (map grp [0..<8])
         | Some (s, e) \<Rightarrow>
             join_with '':'' (map grp [0..<s]) @ ''::'' @ join_with '':'' (map grp [e..<8]))"

definition ip_String :: "ip \<Rightarrow> string" where
  "ip_String a =
     (case To4 a of
        Some q \<Rightarrow> dotted q
      | None \<Rightarrow> if length a = 16 then ip6_string a
                else if a = [] then ''<nil>'' else CHR ''?'' # EncodeToString a)"

definition ip_Equal :: "ip \<Rightarrow> ip \<Rightarrow> bool" where
  "ip_Equal a b =
     (if length a = length b then a = b
      else if length a = 4 \<and> length b = 16 then take 12 b = v4_prefix \<and> a = drop 12 b
      else if length a = 16 \<and> length b = 4 then take 12 a = v4_prefix \<and> drop 12 a = b
      else False)"

definition IsLoopback :: "ip \<Rightarrow> bool" where
  "IsLoopback a =
     (case To4 a of Some q \<Rightarrow> q ! 0 = 127 | None \<Rightarrow> ip_Equal a (replicate 15 0 @ [1]))"

definition IsPrivate :: "ip \<Rightarrow> bool" where
  "IsPrivate a =
     (case To4 a of
        Some q \<Rightarrow> q ! 0 = 10 \<or> (q ! 0 = 172 \<and> q ! 1 AND 0xf0 = 16) \<or> (q ! 0 = 192 \<and> q ! 1 = 168)
      | None \<Rightarrow> length a = 16 \<and> a ! 0 AND 0xfe = 0xfc)"

section \<open>Networks\<close>

record ipnet =
  net_IP :: ip
  net_Mask :: bytes

definition mask_byte :: "nat \<Rightarrow> byte" where
  "mask_byte n = (if 8 \<le> n then 255 else push_bit (8 - n) 255)"

definition CIDRMask :: "nat \<Rightarrow> nat \<Rightarrow> bytes" where
  "CIDRMask ones bits = map (\<lambda>i. mask_byte (ones - 8 * i)) [0..<bits div 8]"

definition ip_Mask :: "ip \<Rightarrow> bytes \<Rightarrow> ip" where
  "ip_Mask a m =
     (let m' = (if length m = 16 \<and> length a = 4 \<and> take 12 m = replicate 12 255
                then drop 12 m else m);
          a' = (if length m' = 4 \<and> length a = 16 \<and> take 12 a = v4_prefix then drop 12 a else a)
      in if length a' \<noteq> length m' then [] else map2 (AND) a' m')"

text \<open>\<open>simpleMaskLength\<close>: the number of leading ones, \<open>None\<close> when the mask is not canonical.\<close>

fun simple_mask_len :: "bytes \<Rightarrow> nat option" where
  "simple_mask_len [] = Some 0"
| "simple_mask_len (b # m) =
     (if b = 255 then map_option ((+) 8) (simple_mask_len m)
      else if list_all (\<lambda>x. x = 0) m then find (\<lambda>n. b = push_bit (8 - n) 255) [0..<8]
      else None)"

definition mask_Size :: "bytes \<Rightarrow> nat \<times> nat" where
  "mask_Size m = (case simple_mask_len m of None \<Rightarrow> (0, 0) | Some n \<Rightarrow> (n, 8 * length m))"

definition dtoi :: "string \<Rightarrow> nat option" where
  "dtoi w =
     (if w = [] then None
      else case digits_value 0 w of None \<Rightarrow> None | Some n \<Rightarrow> if n < 0xFFFFFF then Some n else None)"

definition ParseCIDR :: "string \<Rightarrow> (ip \<times> ipnet) option" where
  "ParseCIDR s =
     (case IndexByte s CHR ''/'' of
        None \<Rightarrow> None
      | Some i \<Rightarrow>
          (case ParseIP (take i s) of
             None \<Rightarrow> None
           | Some a \<Rightarrow>
               let bits = (if find (\<lambda>c. c \<in> set ''.:%'') (take i s) = Some CHR ''.'' then 32 else 128)
               in (case dtoi (drop (Suc i) s) of
                     None \<Rightarrow> None
                   | Some n \<Rightarrow>
                       if n \<le> bits
                       then let m = CIDRMask n bits
                            in Some (a, \<lparr>net_IP = ip_Mask a m, net_Mask = m\<rparr>)
                       else None)))"

text \<open>\<open>networkNumberAndMask\<close>: number and mask brought to the same width.\<close>

definition network_number_mask :: "ipnet \<Rightarrow> (ip \<times> bytes) option" where
  "network_number_mask n =
     (let a = (case To4 (net_IP n) of Some q \<Rightarrow> q | None \<Rightarrow> net_IP n);
          m = net_Mask n
      in if length a \<noteq> 4 \<and> length a \<noteq> 16 then None
         else if length m = 4 then (if length a = 4 then Some (a, m) else None)
         else if length m = 16 then Some (a, if length a = 4 then drop 12 m else m)
         else None)"

definition net_Contains :: "ipnet \<Rightarrow> ip \<Rightarrow> bool" where
  "net_Contains n a =
     (case network_number_mask n of
        None \<Rightarrow> (case To4 a of Some q \<Rightarrow> q | None \<Rightarrow> a) = []
      | Some (nn, m) \<Rightarrow>
          let b = (case To4 a of Some q \<Rightarrow> q | None \<Rightarrow> a)
          in length b = length nn \<and>
             list_all (\<lambda>i. nn ! i AND m ! i = b ! i AND m ! i) [0..<length b])"

definition net_String :: "ipnet \<Rightarrow> string" where
  "net_String n =
     (case network_number_mask n of
        None \<Rightarrow> ''<nil>''
      | Some (nn, m) \<Rightarrow>
          ip_String nn @ ''/'' @
          (case simple_mask_len m of Some l \<Rightarrow> nat_string l | None \<Rightarrow> EncodeToString m))"

section \<open>Host and port\<close>

definition SplitHostPort :: "string \<Rightarrow> (string \<times> string) option" where
  "SplitHostPort hp =
     (case LastIndexByte hp CHR '':'' of
        None \<Rightarrow> None
      | Some i \<Rightarrow>
          let port = drop (Suc i) hp
          in if hd hp = CHR ''['' then
               (case IndexByte hp CHR '']'' of
                  None \<Rightarrow> None
                | Some e \<Rightarrow>
                    if Suc e \<noteq> i then None
                    else if CHR ''['' \<in> set (drop 1 hp) \<or> CHR '']'' \<in> set (drop (Suc e) hp) then None
                    else Some (drop 1 (take e hp), port))
             else
               (if CHR '':'' \<in> set (take i hp) then None
                else if CHR ''['' \<in> set hp \<or> CHR '']'' \<in> set hp then None
                else Some (take i hp, port)))"

definition JoinHostPort :: "string \<Rightarrow> string \<Rightarrow> string" where
  "JoinHostPort host port =
     (if CHR '':'' \<in> set host then ''['' @ host @ '']:'' @ port else host @ '':'' @ port)"

text \<open>\<open>host, _, _ := net.SplitHostPort(addr)\<close>: the host is empty when the split fails.\<close>

definition host_of :: "string \<Rightarrow> string" where
  "host_of addr = (case SplitHostPort addr of None \<Rightarrow> [] | Some (h, p) \<Rightarrow> h)"

section \<open>Facts on addresses\<close>

lemma length_v4_prefix [simp]: "length v4_prefix = 12"
  by (simp add: v4_prefix_def)

lemma To4_4 [simp]: "length a = 4 \<Longrightarrow> To4 a = Some a"
  by (simp add: To4_def)

lemma To4_mapped [simp]: "length b = 4 \<Longrightarrow> To4 (v4_prefix @ b) = Some b"
  by (simp add: To4_def)

lemma To4_length: "To4 a = Some b \<Longrightarrow> length b = 4"
  by (auto simp: To4_def split: if_splits)

lemma To4_idem: "To4 a = Some b \<Longrightarrow> To4 b = Some b"
  using To4_length by simp

lemma To4_nil_Some [simp]: "To4_nil (Some a) = To4 a" "To4_nil None = None"
  by (simp_all add: To4_nil_def)

lemma length_4_conv: "length b = 4 \<longleftrightarrow> (\<exists>w x y z. b = [w, x, y, z])"
  by (auto simp: length_Suc_conv eval_nat_numeral)

lemma nat_string_no_lead_zero: "1 < length (nat_string n) \<Longrightarrow> hd (nat_string n) \<noteq> CHR ''0''"
proof (induction n rule: nat_string.induct)
  case (1 n)
  show ?case
  proof (cases "n < 10")
    case True
    with "1.prems" show ?thesis by (simp add: nat_string.simps [of n])
  next
    case False
    let ?m = "n div 10"
    have hd: "hd (nat_string n) = hd (nat_string ?m)"
      using False nat_string_nonempty [of ?m] by (simp add: nat_string.simps [of n])
    show ?thesis
    proof (cases "?m < 10")
      case True
      then have "nat_string ?m = [digit_char ?m]" by (simp add: nat_string.simps [of ?m])
      moreover have "digit_char ?m \<noteq> CHR ''0''"
      proof
        assume "digit_char ?m = CHR ''0''"
        then have "digit_val (digit_char ?m) = digit_val CHR ''0''" by simp
        moreover have "digit_val CHR ''0'' = Some 0" by (simp add: digit_val_def)
        ultimately have "?m = 0" using True by simp
        with False show False by simp
      qed
      ultimately show ?thesis using hd by simp
    next
      case big: False
      then have "1 < length (nat_string ?m)"
        using nat_string_nonempty [of "?m div 10"] by (simp add: nat_string.simps [of ?m])
      with "1.IH" False hd show ?thesis by simp
    qed
  qed
qed

lemma parse_octet_nat_string [simp, codec_simps]:
  "parse_octet (nat_string (unat x)) = Some (x :: byte)"
proof -
  have "unat x < 256" using unsigned_less [of x, where ?'a = nat] by simp
  then show ?thesis
    using nat_string_no_lead_zero [of "unat x"] by (auto simp: parse_octet_def)
qed

lemma dot_not_in_nat_string [simp]: "CHR ''.'' \<notin> set (nat_string n)"
  by (rule nat_string_no_sign) simp

lemma dotted_4:
  "dotted [w, x, y, z] = nat_string (unat w) @ ''.'' @ nat_string (unat x) @ ''.'' @
     nat_string (unat y) @ ''.'' @ nat_string (unat z)"
  by (simp add: dotted_def)

lemma parse_ipv4_dotted [simp, codec_simps]:
  assumes "length b = 4"
  shows "parse_ipv4 (dotted b) = Some b"
proof -
  obtain w x y z where b: "b = [w, x, y, z]" using assms by (auto simp: length_4_conv)
  have "split_on CHR ''.'' (dotted b) = map (\<lambda>x. nat_string (unat x)) b"
    unfolding dotted_def by (rule split_join) (auto simp: b)
  then show ?thesis by (simp add: parse_ipv4_def b)
qed

lemma find_family_nat_string:
  "find (\<lambda>c. c \<in> set ''.:%'') (nat_string n @ CHR ''.'' # r) = Some CHR ''.''"
proof -
  have "\<not> is_digit CHR ''%''" by (simp add: is_digit_def digit_val_def)
  then have "\<forall>c\<in>set (nat_string n). c \<notin> set ''.:%''"
    using not_digit_chars nat_string_digits [of _ n] by fastforce
  then have "find (\<lambda>c. c \<in> set ''.:%'') (nat_string n) = None"
    by (simp only: find_None_iff2)
  then show ?thesis by (simp only: find_append) simp
qed

lemma ParseIP_dotted [simp, codec_simps]:
  assumes "length b = 4"
  shows "ParseIP (dotted b) = Some (v4_prefix @ b)"
proof -
  obtain w x y z where b: "b = [w, x, y, z]" using assms by (auto simp: length_4_conv)
  have "find (\<lambda>c. c \<in> set ''.:%'') (dotted b) = Some CHR ''.''"
    using find_family_nat_string by (simp add: b dotted_4)
  with assms show ?thesis by (simp add: ParseIP_def)
qed

lemma dtoi_nat_string [simp]: "n < 0xFFFFFF \<Longrightarrow> dtoi (nat_string n) = Some n"
  by (simp add: dtoi_def)

lemma ParseCIDR_dotted [codec_simps]:
  assumes b: "length b = 4" and n: "n \<le> 32"
  shows "ParseCIDR (dotted b @ ''/'' @ nat_string n) =
    Some (v4_prefix @ b, \<lparr>net_IP = ip_Mask (v4_prefix @ b) (CIDRMask n 32), net_Mask = CIDRMask n 32\<rparr>)"
proof -
  obtain w x y z where bs: "b = [w, x, y, z]" using b by (auto simp: length_4_conv)
  have "CHR ''/'' \<notin> set (nat_string k)" for k by (rule nat_string_no_sign) simp
  then have slash: "CHR ''/'' \<notin> set (dotted b)" by (simp add: bs dotted_4)
  have idx: "IndexByte (dotted b @ CHR ''/'' # nat_string n) CHR ''/'' = Some (length (dotted b))"
    using slash by simp
  have fam: "find (\<lambda>c. c \<in> set ''.:%'') (dotted b) = Some CHR ''.''"
    using find_family_nat_string by (simp add: bs dotted_4)
  show ?thesis
    using idx fam n ParseIP_dotted [OF b] by (simp add: ParseCIDR_def Let_def)
qed

lemma dotted_inject:
  "length a = 4 \<Longrightarrow> length b = 4 \<Longrightarrow> dotted a = dotted b \<longleftrightarrow> a = b"
  by (metis option.inject parse_ipv4_dotted)

lemma ip_String_4 [simp]: "length a = 4 \<Longrightarrow> ip_String a = dotted a"
  by (simp add: ip_String_def)

lemma parse_octets_length: "parse_ipv4 s = Some b \<Longrightarrow> length b = 4"
  by (auto simp: parse_ipv4_def split: list.splits option.splits)

text \<open>A mask of a prefix length, and the length read back.\<close>

lemma length_CIDRMask [simp]: "length (CIDRMask n bits) = bits div 8"
  by (simp add: CIDRMask_def)

lemma simple_mask_len_CIDRMask:
  "n \<le> 32 \<Longrightarrow> simple_mask_len (CIDRMask n 32) = Some n"
proof -
  have "\<forall>n\<in>set [0..<33]. simple_mask_len (CIDRMask n 32) = Some n" by code_simp
  then show "n \<le> 32 \<Longrightarrow> simple_mask_len (CIDRMask n 32) = Some n" by auto
qed

lemma mask_Size_CIDRMask: "n \<le> 32 \<Longrightarrow> mask_Size (CIDRMask n 32) = (n, 32)"
  by (simp add: mask_Size_def simple_mask_len_CIDRMask)

text \<open>Membership in a network of four bytes: the masked bytes agree.\<close>

lemma net_Contains_4:
  assumes "length nip = 4" and "length m = 4" and "length a = 4"
  shows "net_Contains \<lparr>net_IP = nip, net_Mask = m\<rparr> a \<longleftrightarrow> map2 (AND) nip m = map2 (AND) a m"
proof -
  obtain n0 n1 n2 n3 m0 m1 m2 m3 a0 a1 a2 a3 where
    "nip = [n0, n1, n2, n3]" "m = [m0, m1, m2, m3]" "a = [a0, a1, a2, a3]"
    using assms by (auto simp: length_4_conv)
  then show ?thesis
    by (auto simp: net_Contains_def network_number_mask_def upt_rec)
qed

lemma ip_Mask_4:
  "length a = 4 \<Longrightarrow> length m = 4 \<Longrightarrow> ip_Mask a m = map2 (AND) a m"
  by (simp add: ip_Mask_def Let_def)

lemma ip_Mask_mapped:
  "length a = 4 \<Longrightarrow> length m = 4 \<Longrightarrow> ip_Mask (v4_prefix @ a) m = map2 (AND) a m"
  by (simp add: ip_Mask_def Let_def)

lemma mask_and_idem: "map2 (AND) (map2 (AND) a m) m = map2 (AND) a (m :: byte list)"
  by (induction a m rule: list_induct2') (simp_all add: and.assoc)

lemma net_Contains_To4:
  assumes "To4 a = Some q" and "length nip = 4" and "length m = 4"
  shows "net_Contains \<lparr>net_IP = nip, net_Mask = m\<rparr> a \<longleftrightarrow> map2 (AND) nip m = map2 (AND) q m"
proof -
  have "net_Contains \<lparr>net_IP = nip, net_Mask = m\<rparr> a = net_Contains \<lparr>net_IP = nip, net_Mask = m\<rparr> q"
    unfolding net_Contains_def assms(1) To4_idem [OF assms(1)] option.case by (rule refl)
  with net_Contains_4 [of nip m q] To4_length [OF assms(1)] assms(2,3) show ?thesis by simp
qed

lemma net_Contains_not4:
  assumes "To4 a = None" and "length nip = 4" and "length m = 4"
  shows "\<not> net_Contains \<lparr>net_IP = nip, net_Mask = m\<rparr> a"
  using assms by (auto simp: net_Contains_def network_number_mask_def To4_def split: if_splits)

text \<open>An address with a mask is not an address.\<close>

lemma digits_value_other:
  "c \<in> set s \<Longrightarrow> digit_val c = None \<Longrightarrow> digits_value acc s = None"
  by (induction s arbitrary: acc) (auto split: option.splits)

lemma ParseIP_dotted_mask:
  assumes "length b = 4"
  shows "ParseIP (dotted b @ CHR ''/'' # s) = None"
proof -
  obtain w x y z where b: "b = [w, x, y, z]" using assms by (auto simp: length_4_conv)
  have fam: "find (\<lambda>c. c \<in> set ''.:%'') (dotted b @ CHR ''/'' # s) = Some CHR ''.''"
    using find_family_nat_string by (simp add: b dotted_4)
  have "digits_value 0 (nat_string (unat z) @ CHR ''/'' # t) = None" for t
    by (rule digits_value_other [of "CHR ''/''"]) (simp_all add: digit_val_def)
  then have bad: "parse_octet (nat_string (unat z) @ CHR ''/'' # t) = None" for t
    by (simp add: parse_octet_def)
  have "split_on CHR ''.'' (nat_string (unat z) @ CHR ''/'' # s) =
      (nat_string (unat z) @ CHR ''/'' # hd (split_on CHR ''.'' s)) # tl (split_on CHR ''.'' s)"
    by (rule split_on_head) simp_all
  then have "parse_ipv4 (dotted b @ CHR ''/'' # s) = None"
    using bad by (simp add: parse_ipv4_def b dotted_4)
  with fam show ?thesis by (simp add: ParseIP_def)
qed

section \<open>Facts on host and port\<close>

definition host_ok :: "string \<Rightarrow> bool" where
  "host_ok h \<longleftrightarrow> CHR ''['' \<notin> set h \<and> CHR '']'' \<notin> set h"

definition port_ok :: "string \<Rightarrow> bool" where
  "port_ok p \<longleftrightarrow> CHR '':'' \<notin> set p \<and> CHR ''['' \<notin> set p \<and> CHR '']'' \<notin> set p"

lemma SplitHostPort_JoinHostPort [simp, codec_simps]:
  assumes "host_ok h" and "port_ok p"
  shows "SplitHostPort (JoinHostPort h p) = Some (h, p)"
proof (cases "CHR '':'' \<in> set h")
  case True
  let ?s = "''['' @ h @ '']:'' @ p"
  have "LastIndexByte ?s CHR '':'' = Some (length (''['' @ h @ '']''))"
    using LastIndexByte_append_last [of "CHR '':''" p "''['' @ h @ '']''"] assms
    by (simp add: port_ok_def)
  moreover have "IndexByte ?s CHR '']'' = Some (length (''['' @ h))"
    using IndexByte_append_first [of "CHR '']''" "''['' @ h" "CHR '':'' # p"] assms
    by (simp add: host_ok_def)
  ultimately show ?thesis
    using True assms by (auto simp: JoinHostPort_def SplitHostPort_def Let_def host_ok_def port_ok_def)
next
  case False
  have "LastIndexByte (h @ CHR '':'' # p) CHR '':'' = Some (length h)"
    using assms by (simp add: port_ok_def)
  moreover have "hd (h @ CHR '':'' # p) \<noteq> CHR ''[''"
    using assms by (cases h) (auto simp: host_ok_def)
  ultimately show ?thesis
    using False assms by (simp add: JoinHostPort_def SplitHostPort_def Let_def host_ok_def port_ok_def)
qed

lemma host_of_JoinHostPort [simp]:
  "host_ok h \<Longrightarrow> port_ok p \<Longrightarrow> host_of (JoinHostPort h p) = h"
  by (simp add: host_of_def)

lemma nat_string_port_ok [simp]: "port_ok (nat_string n)"
proof -
  have "\<not> is_digit CHR ''[''" "\<not> is_digit CHR '']''" by (simp_all add: is_digit_def digit_val_def)
  then show ?thesis by (simp add: port_ok_def nat_string_no_sign)
qed

lemma dotted_host_ok [simp]: "length a = 4 \<Longrightarrow> host_ok (dotted a)"
proof -
  have "\<not> is_digit CHR ''[''" "\<not> is_digit CHR '']''" by (simp_all add: is_digit_def digit_val_def)
  then have "CHR ''['' \<notin> set (nat_string n)" "CHR '']'' \<notin> set (nat_string n)" for n
    by (simp_all add: nat_string_no_sign)
  then show "length a = 4 \<Longrightarrow> host_ok (dotted a)" by (auto simp: length_4_conv dotted_4 host_ok_def)
qed

end
