(* ===== verification/Acl.thy ===== *)
theory Acl
  imports GoNet
begin

unbundle bit_operations_syntax

text \<open>
  \<open>internal/server/acl/acl.go\<close>: the policy file, the engine with its index by device name, and
  the decision on a packet. \<open>yaml.Unmarshal\<close> into a \<open>Policy\<close> is the parameter \<open>unmarshal\<close>.
  \<open>policy_permits\<close> is the policy as its author reads it, with no index: the last rule of a
  device counts, a deny entry wins, an allow list admits nothing else, and without a verdict
  the default holds. \<open>Allow_loaded\<close> shows the engine decides so on every packet.
\<close>

section \<open>State\<close>

record port_spec =
  ps_Proto :: string
  ps_Port :: int

record rule =
  rule_Device :: string
  rule_Allow :: "port_spec list"
  rule_Deny :: "port_spec list"

record policy =
  pol_DefaultPolicy :: string
  pol_Rules :: "rule list"

record engine =
  eng_policy :: policy
  eng_index :: "string \<rightharpoonup> rule"
  eng_path :: string

datatype acl_error = AclFile os_error | AclYaml string

section \<open>Loading\<close>

definition index_rules :: "rule list \<Rightarrow> (string \<rightharpoonup> rule)" where
  "index_rules rs = foldl (\<lambda>idx r. idx(rule_Device r \<mapsto> r)) Map.empty rs"

definition default_policy :: "policy \<Rightarrow> policy" where
  "default_policy p =
     (if pol_DefaultPolicy p = [] then p\<lparr>pol_DefaultPolicy := ''allow''\<rparr> else p)"

definition Reload ::
    "(string \<Rightarrow> string + policy) \<Rightarrow> filesys \<Rightarrow> engine \<Rightarrow> engine \<times> acl_error option" where
  "Reload unmarshal fs e =
     (case ReadFile fs (eng_path e) of
        Inl err \<Rightarrow>
          if IsNotExist err
          then (e\<lparr>eng_policy := \<lparr>pol_DefaultPolicy = ''allow'', pol_Rules = []\<rparr>,
                  eng_index := Map.empty\<rparr>, None)
          else (e, Some (AclFile err))
      | Inr d \<Rightarrow>
          (case unmarshal d of
             Inl err \<Rightarrow> (e, Some (AclYaml err))
           | Inr p0 \<Rightarrow>
               let p = default_policy p0
               in (e\<lparr>eng_policy := p, eng_index := index_rules (pol_Rules p)\<rparr>, None)))"

definition empty_engine :: "string \<Rightarrow> engine" where
  "empty_engine path =
     \<lparr>eng_policy = \<lparr>pol_DefaultPolicy = [], pol_Rules = []\<rparr>, eng_index = Map.empty, eng_path = path\<rparr>"

definition Load ::
    "(string \<Rightarrow> string + policy) \<Rightarrow> filesys \<Rightarrow> string \<Rightarrow> engine \<times> acl_error option" where
  "Load unmarshal fs path = Reload unmarshal fs (empty_engine path)"

section \<open>Deciding\<close>

definition extractProtoPort :: "bytes \<Rightarrow> string \<times> int" where
  "extractProtoPort pkt =
     (let proto = (if pkt ! 9 = 6 then ''tcp'' else if pkt ! 9 = 17 then ''udp''
                   else if pkt ! 9 = 1 then ''icmp'' else ''*'');
          ihl = unat (pkt ! 0 AND 0x0f) * 4
      in if ihl < 20 then (proto, 0)
         else if (proto = ''tcp'' \<or> proto = ''udp'') \<and> ihl + 4 \<le> length pkt
         then (proto, uint (be_get16 (take 2 (drop (ihl + 2) pkt))))
         else (proto, 0))"

definition matches :: "port_spec \<Rightarrow> string \<Rightarrow> int \<Rightarrow> bool" where
  "matches spec proto dstPort =
     (if ps_Proto spec \<noteq> ''*'' \<and> ps_Proto spec \<noteq> proto then False
      else if ps_Port spec \<noteq> 0 \<and> ps_Port spec \<noteq> dstPort then False
      else True)"

definition Allow :: "engine \<Rightarrow> string \<Rightarrow> bytes \<Rightarrow> bool" where
  "Allow e deviceName pkt =
     (if length pkt < 20 then False
      else let defaultAllow = (pol_DefaultPolicy (eng_policy e) \<noteq> ''deny'')
           in case eng_index e deviceName of
                None \<Rightarrow> defaultAllow
              | Some rule \<Rightarrow>
                  let (proto, dstPort) = extractProtoPort pkt
                  in if list_ex (\<lambda>spec. matches spec proto dstPort) (rule_Deny rule) then False
                     else if rule_Allow rule \<noteq> []
                     then list_ex (\<lambda>spec. matches spec proto dstPort) (rule_Allow rule)
                     else defaultAllow)"

section \<open>The policy as it is meant\<close>

text \<open>The last rule written for a device.\<close>

definition rule_for :: "policy \<Rightarrow> string \<Rightarrow> rule option" where
  "rule_for p dev = find (\<lambda>r. rule_Device r = dev) (rev (pol_Rules p))"

definition spec_admits :: "port_spec \<Rightarrow> string \<times> int \<Rightarrow> bool" where
  "spec_admits s flow \<longleftrightarrow>
     (ps_Proto s = ''*'' \<or> ps_Proto s = fst flow) \<and> (ps_Port s = 0 \<or> ps_Port s = snd flow)"

definition policy_permits :: "policy \<Rightarrow> string \<Rightarrow> string \<times> int \<Rightarrow> bool" where
  "policy_permits p dev flow \<longleftrightarrow>
     (case rule_for p dev of
        None \<Rightarrow> pol_DefaultPolicy p \<noteq> ''deny''
      | Some r \<Rightarrow>
          \<not> (\<exists>s\<in>set (rule_Deny r). spec_admits s flow) \<and>
          (if rule_Allow r = [] then pol_DefaultPolicy p \<noteq> ''deny''
           else \<exists>s\<in>set (rule_Allow r). spec_admits s flow))"

lemma matches_iff: "matches s proto port \<longleftrightarrow> spec_admits s (proto, port)"
  by (auto simp: matches_def spec_admits_def)

lemma index_rules_lookup: "index_rules rs dev = find (\<lambda>r. rule_Device r = dev) (rev rs)"
  by (induction rs rule: rev_induct) (auto simp: index_rules_def)

text \<open>An engine whose index is that of its policy: what \<open>Reload\<close> leaves behind.\<close>

definition engine_wf :: "engine \<Rightarrow> bool" where
  "engine_wf e \<longleftrightarrow> eng_index e = index_rules (pol_Rules (eng_policy e))"

lemma engine_wf_empty [simp, intro]: "engine_wf (empty_engine path)"
  by (simp add: engine_wf_def empty_engine_def index_rules_def)

lemma engine_wf_Reload [inv_intros]:
  "engine_wf e \<Longrightarrow> Reload unmarshal fs e = (e', r) \<Longrightarrow> engine_wf e'"
  by (auto simp: engine_wf_def Reload_def Let_def index_rules_def split: sum.splits if_splits)

lemma engine_wf_Load: "engine_wf (fst (Load unmarshal fs path))"
  unfolding Load_def by (metis engine_wf_Reload engine_wf_empty prod.collapse)

lemma Reload_error_keeps:
  "Reload unmarshal fs e = (e', Some r) \<Longrightarrow> e' = e"
  by (auto simp: Reload_def Let_def split: sum.splits if_splits)

lemma Allow_loaded:
  assumes "engine_wf e"
  shows "Allow e dev pkt \<longleftrightarrow>
    20 \<le> length pkt \<and> policy_permits (eng_policy e) dev (extractProtoPort pkt)"
proof -
  have idx: "eng_index e dev = rule_for (eng_policy e) dev"
    using assms by (simp add: engine_wf_def rule_for_def index_rules_lookup)
  show ?thesis
    by (auto simp: Allow_def policy_permits_def idx matches_iff list_ex_iff Let_def
        split: option.splits prod.splits)
qed

lemma Allow_short: "length pkt < 20 \<Longrightarrow> \<not> Allow e dev pkt"
  by (simp add: Allow_def)

text \<open>The port of a TCP or UDP packet without IP options is in bytes 22 and 23.\<close>

lemma extractProtoPort_plain:
  assumes "pkt ! 0 AND 0x0f = 5" and "24 \<le> length pkt" and "pkt ! 9 = 6"
  shows "extractProtoPort pkt = (''tcp'', uint (be_get16 [pkt ! 22, pkt ! 23]))"
proof -
  have "take 2 (drop 22 pkt) = [pkt ! 22, pkt ! 23]"
    using assms(2) by (simp add: take_Suc_conv_app_nth numeral_2_eq_2)
  with assms show ?thesis by (simp add: extractProtoPort_def)
qed

section \<open>Properties\<close>

text \<open>C8: once a policy file is loaded, a packet to a device passes exactly when it is a whole IPv4
  header and the policy permits its flow: the last rule for the device decides, its deny list
  before its allow list, and the default policy where there is no rule or no allow list.\<close>

theorem loaded_policy_decides:
  assumes "ReadFile fs (eng_path e) = Inr d" and "unmarshal d = Inr p"
  shows "Allow (fst (Reload unmarshal fs e)) dev pkt \<longleftrightarrow>
    20 \<le> length pkt \<and> policy_permits (default_policy p) dev (extractProtoPort pkt)"
proof -
  have "Reload unmarshal fs e = (e\<lparr>eng_policy := default_policy p, eng_index := index_rules (pol_Rules p)\<rparr>, None)"
    using assms by (simp add: Reload_def Let_def default_policy_def)
  moreover have "engine_wf (e\<lparr>eng_policy := default_policy p, eng_index := index_rules (pol_Rules p)\<rparr>)"
    by (simp add: engine_wf_def default_policy_def)
  ultimately show ?thesis using Allow_loaded by simp
qed

theorem loaded_policy_decides_witness:
  "\<not> Allow (fst (Reload (\<lambda>d. Inr \<lparr>pol_DefaultPolicy = ''deny'', pol_Rules = []\<rparr>)
       (healthy_fs [''acl'' \<mapsto> []]) (empty_engine ''acl''))) ''phone'' (replicate 20 0)"
proof -
  have "ReadFile (healthy_fs [''acl'' \<mapsto> []]) (eng_path (empty_engine ''acl'')) = Inr []"
    by (simp add: ReadFile_def healthy_fs_def empty_engine_def)
  from loaded_policy_decides [OF this] show ?thesis
    by (simp add: policy_permits_def rule_for_def default_policy_def)
qed

text \<open>A reload that fails leaves the engine as it was; a missing file means that every whole
  packet passes.\<close>

theorem failed_reload_keeps_policy:
  "(snd (Reload unmarshal fs e) = None \<or> fst (Reload unmarshal fs e) = e) \<and>
   Allow (fst (Reload unmarshal (fs\<lparr>files := (files fs)(eng_path e := None),
       read_fails := (read_fails fs)(eng_path e := None)\<rparr>) e)) dev pkt = (20 \<le> length pkt)"
proof
  show "snd (Reload unmarshal fs e) = None \<or> fst (Reload unmarshal fs e) = e"
    using Reload_error_keeps [of unmarshal fs e]
    by (cases "Reload unmarshal fs e"; cases "snd (Reload unmarshal fs e)") auto
next
  show "Allow (fst (Reload unmarshal (fs\<lparr>files := (files fs)(eng_path e := None),
       read_fails := (read_fails fs)(eng_path e := None)\<rparr>) e)) dev pkt = (20 \<le> length pkt)"
    by (simp add: Reload_def ReadFile_def IsNotExist_def Allow_def)
qed

end
