(* ===== verification/Clients.thy ===== *)
theory Clients
  imports GoNet
begin

text \<open>
  \<open>internal/server/clients.go\<close>: the connected clients and the registry of tunnel addresses.
  The code shares \<open>*connectedClient\<close> pointers between goroutines, and a goroutine may hold one
  after its removal from the registry; a pointer is an index into \<open>reg_heap\<close>, the clients ever
  created, and the map holds pointers. Go's map iteration order is the argument \<open>order\<close>, an
  enumeration of the addresses in the map. The registry invariant \<open>reg_wf\<close> says that every
  entry points to a client of that address, out of the pool \<open>base.2\<close> to \<open>base.254\<close>.
\<close>

section \<open>State\<close>

record client =
  c_name :: string
  c_ip :: string
  c_conn :: nat
  c_sendCh :: "bytes list"
  c_closed :: bool
  c_dead :: bool
  c_connectedAt :: instant
  c_lastSeen :: instant
  c_bytesIn :: "64 word"
  c_bytesOut :: "64 word"

record registry =
  reg_heap :: "client list"
  reg_clients :: "string \<rightharpoonup> nat"
  reg_baseIP :: string

definition sendCh_cap :: nat where "sendCh_cap = 256"

definition newClientRegistry :: "string \<Rightarrow> registry" where
  "newClientRegistry baseIP =
     \<lparr>reg_heap = [], reg_clients = Map.empty, reg_baseIP = baseIP\<rparr>"

text \<open>A change of the client at a pointer.\<close>

definition upd_client :: "nat \<Rightarrow> (client \<Rightarrow> client) \<Rightarrow> registry \<Rightarrow> registry" where
  "upd_client i f r = r\<lparr>reg_heap := (reg_heap r)[i := f (reg_heap r ! i)]\<rparr>"

definition Touch :: "instant \<Rightarrow> client \<Rightarrow> client" where
  "Touch now c = c\<lparr>c_lastSeen := now\<rparr>"

definition Stale :: "instant \<Rightarrow> duration \<Rightarrow> client \<Rightarrow> bool" where
  "Stale now d c \<longleftrightarrow> d < now - c_lastSeen c"

section \<open>Operations\<close>

datatype registry_error = PoolExhausted

definition candidate :: "registry \<Rightarrow> nat \<Rightarrow> string" where
  "candidate r octet = reg_baseIP r @ ''.'' @ nat_string octet"

definition pool :: "nat list" where
  "pool = [2..<255]"

definition Assign ::
    "instant \<Rightarrow> registry \<Rightarrow> string \<Rightarrow> nat \<Rightarrow> (registry_error + nat) \<times> registry" where
  "Assign now r name conn =
     (case find (\<lambda>octet. reg_clients r (candidate r octet) = None) pool of
        None \<Rightarrow> (Inl PoolExhausted, r)
      | Some octet \<Rightarrow>
          let ip = candidate r octet;
              c = \<lparr>c_name = name, c_ip = ip, c_conn = conn, c_sendCh = [], c_closed = False,
                   c_dead = False, c_connectedAt = now, c_lastSeen = now, c_bytesIn = 0,
                   c_bytesOut = 0\<rparr>;
              i = length (reg_heap r)
          in (Inr i, r\<lparr>reg_heap := reg_heap r @ [c], reg_clients := (reg_clients r)(ip \<mapsto> i)\<rparr>))"

definition GetByIP :: "registry \<Rightarrow> string \<Rightarrow> nat option" where
  "GetByIP r ip = reg_clients r ip"

definition entries_in :: "registry \<Rightarrow> string list \<Rightarrow> nat list" where
  "entries_in r order = map (\<lambda>ip. the (reg_clients r ip)) order"

definition GetByName :: "string list \<Rightarrow> registry \<Rightarrow> string \<Rightarrow> nat option" where
  "GetByName order r name = find (\<lambda>i. c_name (reg_heap r ! i) = name) (entries_in r order)"

definition Remove_client :: "registry \<Rightarrow> string \<Rightarrow> registry" where
  "Remove_client r ip = r\<lparr>reg_clients := map_delete ip (reg_clients r)\<rparr>"

record clientInfo =
  ci_Name :: string
  ci_IP :: string
  ci_ConnectedAt :: instant
  ci_BytesIn :: "64 word"
  ci_BytesOut :: "64 word"

definition client_info :: "client \<Rightarrow> clientInfo" where
  "client_info c =
     \<lparr>ci_Name = c_name c, ci_IP = c_ip c, ci_ConnectedAt = c_connectedAt c,
      ci_BytesIn = c_bytesIn c, ci_BytesOut = c_bytesOut c\<rparr>"

definition Snapshot :: "string list \<Rightarrow> registry \<Rightarrow> clientInfo list" where
  "Snapshot order r = map (\<lambda>i. client_info (reg_heap r ! i)) (entries_in r order)"

definition StaleConns :: "string list \<Rightarrow> instant \<Rightarrow> duration \<Rightarrow> registry \<Rightarrow> nat list" where
  "StaleConns order now d r =
     (let threshold = now - d
      in map (\<lambda>i. c_conn (reg_heap r ! i))
           (filter (\<lambda>i. c_lastSeen (reg_heap r ! i) < threshold) (entries_in r order)))"

text \<open>An order the runtime may iterate in.\<close>

definition enumerates :: "string list \<Rightarrow> registry \<Rightarrow> bool" where
  "enumerates order r \<longleftrightarrow> distinct order \<and> set order = dom (reg_clients r)"

section \<open>The invariant\<close>

definition reg_wf :: "registry \<Rightarrow> bool" where
  "reg_wf r \<longleftrightarrow>
     (\<forall>ip i. reg_clients r ip = Some i \<longrightarrow>
        i < length (reg_heap r) \<and> c_ip (reg_heap r ! i) = ip \<and>
        (\<exists>octet\<in>set pool. ip = candidate r octet))"

lemma length_pool [simp]: "length pool = 253"
  by (simp add: pool_def del: upt_rec_numeral)

lemma nth_pool: "k < 253 \<Longrightarrow> pool ! k = k + 2"
  by (simp add: pool_def del: upt_rec_numeral)

lemma in_pool_iff: "x \<in> set pool \<longleftrightarrow> 2 \<le> x \<and> x < 255"
  by (simp add: pool_def del: upt_rec_numeral)

lemma candidate_inject [simp]: "candidate r a = candidate r b \<longleftrightarrow> a = b"
  by (simp add: candidate_def)

lemma candidate_update [simp]:
  "candidate (r\<lparr>reg_heap := h\<rparr>) k = candidate r k"
  "candidate (r\<lparr>reg_clients := m\<rparr>) k = candidate r k"
  by (simp_all add: candidate_def)

lemma reg_wf_new [simp, intro]: "reg_wf (newClientRegistry baseIP)"
  by (simp add: reg_wf_def newClientRegistry_def)

lemma reg_wf_dom: "reg_wf r \<Longrightarrow> dom (reg_clients r) \<subseteq> candidate r ` set pool"
  by (auto simp: reg_wf_def)

lemma finite_clients: "reg_wf r \<Longrightarrow> finite (dom (reg_clients r))"
  by (rule finite_subset [OF reg_wf_dom]) auto

lemma card_pool: "card (candidate r ` set pool) = 253"
proof -
  have "card (candidate r ` set pool) = card (set pool)"
    by (rule card_image) (simp add: inj_on_def)
  also have "\<dots> = 253"
    by (simp add: pool_def del: upt_rec_numeral)
  finally show ?thesis .
qed

lemma card_clients_le: "reg_wf r \<Longrightarrow> card (dom (reg_clients r)) \<le> 253"
  using card_mono [OF _ reg_wf_dom] card_pool by fastforce

lemma Assign_Inr:
  assumes "Assign now r name conn = (Inr i, r')"
  obtains octet where "octet \<in> set pool" "reg_clients r (candidate r octet) = None"
    "\<forall>k\<in>set pool. k < octet \<longrightarrow> reg_clients r (candidate r k) \<noteq> None"
    "i = length (reg_heap r)"
    "r' = r\<lparr>reg_heap := reg_heap r @ [\<lparr>c_name = name, c_ip = candidate r octet, c_conn = conn,
        c_sendCh = [], c_closed = False, c_dead = False, c_connectedAt = now, c_lastSeen = now,
        c_bytesIn = 0, c_bytesOut = 0\<rparr>],
      reg_clients := (reg_clients r)(candidate r octet \<mapsto> i)\<rparr>"
proof -
  from assms obtain octet where
    f: "find (\<lambda>octet. reg_clients r (candidate r octet) = None) pool = Some octet"
    by (auto simp: Assign_def split: option.splits)
  then obtain k where k: "k < length pool" "pool ! k = octet" "reg_clients r (candidate r octet) = None"
    "\<forall>j<k. reg_clients r (candidate r (pool ! j)) \<noteq> None"
    by (auto simp: find_Some_iff)
  have below: "reg_clients r (candidate r x) \<noteq> None" if "x \<in> set pool" "x < octet" for x
  proof -
    have "x = pool ! (x - 2)" "x - 2 < k"
      using that k(1,2) by (auto simp: in_pool_iff nth_pool)
    with k(4) show ?thesis by metis
  qed
  from f assms have r': "i = length (reg_heap r)" "r' = r\<lparr>reg_heap := reg_heap r @
      [\<lparr>c_name = name, c_ip = candidate r octet, c_conn = conn, c_sendCh = [], c_closed = False,
        c_dead = False, c_connectedAt = now, c_lastSeen = now, c_bytesIn = 0, c_bytesOut = 0\<rparr>],
      reg_clients := (reg_clients r)(candidate r octet \<mapsto> i)\<rparr>"
    by (auto simp: Assign_def Let_def)
  show thesis
    by (rule that [of octet]) (use k below r' in \<open>auto simp: in_set_conv_nth\<close>)
qed

lemma reg_wf_Assign [inv_intros]:
  assumes "reg_wf r" and "Assign now r name conn = (res, r')"
  shows "reg_wf r'"
proof (cases res)
  case (Inl e)
  with assms show ?thesis by (auto simp: Assign_def Let_def split: option.splits)
next
  case (Inr i)
  from Assign_Inr [OF assms(2) [unfolded Inr]] obtain octet where o: "octet \<in> set pool"
    "i = length (reg_heap r)"
    "r' = r\<lparr>reg_heap := reg_heap r @ [\<lparr>c_name = name, c_ip = candidate r octet, c_conn = conn,
        c_sendCh = [], c_closed = False, c_dead = False, c_connectedAt = now, c_lastSeen = now,
        c_bytesIn = 0, c_bytesOut = 0\<rparr>],
      reg_clients := (reg_clients r)(candidate r octet \<mapsto> i)\<rparr>"
    by blast
  with assms(1) show ?thesis
    by (auto simp: reg_wf_def nth_append less_SucI split: if_splits)
qed

lemma reg_wf_Remove [inv_intros]: "reg_wf r \<Longrightarrow> reg_wf (Remove_client r ip)"
  by (auto simp: reg_wf_def Remove_client_def split: if_splits)

lemma reg_wf_upd [inv_intros]:
  assumes "reg_wf r" and "\<And>c. c_ip (f c) = c_ip c"
  shows "reg_wf (upd_client i f r)"
proof -
  have "c_ip ((reg_heap r)[i := f (reg_heap r ! i)] ! k) = c_ip (reg_heap r ! k)"
    if "k < length (reg_heap r)" for k
    using that assms(2) by (cases "i = k") simp_all
  with assms(1) show ?thesis by (auto simp: reg_wf_def upd_client_def)
qed

text \<open>An assignment fails exactly when the whole pool is taken.\<close>

lemma Assign_Inl_iff:
  "fst (Assign now r name conn) = Inl PoolExhausted \<longleftrightarrow>
     (\<forall>octet\<in>set pool. reg_clients r (candidate r octet) \<noteq> None)"
  by (auto simp: Assign_def Let_def find_None_iff2 split: option.splits dest!: find_SomeD)

lemma Assign_exhausted_card:
  assumes "reg_wf r"
  shows "fst (Assign now r name conn) = Inl PoolExhausted \<longleftrightarrow> card (dom (reg_clients r)) = 253"
proof
  assume "fst (Assign now r name conn) = Inl PoolExhausted"
  then have "candidate r ` set pool \<subseteq> dom (reg_clients r)"
    unfolding Assign_Inl_iff by blast
  with reg_wf_dom [OF assms] have "dom (reg_clients r) = candidate r ` set pool" by blast
  then show "card (dom (reg_clients r)) = 253" using card_pool by simp
next
  assume "card (dom (reg_clients r)) = 253"
  then have "dom (reg_clients r) = candidate r ` set pool"
    using card_pool [of r] by (intro card_subset_eq reg_wf_dom assms) auto
  then show "fst (Assign now r name conn) = Inl PoolExhausted"
    unfolding Assign_Inl_iff by blast
qed

section \<open>Looking up\<close>

lemma entries_in_valid:
  assumes "reg_wf r" and "enumerates order r" and "i \<in> set (entries_in r order)"
  shows "i < length (reg_heap r) \<and> reg_clients r (c_ip (reg_heap r ! i)) = Some i"
proof -
  from assms(3) obtain ip where ip: "ip \<in> set order" "i = the (reg_clients r ip)"
    by (auto simp: entries_in_def)
  with assms(2) have "reg_clients r ip = Some i" by (auto simp: enumerates_def)
  with assms(1) show ?thesis by (auto simp: reg_wf_def)
qed

lemma entries_in_complete:
  "enumerates order r \<Longrightarrow> reg_clients r ip = Some i \<Longrightarrow> i \<in> set (entries_in r order)"
  by (force simp: entries_in_def enumerates_def)

text \<open>Whatever the order, the reaper picks exactly the idle clients of the registry.\<close>

lemma StaleConns_iff:
  assumes "reg_wf r" and "enumerates order r"
  shows "x \<in> set (StaleConns order now d r) \<longleftrightarrow>
    (\<exists>ip i. reg_clients r ip = Some i \<and> c_conn (reg_heap r ! i) = x \<and> Stale now d (reg_heap r ! i))"
proof
  assume "x \<in> set (StaleConns order now d r)"
  then obtain i where i: "i \<in> set (entries_in r order)" "c_lastSeen (reg_heap r ! i) < now - d"
    "x = c_conn (reg_heap r ! i)"
    by (auto simp: StaleConns_def)
  with entries_in_valid [OF assms i(1)]
  show "\<exists>ip i. reg_clients r ip = Some i \<and> c_conn (reg_heap r ! i) = x \<and> Stale now d (reg_heap r ! i)"
    by (intro exI [of _ "c_ip (reg_heap r ! i)"] exI [of _ i]) (simp add: Stale_def)
next
  assume "\<exists>ip i. reg_clients r ip = Some i \<and> c_conn (reg_heap r ! i) = x \<and> Stale now d (reg_heap r ! i)"
  then show "x \<in> set (StaleConns order now d r)"
    using entries_in_complete [OF assms(2)] by (auto simp: StaleConns_def Stale_def)
qed

lemma length_Snapshot:
  assumes "enumerates order r"
  shows "length (Snapshot order r) = card (dom (reg_clients r))"
  using assms by (auto simp: Snapshot_def entries_in_def enumerates_def dest: distinct_card)

lemma GetByName_SomeD:
  assumes "reg_wf r" and "enumerates order r" and "GetByName order r name = Some i"
  shows "c_name (reg_heap r ! i) = name \<and> reg_clients r (c_ip (reg_heap r ! i)) = Some i"
  using assms entries_in_valid find_SomeD unfolding GetByName_def by fastforce

lemma GetByName_None_iff:
  assumes "enumerates order r"
  shows "GetByName order r name = None \<longleftrightarrow>
    (\<forall>ip i. reg_clients r ip = Some i \<longrightarrow> c_name (reg_heap r ! i) \<noteq> name)"
  using assms entries_in_complete [OF assms]
  by (auto simp: GetByName_def find_None_iff2 entries_in_def enumerates_def) blast

lemma pool_Cons: "pool = 2 # [3..<255]"
  by (simp add: pool_def upt_conv_Cons del: upt_rec_numeral)

section \<open>Properties\<close>

text \<open>A client gets the lowest address of the pool that nobody has; nobody else's address
  changes, and the registry stays well-formed.\<close>

theorem Assign_lowest_free:
  assumes "reg_wf r" and "Assign now r name conn = (Inr i, r')"
  shows "\<exists>octet. 2 \<le> octet \<and> octet < 255 \<and> GetByIP r (candidate r octet) = None \<and>
    (\<forall>k. 2 \<le> k \<and> k < octet \<longrightarrow> GetByIP r (candidate r k) \<noteq> None) \<and>
    reg_clients r' = (reg_clients r)(candidate r octet \<mapsto> i) \<and>
    c_ip (reg_heap r' ! i) = candidate r octet \<and> c_name (reg_heap r' ! i) = name \<and> reg_wf r'"
proof -
  from assms(2) obtain octet where o: "octet \<in> set pool" "reg_clients r (candidate r octet) = None"
    "\<forall>k\<in>set pool. k < octet \<longrightarrow> reg_clients r (candidate r k) \<noteq> None" "i = length (reg_heap r)"
    "reg_clients r' = (reg_clients r)(candidate r octet \<mapsto> i)"
    "c_ip (reg_heap r' ! i) = candidate r octet" "c_name (reg_heap r' ! i) = name"
    by (rule Assign_Inr) auto
  with reg_wf_Assign [OF assms] show ?thesis
    by (intro exI [of _ octet]) (auto simp: GetByIP_def in_pool_iff)
qed

theorem Assign_lowest_free_witness:
  "\<exists>octet. 2 \<le> octet \<and> octet < 255 \<and> GetByIP (newClientRegistry ''10.8.0'') (candidate (newClientRegistry ''10.8.0'') octet) = None \<and>
    (\<forall>k. 2 \<le> k \<and> k < octet \<longrightarrow> GetByIP (newClientRegistry ''10.8.0'') (candidate (newClientRegistry ''10.8.0'') k) \<noteq> None) \<and>
    reg_clients (snd (Assign 7 (newClientRegistry ''10.8.0'') ''phone'' 4)) =
      (reg_clients (newClientRegistry ''10.8.0''))(candidate (newClientRegistry ''10.8.0'') octet \<mapsto> 0) \<and>
    c_ip (reg_heap (snd (Assign 7 (newClientRegistry ''10.8.0'') ''phone'' 4)) ! 0) =
      candidate (newClientRegistry ''10.8.0'') octet \<and>
    c_name (reg_heap (snd (Assign 7 (newClientRegistry ''10.8.0'') ''phone'' 4)) ! 0) = ''phone'' \<and>
    reg_wf (snd (Assign 7 (newClientRegistry ''10.8.0'') ''phone'' 4))"
proof -
  have "fst (Assign 7 (newClientRegistry ''10.8.0'') ''phone'' 4) = Inr 0"
    by (simp add: Assign_def newClientRegistry_def Let_def pool_Cons del: upt_rec_numeral)
  then have a: "Assign 7 (newClientRegistry ''10.8.0'') ''phone'' 4 =
      (Inr 0, snd (Assign 7 (newClientRegistry ''10.8.0'') ''phone'' 4))"
    by (metis prod.collapse)
  show ?thesis by (rule Assign_lowest_free [OF reg_wf_new a])
qed

text \<open>An address is refused exactly when 253 clients are registered, and never more than
  that are.\<close>

theorem Assign_exhausted_iff:
  assumes "reg_wf r"
  shows "(fst (Assign now r name conn) = Inl PoolExhausted \<longleftrightarrow> card (dom (reg_clients r)) = 253) \<and>
    card (dom (reg_clients r)) \<le> 253"
  using Assign_exhausted_card [OF assms] card_clients_le [OF assms] by blast

theorem Assign_exhausted_iff_witness:
  "fst (Assign 7 (newClientRegistry ''10.8.0'') ''phone'' 4) \<noteq> Inl PoolExhausted"
  using Assign_exhausted_iff [OF reg_wf_new, of 7 "''10.8.0''" "''phone''" 4]
  by (simp add: newClientRegistry_def)

end
