(* ===== verification/GoTime.thy ===== *)
theory GoTime
  imports Json
begin

text \<open>
  The text form of \<open>time.Time\<close> in JSON (RFC 3339 with nanoseconds): \<open>time_text\<close> writes an
  instant in UTC, \<open>parse_time\<close> is the strict parser of \<open>Time.UnmarshalJSON\<close>. An instant counts
  nanoseconds from 1970; \<open>zero_time\<close> is Go's zero \<open>Time\<close>, the start of year 1. A time literal
  that spells its digits as JSON escapes is read as its unescaped text.
\<close>

definition zero_time :: instant where
  "zero_time = - seconds 62135596800"

text \<open>The proleptic Gregorian calendar: day 0 is 1970-01-01.\<close>

definition civil_of_days :: "int \<Rightarrow> int \<times> int \<times> int" where
  "civil_of_days days =
     (let z = days + 719468; era = z div 146097; doe = z mod 146097;
          yoe = (doe - doe div 1460 + doe div 36524 - doe div 146096) div 365;
          doy = doe - (365 * yoe + yoe div 4 - yoe div 100);
          mp = (5 * doy + 2) div 153;
          d = doy - (153 * mp + 2) div 5 + 1;
          m = (if mp < 10 then mp + 3 else mp - 9);
          y = yoe + era * 400 + (if m \<le> 2 then 1 else 0)
      in (y, m, d))"

definition days_of_civil :: "int \<Rightarrow> int \<Rightarrow> int \<Rightarrow> int" where
  "days_of_civil y m d =
     (let y' = (if m \<le> 2 then y - 1 else y); era = y' div 400; yoe = y' mod 400;
          doy = (153 * (if 2 < m then m - 3 else m + 9) + 2) div 5 + d - 1;
          doe = yoe * 365 + yoe div 4 - yoe div 100 + doy
      in era * 146097 + doe - 719468)"

definition is_leap :: "int \<Rightarrow> bool" where
  "is_leap y \<longleftrightarrow> y mod 4 = 0 \<and> (y mod 100 \<noteq> 0 \<or> y mod 400 = 0)"

definition days_in :: "int \<Rightarrow> int \<Rightarrow> int" where
  "days_in y m =
     (if m = 2 then (if is_leap y then 29 else 28)
      else if m \<in> {4, 6, 9, 11} then 30 else 31)"

definition pad_num :: "nat \<Rightarrow> int \<Rightarrow> string" where
  "pad_num w n = (let s = nat_string (nat n) in replicate (w - length s) CHR ''0'' @ s)"

definition frac_text :: "int \<Rightarrow> string" where
  "frac_text ns = (if ns = 0 then [] else CHR ''.'' # TrimRight (pad_num 9 ns) ''0'')"

text \<open>\<open>None\<close> for a year JSON cannot carry.\<close>

definition time_text :: "instant \<Rightarrow> string option" where
  "time_text t =
     (let secs = t div 1000000000; ns = t mod 1000000000;
          (y, m, d) = civil_of_days (secs div 86400); sod = secs mod 86400
      in if y < 0 \<or> 9999 < y then None
         else Some (pad_num 4 y @ ''-'' @ pad_num 2 m @ ''-'' @ pad_num 2 d @ ''T'' @
           pad_num 2 (sod div 3600) @ '':'' @ pad_num 2 (sod div 60 mod 60) @ '':'' @
           pad_num 2 (sod mod 60) @ frac_text ns @ ''Z''))"

text \<open>A field of exactly \<open>w\<close> digits between two bounds, and the rest.\<close>

definition take_num :: "nat \<Rightarrow> int \<Rightarrow> int \<Rightarrow> string \<Rightarrow> (int \<times> string) option" where
  "take_num w lo hi s =
     (if length s < w then None
      else case digits_value 0 (take w s) of
             None \<Rightarrow> None
           | Some n \<Rightarrow> if lo \<le> int n \<and> int n \<le> hi then Some (int n, drop w s) else None)"

definition take_char :: "char \<Rightarrow> string \<Rightarrow> string option" where
  "take_char c s = (if HasPrefix s [c] then Some (tl s) else None)"

definition take_frac :: "string \<Rightarrow> int \<times> string" where
  "take_frac s =
     (let ds = takeWhile is_digit (tl s)
      in if HasPrefix s ''.'' \<and> ds \<noteq> []
         then (int (the (digits_value 0 (take 9 (ds @ replicate 9 CHR ''0'')))), drop (Suc (length ds)) s)
         else (0, s))"

definition take_zone :: "string \<Rightarrow> int option" where
  "take_zone s =
     (if s = ''Z'' then Some 0
      else if length s = 6 \<and> (HasPrefix s ''+'' \<or> HasPrefix s ''-'') \<and> s ! 3 = CHR '':'' then
        (case (take_num 2 0 23 (take 2 (drop 1 s)), take_num 2 0 59 (drop 4 s)) of
           (Some (h, _), Some (m, _)) \<Rightarrow>
             Some ((if HasPrefix s ''-'' then -1 else 1) * (h * 3600 + m * 60))
         | _ \<Rightarrow> None)
      else None)"

definition parse_time :: "string \<Rightarrow> instant option" where
  "parse_time s =
     Option.bind (take_num 4 0 9999 s) (\<lambda>(y, s).
     Option.bind (take_char CHR ''-'' s) (\<lambda>s.
     Option.bind (take_num 2 1 12 s) (\<lambda>(m, s).
     Option.bind (take_char CHR ''-'' s) (\<lambda>s.
     Option.bind (take_num 2 1 (days_in y m) s) (\<lambda>(d, s).
     Option.bind (take_char CHR ''T'' s) (\<lambda>s.
     Option.bind (take_num 2 0 23 s) (\<lambda>(hh, s).
     Option.bind (take_char CHR '':'' s) (\<lambda>s.
     Option.bind (take_num 2 0 59 s) (\<lambda>(mi, s).
     Option.bind (take_char CHR '':'' s) (\<lambda>s.
     Option.bind (take_num 2 0 59 s) (\<lambda>(ss, s).
     let (ns, s') = take_frac s
     in map_option (\<lambda>off.
          seconds (86400 * days_of_civil y m d + 3600 * hh + 60 * mi + ss - off) + ns)
          (take_zone s'))))))))))))"

text \<open>A \<open>time.Time\<close> field.\<close>

definition dec_time :: "json \<Rightarrow> instant \<Rightarrow> instant \<times> bool" where
  "dec_time v old =
     (case v of
        JNull \<Rightarrow> (old, True)
      | JStr s \<Rightarrow> (case parse_time s of None \<Rightarrow> (old, False) | Some t \<Rightarrow> (t, True))
      | _ \<Rightarrow> (old, False))"

definition json_time :: "instant \<Rightarrow> json option" where
  "json_time t = map_option JStr (time_text t)"

text \<open>An instant whose text reads back.\<close>

definition time_reads :: "instant \<Rightarrow> bool" where
  "time_reads t \<longleftrightarrow> (case time_text t of None \<Rightarrow> False | Some s \<Rightarrow> utf8_valid s \<and> parse_time s = Some t)"

section \<open>Indented JSON\<close>

text \<open>\<open>json.MarshalIndent(v, "", "  ")\<close>: members and elements on lines of their own.\<close>

definition newline_indent :: "nat \<Rightarrow> string" where
  "newline_indent n = CHR 0x0A # replicate (2 * n) CHR '' ''"

fun render_indent :: "nat \<Rightarrow> json \<Rightarrow> string" where
  "render_indent n (JArr []) = ''[]''"
| "render_indent n (JObj []) = [CHR 0x7B, CHR 0x7D]"
| "render_indent n (JArr (v # vs)) =
     ''['' @ newline_indent (Suc n) @
     join_with ('','' @ newline_indent (Suc n)) (map (render_indent (Suc n)) (v # vs)) @
     newline_indent n @ '']''"
| "render_indent n (JObj (m # ms)) =
     [CHR 0x7B] @ newline_indent (Suc n) @
     join_with ('','' @ newline_indent (Suc n))
       (map (\<lambda>(k, v). quote_str k @ '': '' @ render_indent (Suc n) v) (m # ms)) @
     newline_indent n @ [CHR 0x7D]"
| "render_indent n v = render v"

end
