(* ===== verification/Stores.thy ===== *)
theory Stores
  imports GoNet GoTime
begin

text \<open>
  The three managers that keep a slice of named entries in a JSON file:
  \<open>internal/server/whitelist.go\<close>, the \<open>ForwardsManager\<close> of \<open>internal/server/direct.go\<close>
  and \<open>internal/server/sshkeys.go\<close>. They share the shape the locale \<open>keyed_store\<close> states
  (an addition is refused or appends one entry whose key is new, a removal cuts out the first
  entry of a key); the locale derives what that means for keys and lookups, and is interpreted
  on each manager's own insertion and deletion. \<open>ssh.ParseAuthorizedKey\<close>,
  \<open>ssh.FingerprintSHA256\<close> and \<open>rsa.GenerateKey\<close> are arguments where the code calls them.
\<close>

section \<open>Stores keyed by a field\<close>

locale keyed_store =
  fixes entries :: "'s \<Rightarrow> 'e list"
    and key :: "'e \<Rightarrow> 'k"
    and insert_entry :: "'s \<Rightarrow> 'e \<Rightarrow> 's option"
    and delete_key :: "'s \<Rightarrow> 'k \<Rightarrow> 's option"
  assumes insert_Some: "insert_entry s e = Some s' \<Longrightarrow>
      entries s' = entries s @ [e] \<and> key e \<notin> key ` set (entries s)"
    and delete_Some: "delete_key s k = Some s' \<Longrightarrow>
      remove_first (\<lambda>e. key e = k) (entries s) = Some (entries s')"
    and delete_None: "delete_key s k = None \<longleftrightarrow> k \<notin> key ` set (entries s)"
begin

definition keys_distinct :: "'s \<Rightarrow> bool" where
  "keys_distinct s \<longleftrightarrow> distinct (map key (entries s))"

definition lookup :: "'s \<Rightarrow> 'k \<Rightarrow> 'e option" where
  "lookup s k = find (\<lambda>e. key e = k) (entries s)"

lemma keys_distinct_insert: "keys_distinct s \<Longrightarrow> insert_entry s e = Some s' \<Longrightarrow> keys_distinct s'"
  using insert_Some [of s e s'] by (auto simp: keys_distinct_def)

lemma keys_distinct_delete: "keys_distinct s \<Longrightarrow> delete_key s k = Some s' \<Longrightarrow> keys_distinct s'"
  using delete_Some [of s k s'] remove_first_distinct_key [of key k "entries s" "entries s'"]
  by (simp add: keys_distinct_def)

lemma lookup_None_iff: "lookup s k = None \<longleftrightarrow> k \<notin> key ` set (entries s)"
  by (auto simp: lookup_def find_None_iff2)

lemma lookup_insert:
  assumes "insert_entry s e = Some s'"
  shows "lookup s' k = (if k = key e then Some e else lookup s k)"
proof -
  from insert_Some [OF assms] have s': "entries s' = entries s @ [e]" and "key e \<notin> key ` set (entries s)"
    by auto
  then have "lookup s (key e) = None" by (simp add: lookup_None_iff)
  with s' show ?thesis by (auto simp: lookup_def find_append split: option.splits)
qed

lemma lookup_delete:
  assumes "keys_distinct s" and "delete_key s k = Some s'"
  shows "lookup s' j = (if j = k then None else lookup s j)"
proof -
  from remove_first_SomeD [OF delete_Some [OF assms(2)]] obtain us e vs where
    d: "entries s = us @ e # vs" "entries s' = us @ vs" "key e = k" "\<forall>u\<in>set us. key u \<noteq> k"
    by blast
  have "\<forall>v\<in>set vs. key v \<noteq> k"
    using assms(1) d(1,3) by (auto simp: keys_distinct_def image_iff)
  with d(4) have gone: "find (\<lambda>x. key x = k) (us @ vs) = None"
    by (auto simp: find_None_iff2)
  show ?thesis
  proof (cases "j = k")
    case True
    with gone d(2) show ?thesis by (simp add: lookup_def)
  next
    case False
    with d(1-3) show ?thesis by (auto simp: lookup_def find_append split: option.splits)
  qed
qed

lemma delete_undoes_insert:
  assumes "insert_entry s e = Some s'" and "delete_key s' (key e) = Some s''"
  shows "entries s'' = entries s"
proof -
  from insert_Some [OF assms(1)] have s': "entries s' = entries s @ [e]"
    and new: "\<forall>x\<in>set (entries s). key x \<noteq> key e" by (auto simp: image_iff)
  have "remove_first (\<lambda>x. key x = key e) (entries s @ e # []) = Some (entries s @ [])"
    using new by (intro remove_first_append) auto
  with delete_Some [OF assms(2)] s' show ?thesis by simp
qed

lemma insert_deletable: "insert_entry s e = Some s' \<Longrightarrow> delete_key s' (key e) \<noteq> None"
  using insert_Some [of s e s'] delete_None [of s' "key e"] by auto

end

section \<open>Files of entries\<close>

datatype load_error = ReadError os_error | ParseError

text \<open>A JSON array into a slice; \<open>null\<close> is the nil slice.\<close>

definition dec_list ::
    "(string \<Rightarrow> json \<Rightarrow> 'r \<Rightarrow> 'r \<times> bool) \<Rightarrow> 'r \<Rightarrow> json \<Rightarrow> 'r list option" where
  "dec_list upd zero v =
     (case v of
        JNull \<Rightarrow> Some []
      | JArr vs \<Rightarrow>
          (let rs = map (\<lambda>v. dec_struct upd v zero) vs
           in if list_all snd rs then Some (map fst rs) else None)
      | _ \<Rightarrow> None)"

definition load_entries ::
    "(string \<Rightarrow> json \<Rightarrow> 'r \<Rightarrow> 'r \<times> bool) \<Rightarrow> 'r \<Rightarrow> filesys \<Rightarrow> string \<Rightarrow> load_error + 'r list" where
  "load_entries upd zero fs path =
     (case ReadFile fs path of
        Inl e \<Rightarrow> if IsNotExist e then Inr [] else Inl (ReadError e)
      | Inr d \<Rightarrow>
          (case Option.bind (parse_json d) (dec_list upd zero) of
             None \<Rightarrow> Inl ParseError
           | Some es \<Rightarrow> Inr es))"

text \<open>What makes a save fail: a value JSON cannot carry, or the write.\<close>

datatype save_error = MarshalError | WriteError os_error

definition save_entries ::
    "('r \<Rightarrow> json option) \<Rightarrow> filesys \<Rightarrow> string \<Rightarrow> 'r list \<Rightarrow> filesys \<times> save_error option" where
  "save_entries enc fs path es =
     (case those (map enc es) of
        None \<Rightarrow> (fs, Some MarshalError)
      | Some vs \<Rightarrow>
          (let (fs', e) = WriteFile fs path (render_indent 0 (JArr vs))
           in (fs', map_option WriteError e)))"

section \<open>The whitelist\<close>

record whitelist_entry =
  we_Name :: string
  we_IP :: string
  we_CreatedAt :: instant

record whitelist =
  wm_path :: string
  wm_entries :: "whitelist_entry list"

datatype whitelist_error =
    WlInvalidIP string
  | WlNameExists string
  | WlIPExists string string
  | WlNotFound string
  | WlSave save_error

definition mem_whitelist_entry ::
    "string \<Rightarrow> json \<Rightarrow> whitelist_entry \<Rightarrow> whitelist_entry \<times> bool" where
  "mem_whitelist_entry k v e =
     (if key_is k ''name'' then
        (let (s, ok) = dec_string v (we_Name e) in (e\<lparr>we_Name := s\<rparr>, ok))
      else if key_is k ''ip'' then
        (let (s, ok) = dec_string v (we_IP e) in (e\<lparr>we_IP := s\<rparr>, ok))
      else if key_is k ''created_at'' then
        (let (t, ok) = dec_time v (we_CreatedAt e) in (e\<lparr>we_CreatedAt := t\<rparr>, ok))
      else (e, True))"

definition json_whitelist_entry :: "whitelist_entry \<Rightarrow> json option" where
  "json_whitelist_entry e =
     map_option (\<lambda>t. JObj [(''name'', JStr (we_Name e)), (''ip'', JStr (we_IP e)), (''created_at'', t)])
       (json_time (we_CreatedAt e))"

definition NewWhitelistManager :: "filesys \<Rightarrow> string \<Rightarrow> load_error + whitelist" where
  "NewWhitelistManager fs path =
     (case load_entries mem_whitelist_entry
             \<lparr>we_Name = [], we_IP = [], we_CreatedAt = zero_time\<rparr> fs path of
        Inl e \<Rightarrow> Inl e
      | Inr es \<Rightarrow> Inr \<lparr>wm_path = path, wm_entries = es\<rparr>)"

definition wl_save :: "filesys \<Rightarrow> whitelist \<Rightarrow> filesys \<times> save_error option" where
  "wl_save fs wm = save_entries json_whitelist_entry fs (wm_path wm) (wm_entries wm)"

definition ip_or_cidr :: "string \<Rightarrow> bool" where
  "ip_or_cidr s \<longleftrightarrow> ParseIP s \<noteq> None \<or> ParseCIDR s \<noteq> None"

fun wl_conflict :: "string \<Rightarrow> string \<Rightarrow> whitelist_entry list \<Rightarrow> whitelist_error option" where
  "wl_conflict name ip [] = None"
| "wl_conflict name ip (e # es) =
     (if we_Name e = name then Some (WlNameExists name)
      else if we_IP e = ip then Some (WlIPExists ip (we_Name e))
      else wl_conflict name ip es)"

definition wl_Add ::
    "filesys \<Rightarrow> instant \<Rightarrow> whitelist \<Rightarrow> string \<Rightarrow> string \<Rightarrow> whitelist \<times> filesys \<times> whitelist_error option"
where
  "wl_Add fs now wm name ip =
     (if \<not> ip_or_cidr ip then (wm, fs, Some (WlInvalidIP ip))
      else case wl_conflict name ip (wm_entries wm) of
             Some e \<Rightarrow> (wm, fs, Some e)
           | None \<Rightarrow>
               let wm' = wm\<lparr>wm_entries := wm_entries wm @
                     [\<lparr>we_Name = name, we_IP = ip, we_CreatedAt = now\<rparr>]\<rparr>;
                   (fs', e) = wl_save fs wm'
               in (wm', fs', map_option WlSave e))"

definition wl_Remove ::
    "filesys \<Rightarrow> whitelist \<Rightarrow> string \<Rightarrow> whitelist \<times> filesys \<times> whitelist_error option" where
  "wl_Remove fs wm name =
     (case remove_first (\<lambda>e. we_Name e = name) (wm_entries wm) of
        None \<Rightarrow> (wm, fs, Some (WlNotFound name))
      | Some es \<Rightarrow>
          let wm' = wm\<lparr>wm_entries := es\<rparr>; (fs', e) = wl_save fs wm'
          in (wm', fs', map_option WlSave e))"

definition wl_List :: "whitelist \<Rightarrow> whitelist_entry list" where
  "wl_List wm = wm_entries wm"

definition IPForName :: "whitelist \<Rightarrow> string \<Rightarrow> string" where
  "IPForName wm name =
     (case find (\<lambda>e. we_Name e = name) (wm_entries wm) of None \<Rightarrow> [] | Some e \<Rightarrow> we_IP e)"

text \<open>One turn of the loop of \<open>Contains\<close>: does the entry match the address?\<close>

definition entry_matches :: "ip \<Rightarrow> whitelist_entry \<Rightarrow> bool" where
  "entry_matches a e =
     (case ParseIP (we_IP e) of
        Some entryIP \<Rightarrow> ip_Equal entryIP a
      | None \<Rightarrow>
          (case ParseCIDR (we_IP e) of
             Some (_, cidr) \<Rightarrow> net_Contains cidr a
           | None \<Rightarrow> False))"

definition wl_Contains :: "whitelist \<Rightarrow> string \<Rightarrow> string option" where
  "wl_Contains wm remoteIP =
     (case ParseIP remoteIP of
        None \<Rightarrow> None
      | Some a \<Rightarrow> map_option we_Name (find (entry_matches a) (wm_entries wm)))"

text \<open>The state changes of \<open>Add\<close> and \<open>Remove\<close>, whatever the save does.\<close>

definition wl_insert :: "whitelist \<Rightarrow> whitelist_entry \<Rightarrow> whitelist option" where
  "wl_insert wm e =
     (if ip_or_cidr (we_IP e) \<and> wl_conflict (we_Name e) (we_IP e) (wm_entries wm) = None
      then Some (wm\<lparr>wm_entries := wm_entries wm @ [e]\<rparr>) else None)"

definition wl_delete :: "whitelist \<Rightarrow> string \<Rightarrow> whitelist option" where
  "wl_delete wm name =
     map_option (\<lambda>es. wm\<lparr>wm_entries := es\<rparr>) (remove_first (\<lambda>e. we_Name e = name) (wm_entries wm))"

lemma wl_conflict_None_iff:
  "wl_conflict name ip es = None \<longleftrightarrow> name \<notin> we_Name ` set es \<and> ip \<notin> we_IP ` set es"
  by (induction es) auto

lemma wl_Add_state:
  "fst (wl_Add fs now wm name ip) =
     (case wl_insert wm \<lparr>we_Name = name, we_IP = ip, we_CreatedAt = now\<rparr> of
        None \<Rightarrow> wm | Some wm' \<Rightarrow> wm')"
  by (auto simp: wl_Add_def wl_insert_def Let_def split: option.splits prod.splits)

lemma wl_Remove_state:
  "fst (wl_Remove fs wm name) = (case wl_delete wm name of None \<Rightarrow> wm | Some wm' \<Rightarrow> wm')"
  by (auto simp: wl_Remove_def wl_delete_def Let_def split: option.splits prod.splits)

interpretation wl: keyed_store wm_entries we_Name wl_insert wl_delete
proof
  fix wm e wm'
  assume "wl_insert wm e = Some wm'"
  then show "wm_entries wm' = wm_entries wm @ [e] \<and> we_Name e \<notin> we_Name ` set (wm_entries wm)"
    by (auto simp: wl_insert_def wl_conflict_None_iff split: if_splits)
qed (auto simp: wl_delete_def remove_first_None_iff)

definition wl_wf :: "whitelist \<Rightarrow> bool" where
  "wl_wf wm \<longleftrightarrow>
     distinct (map we_Name (wm_entries wm)) \<and> distinct (map we_IP (wm_entries wm)) \<and>
     list_all (\<lambda>e. ip_or_cidr (we_IP e)) (wm_entries wm)"

lemma wl_wf_insert:
  "wl_wf wm \<Longrightarrow> wl_insert wm e = Some wm' \<Longrightarrow> wl_wf wm'"
  by (auto simp: wl_wf_def wl_insert_def wl_conflict_None_iff split: if_splits)

lemma wl_wf_delete: "wl_wf wm \<Longrightarrow> wl_delete wm name = Some wm' \<Longrightarrow> wl_wf wm'"
  by (auto simp: wl_wf_def wl_delete_def dest!: remove_first_SomeD)

lemma wl_wf_Add [inv_intros]:
  "wl_wf wm \<Longrightarrow> wl_Add fs now wm name ip = (wm', fs', e) \<Longrightarrow> wl_wf wm'"
  using wl_Add_state [of fs now wm name ip] wl_wf_insert by (auto split: option.splits)

lemma wl_wf_Remove [inv_intros]:
  "wl_wf wm \<Longrightarrow> wl_Remove fs wm name = (wm', fs', e) \<Longrightarrow> wl_wf wm'"
  using wl_Remove_state [of fs wm name] wl_wf_delete by (auto split: option.splits)

lemma wl_Contains_None_iff:
  "wl_Contains wm remote = None \<longleftrightarrow>
     (\<forall>a. ParseIP remote = Some a \<longrightarrow> (\<forall>e\<in>set (wm_entries wm). \<not> entry_matches a e))"
  by (auto simp: wl_Contains_def find_None_iff2 split: option.splits)

lemma wl_Contains_SomeD:
  "wl_Contains wm remote = Some name \<Longrightarrow>
     \<exists>a e. ParseIP remote = Some a \<and> e \<in> set (wm_entries wm) \<and> entry_matches a e \<and> we_Name e = name"
  by (auto simp: wl_Contains_def split: option.splits dest!: find_SomeD)

section \<open>Direct forwards\<close>

record direct_forward =
  df_ListenPort :: int
  df_Target :: string
  df_CreatedAt :: instant

record forwards =
  fm_path :: string
  fm_entries :: "direct_forward list"

datatype forward_error =
    FwInvalidPort int
  | FwInvalidTarget string
  | FwPortTaken int string
  | FwNotFound int
  | FwSave save_error

text \<open>An \<open>int\<close> field.\<close>

definition dec_int :: "json \<Rightarrow> int \<Rightarrow> int \<times> bool" where
  "dec_int v old =
     (case v of
        JNum w \<Rightarrow> (case Atoi w of Some i \<Rightarrow> (i, True) | None \<Rightarrow> (old, False))
      | JNull \<Rightarrow> (old, True)
      | _ \<Rightarrow> (old, False))"

definition mem_direct_forward ::
    "string \<Rightarrow> json \<Rightarrow> direct_forward \<Rightarrow> direct_forward \<times> bool" where
  "mem_direct_forward k v e =
     (if key_is k ''listen_port'' then
        (let (n, ok) = dec_int v (df_ListenPort e) in (e\<lparr>df_ListenPort := n\<rparr>, ok))
      else if key_is k ''target'' then
        (let (s, ok) = dec_string v (df_Target e) in (e\<lparr>df_Target := s\<rparr>, ok))
      else if key_is k ''created_at'' then
        (let (t, ok) = dec_time v (df_CreatedAt e) in (e\<lparr>df_CreatedAt := t\<rparr>, ok))
      else (e, True))"

definition json_direct_forward :: "direct_forward \<Rightarrow> json option" where
  "json_direct_forward e =
     map_option (\<lambda>t. JObj [(''listen_port'', JNum (Itoa (df_ListenPort e))),
                           (''target'', JStr (df_Target e)), (''created_at'', t)])
       (json_time (df_CreatedAt e))"

definition NewForwardsManager :: "filesys \<Rightarrow> string \<Rightarrow> load_error + forwards" where
  "NewForwardsManager fs path =
     (case load_entries mem_direct_forward
             \<lparr>df_ListenPort = 0, df_Target = [], df_CreatedAt = zero_time\<rparr> fs path of
        Inl e \<Rightarrow> Inl e
      | Inr es \<Rightarrow> Inr \<lparr>fm_path = path, fm_entries = es\<rparr>)"

definition fw_save :: "filesys \<Rightarrow> forwards \<Rightarrow> filesys \<times> save_error option" where
  "fw_save fs fm = save_entries json_direct_forward fs (fm_path fm) (fm_entries fm)"

definition fw_Add ::
    "filesys \<Rightarrow> instant \<Rightarrow> forwards \<Rightarrow> int \<Rightarrow> string \<Rightarrow> forwards \<times> filesys \<times> forward_error option"
where
  "fw_Add fs now fm listenPort target =
     (if listenPort < 1 \<or> 65535 < listenPort then (fm, fs, Some (FwInvalidPort listenPort))
      else if SplitHostPort target = None then (fm, fs, Some (FwInvalidTarget target))
      else case find (\<lambda>e. df_ListenPort e = listenPort) (fm_entries fm) of
             Some e \<Rightarrow> (fm, fs, Some (FwPortTaken listenPort (df_Target e)))
           | None \<Rightarrow>
               let fm' = fm\<lparr>fm_entries := fm_entries fm @
                     [\<lparr>df_ListenPort = listenPort, df_Target = target, df_CreatedAt = now\<rparr>]\<rparr>;
                   (fs', e) = fw_save fs fm'
               in (fm', fs', map_option FwSave e))"

definition fw_Remove ::
    "filesys \<Rightarrow> forwards \<Rightarrow> int \<Rightarrow> forwards \<times> filesys \<times> forward_error option" where
  "fw_Remove fs fm listenPort =
     (case remove_first (\<lambda>e. df_ListenPort e = listenPort) (fm_entries fm) of
        None \<Rightarrow> (fm, fs, Some (FwNotFound listenPort))
      | Some es \<Rightarrow>
          let fm' = fm\<lparr>fm_entries := es\<rparr>; (fs', e) = fw_save fs fm'
          in (fm', fs', map_option FwSave e))"

definition fw_List :: "forwards \<Rightarrow> direct_forward list" where
  "fw_List fm = fm_entries fm"

definition forward_ok :: "direct_forward \<Rightarrow> bool" where
  "forward_ok e \<longleftrightarrow> 1 \<le> df_ListenPort e \<and> df_ListenPort e \<le> 65535 \<and> SplitHostPort (df_Target e) \<noteq> None"

definition fw_insert :: "forwards \<Rightarrow> direct_forward \<Rightarrow> forwards option" where
  "fw_insert fm e =
     (if forward_ok e \<and> df_ListenPort e \<notin> df_ListenPort ` set (fm_entries fm)
      then Some (fm\<lparr>fm_entries := fm_entries fm @ [e]\<rparr>) else None)"

definition fw_delete :: "forwards \<Rightarrow> int \<Rightarrow> forwards option" where
  "fw_delete fm port =
     map_option (\<lambda>es. fm\<lparr>fm_entries := es\<rparr>)
       (remove_first (\<lambda>e. df_ListenPort e = port) (fm_entries fm))"

lemma fw_Add_state:
  "fst (fw_Add fs now fm port target) =
     (case fw_insert fm \<lparr>df_ListenPort = port, df_Target = target, df_CreatedAt = now\<rparr> of
        None \<Rightarrow> fm | Some fm' \<Rightarrow> fm')"
proof (cases "find (\<lambda>e. df_ListenPort e = port) (fm_entries fm)")
  case None
  then have "port \<notin> df_ListenPort ` set (fm_entries fm)" by (auto simp: find_None_iff2)
  with None show ?thesis
    by (auto simp: fw_Add_def fw_insert_def forward_ok_def Let_def split: prod.splits)
next
  case (Some e)
  then have "port \<in> df_ListenPort ` set (fm_entries fm)" by (auto dest!: find_SomeD)
  with Some show ?thesis by (simp add: fw_Add_def fw_insert_def)
qed

lemma fw_Remove_state:
  "fst (fw_Remove fs fm port) = (case fw_delete fm port of None \<Rightarrow> fm | Some fm' \<Rightarrow> fm')"
  by (auto simp: fw_Remove_def fw_delete_def Let_def split: option.splits prod.splits)

interpretation fw: keyed_store fm_entries df_ListenPort fw_insert fw_delete
  by unfold_locales
     (auto simp: fw_insert_def fw_delete_def remove_first_None_iff split: if_splits)

definition fw_wf :: "forwards \<Rightarrow> bool" where
  "fw_wf fm \<longleftrightarrow> distinct (map df_ListenPort (fm_entries fm)) \<and> list_all forward_ok (fm_entries fm)"

lemma fw_wf_Add [inv_intros]:
  "fw_wf fm \<Longrightarrow> fw_Add fs now fm port target = (fm', fs', e) \<Longrightarrow> fw_wf fm'"
  using fw_Add_state [of fs now fm port target]
  by (auto simp: fw_wf_def fw_insert_def split: option.splits if_splits)

lemma fw_wf_Remove [inv_intros]:
  "fw_wf fm \<Longrightarrow> fw_Remove fs fm port = (fm', fs', e) \<Longrightarrow> fw_wf fm'"
  using fw_Remove_state [of fs fm port]
  by (auto simp: fw_wf_def fw_delete_def split: option.splits dest!: remove_first_SomeD)

section \<open>SSH keys\<close>

record ssh_key_entry =
  sk_Name :: string
  sk_PublicKey :: string
  sk_CreatedAt :: instant

record ssh_keys =
  sm_path :: string
  sm_entries :: "ssh_key_entry list"

datatype ssh_key_error =
    SkInvalidKey
  | SkNameExists string
  | SkNotFound string
  | SkGenerate string
  | SkSave save_error

definition mem_ssh_key_entry :: "string \<Rightarrow> json \<Rightarrow> ssh_key_entry \<Rightarrow> ssh_key_entry \<times> bool" where
  "mem_ssh_key_entry k v e =
     (if key_is k ''name'' then
        (let (s, ok) = dec_string v (sk_Name e) in (e\<lparr>sk_Name := s\<rparr>, ok))
      else if key_is k ''public_key'' then
        (let (s, ok) = dec_string v (sk_PublicKey e) in (e\<lparr>sk_PublicKey := s\<rparr>, ok))
      else if key_is k ''created_at'' then
        (let (t, ok) = dec_time v (sk_CreatedAt e) in (e\<lparr>sk_CreatedAt := t\<rparr>, ok))
      else (e, True))"

definition json_ssh_key_entry :: "ssh_key_entry \<Rightarrow> json option" where
  "json_ssh_key_entry e =
     map_option (\<lambda>t. JObj [(''name'', JStr (sk_Name e)), (''public_key'', JStr (sk_PublicKey e)),
                           (''created_at'', t)])
       (json_time (sk_CreatedAt e))"

definition NewSSHKeysManager :: "filesys \<Rightarrow> string \<Rightarrow> load_error + ssh_keys" where
  "NewSSHKeysManager fs path =
     (case load_entries mem_ssh_key_entry
             \<lparr>sk_Name = [], sk_PublicKey = [], sk_CreatedAt = zero_time\<rparr> fs path of
        Inl e \<Rightarrow> Inl e
      | Inr es \<Rightarrow> Inr \<lparr>sm_path = path, sm_entries = es\<rparr>)"

definition sk_save :: "filesys \<Rightarrow> ssh_keys \<Rightarrow> filesys \<times> save_error option" where
  "sk_save fs m = save_entries json_ssh_key_entry fs (sm_path m) (sm_entries m)"

text \<open>\<open>parse\<close> is \<open>ssh.ParseAuthorizedKey\<close>: the key of a line, if it has one.\<close>

definition sk_Add ::
    "(string \<Rightarrow> 'key option) \<Rightarrow> filesys \<Rightarrow> instant \<Rightarrow> ssh_keys \<Rightarrow> string \<Rightarrow> string \<Rightarrow>
     ssh_keys \<times> filesys \<times> ssh_key_error option" where
  "sk_Add parse fs now m name publicKey =
     (if parse publicKey = None then (m, fs, Some SkInvalidKey)
      else if list_ex (\<lambda>e. sk_Name e = name) (sm_entries m) then (m, fs, Some (SkNameExists name))
      else let m' = m\<lparr>sm_entries := sm_entries m @
                 [\<lparr>sk_Name = name, sk_PublicKey = publicKey, sk_CreatedAt = now\<rparr>]\<rparr>;
               (fs', e) = sk_save fs m'
           in (m', fs', map_option SkSave e))"

definition sk_Remove ::
    "filesys \<Rightarrow> ssh_keys \<Rightarrow> string \<Rightarrow> ssh_keys \<times> filesys \<times> ssh_key_error option" where
  "sk_Remove fs m name =
     (case remove_first (\<lambda>e. sk_Name e = name) (sm_entries m) of
        None \<Rightarrow> (m, fs, Some (SkNotFound name))
      | Some es \<Rightarrow>
          let m' = m\<lparr>sm_entries := es\<rparr>; (fs', e) = sk_save fs m'
          in (m', fs', map_option SkSave e))"

definition sk_List :: "ssh_keys \<Rightarrow> ssh_key_entry list" where
  "sk_List m = sm_entries m"

text \<open>\<open>gen\<close> is what the key generator delivers: an error, or the line of the public key and the
  PEM text of the private key.\<close>

definition sk_Generate ::
    "(string \<Rightarrow> 'key option) \<Rightarrow> (string + string \<times> string) \<Rightarrow> filesys \<Rightarrow> instant \<Rightarrow> ssh_keys \<Rightarrow>
     string \<Rightarrow> ssh_keys \<times> filesys \<times> (ssh_key_error + string)" where
  "sk_Generate parse gen fs now m name =
     (case gen of
        Inl err \<Rightarrow> (m, fs, Inl (SkGenerate err))
      | Inr (pubLine, pem) \<Rightarrow>
          (case sk_Add parse fs now m name pubLine of
             (m', fs', Some e) \<Rightarrow> (m', fs', Inl e)
           | (m', fs', None) \<Rightarrow> (m', fs', Inr pem)))"

definition FindKey :: "(string \<Rightarrow> 'key option) \<Rightarrow> ('key \<Rightarrow> string) \<Rightarrow> ssh_keys \<Rightarrow> 'key \<Rightarrow> string option"
where
  "FindKey parse fingerprint m k =
     map_option sk_Name
       (find (\<lambda>e. case parse (sk_PublicKey e) of
                    None \<Rightarrow> False
                  | Some k' \<Rightarrow> fingerprint k' = fingerprint k) (sm_entries m))"

definition sk_insert :: "ssh_keys \<Rightarrow> ssh_key_entry \<Rightarrow> ssh_keys option" where
  "sk_insert m e =
     (if list_ex (\<lambda>x. sk_Name x = sk_Name e) (sm_entries m) then None
      else Some (m\<lparr>sm_entries := sm_entries m @ [e]\<rparr>))"

definition sk_delete :: "ssh_keys \<Rightarrow> string \<Rightarrow> ssh_keys option" where
  "sk_delete m name =
     map_option (\<lambda>es. m\<lparr>sm_entries := es\<rparr>) (remove_first (\<lambda>e. sk_Name e = name) (sm_entries m))"

interpretation sk: keyed_store sm_entries sk_Name sk_insert sk_delete
  by unfold_locales
     (auto simp: sk_insert_def sk_delete_def remove_first_None_iff list_ex_iff split: if_splits)

lemma sk_Add_state:
  "fst (sk_Add parse fs now m name pk) =
     (if parse pk = None then m
      else case sk_insert m \<lparr>sk_Name = name, sk_PublicKey = pk, sk_CreatedAt = now\<rparr> of
             None \<Rightarrow> m | Some m' \<Rightarrow> m')"
  by (auto simp: sk_Add_def sk_insert_def Let_def split: prod.splits)

lemma sk_Remove_state:
  "fst (sk_Remove fs m name) = (case sk_delete m name of None \<Rightarrow> m | Some m' \<Rightarrow> m')"
  by (auto simp: sk_Remove_def sk_delete_def Let_def split: option.splits prod.splits)

lemma FindKey_SomeD:
  "FindKey parse fp m k = Some name \<Longrightarrow>
     \<exists>e k'. e \<in> set (sm_entries m) \<and> sk_Name e = name \<and> parse (sk_PublicKey e) = Some k' \<and> fp k' = fp k"
  by (auto simp: FindKey_def split: option.splits dest!: find_SomeD)

text \<open>A key that was registered is found again, under the name of the first entry of its
  fingerprint.\<close>

lemma FindKey_registered:
  assumes "e \<in> set (sm_entries m)" and "parse (sk_PublicKey e) = Some k"
  shows "FindKey parse fp m k \<noteq> None"
  using assms by (simp add: FindKey_def find_None_iff2) (rule bexI [of _ e]; simp)

section \<open>Properties\<close>

text \<open>An IPv4 address is on the whitelist after \<open>Add\<close> of a CIDR range exactly when it was before
  or agrees with the range on the bits of the mask.\<close>

theorem wl_Add_range:
  assumes "wl_Add fs now wm name (dotted b @ ''/'' @ nat_string n) = (wm', fs', None)"
    and "length b = 4" and "n \<le> 32" and "length a = 4"
  shows "wl_Contains wm' (dotted a) \<noteq> None \<longleftrightarrow>
    wl_Contains wm (dotted a) \<noteq> None \<or>
    map2 (AND) a (CIDRMask n 32) = map2 (AND) b (CIDRMask n 32)"
proof -
  let ?cidr = "dotted b @ ''/'' @ nat_string n" and ?m = "CIDRMask n 32"
  let ?e = "\<lparr>we_Name = name, we_IP = ?cidr, we_CreatedAt = now\<rparr>"
  have wm': "wm_entries wm' = wm_entries wm @ [?e]"
    using assms(1) by (auto simp: wl_Add_def Let_def split: if_splits option.splits prod.splits)
  have m: "length ?m = 4" by (simp add: CIDRMask_def)
  have nip: "length (map2 (AND) b ?m) = 4" using assms(2) m by simp
  have "ParseIP ?cidr = None" using ParseIP_dotted_mask [OF assms(2)] by simp
  then have "entry_matches (v4_prefix @ a) ?e \<longleftrightarrow>
      net_Contains \<lparr>net_IP = map2 (AND) b ?m, net_Mask = ?m\<rparr> (v4_prefix @ a)"
    using ParseCIDR_dotted [OF assms(2,3)] ip_Mask_mapped [OF assms(2) m]
    by (simp add: entry_matches_def)
  also have "\<dots> \<longleftrightarrow> map2 (AND) (map2 (AND) b ?m) ?m = map2 (AND) a ?m"
    using net_Contains_To4 [OF To4_mapped [OF assms(4)] nip m] .
  also have "\<dots> \<longleftrightarrow> map2 (AND) a ?m = map2 (AND) b ?m"
    by (auto simp: mask_and_idem)
  finally show ?thesis
    using assms(4) by (simp add: wl_Contains_def wm' find_append split: option.splits)
qed

lemma zero_time_json: "\<exists>v. json_time zero_time = Some v"
proof -
  have "json_time zero_time \<noteq> None" by code_simp
  then show ?thesis by auto
qed

theorem wl_Add_range_witness:
  "wl_Contains (fst (wl_Add (healthy_fs Map.empty) zero_time \<lparr>wm_path = ''w'', wm_entries = []\<rparr> ''office''
     (dotted [10, 1, 2, 3] @ ''/'' @ nat_string 16))) (dotted [10, 1, 9, 9]) \<noteq> None"
proof -
  let ?r = "wl_Add (healthy_fs Map.empty) zero_time \<lparr>wm_path = ''w'', wm_entries = []\<rparr> ''office''
     (dotted [10, 1, 2, 3] @ ''/'' @ nat_string 16)"
  have "ip_or_cidr (dotted [10, 1, 2, 3] @ ''/'' @ nat_string 16)"
    using ParseCIDR_dotted [of "[10, 1, 2, 3]" 16] by (simp add: ip_or_cidr_def)
  moreover obtain v where "json_time zero_time = Some v"
    using zero_time_json by blast
  ultimately have "snd (snd ?r) = None"
    by (simp add: wl_Add_def Let_def wl_save_def save_entries_def json_whitelist_entry_def
        WriteFile_def healthy_fs_def)
  then have r: "?r = (fst ?r, fst (snd ?r), None)"
    by (metis prod.collapse)
  have "map2 (AND) [10, 1, 9, 9] (CIDRMask 16 32) = map2 (AND) [10, 1, 2, 3] (CIDRMask 16 32)"
    by (simp add: CIDRMask_def mask_byte_def upt_rec)
  then show ?thesis using wl_Add_range [OF r, of "[10, 1, 9, 9]"] by simp
qed

text \<open>Adding an entry and removing it again gives the whitelist back, whatever the saves report.\<close>

theorem wl_Remove_undoes_Add:
  assumes "wl_Add fs now wm name ip = (wm', fs', None)"
  shows "wm_entries (fst (wl_Remove gs wm' name)) = wm_entries wm"
proof -
  let ?e = "\<lparr>we_Name = name, we_IP = ip, we_CreatedAt = now\<rparr>"
  have ins: "wl_insert wm ?e = Some wm'"
    using assms by (auto simp: wl_Add_def wl_insert_def Let_def split: if_splits option.splits prod.splits)
  then have "wl_delete wm' (we_Name ?e) \<noteq> None" by (rule wl.insert_deletable)
  then obtain wm'' where del: "wl_delete wm' name = Some wm''" by auto
  with wl.delete_undoes_insert [OF ins, of wm''] wl_Remove_state [of gs wm' name]
  show ?thesis by simp
qed

end
