(* ===== verification/Metrics.thy ===== *)
theory Metrics
  imports GoStrings
begin

text \<open>
  \<open>internal/server/metrics.go\<close>: the server's counters, 64-bit words as \<open>atomic.Int64\<close> (they
  wrap), and the Prometheus text. The uptime is a float Go prints; its text is the argument
  \<open>uptime\<close> of \<open>WritePrometheus\<close>.
\<close>

record metrics =
  mx_startTime :: instant
  mx_connectedTotal :: "64 word"
  mx_authFailures :: "64 word"
  mx_activeConns :: "64 word"
  mx_bytesIn :: "64 word"
  mx_bytesOut :: "64 word"
  mx_droppedPackets :: "64 word"

definition newMetrics :: "instant \<Rightarrow> metrics" where
  "newMetrics now =
     \<lparr>mx_startTime = now, mx_connectedTotal = 0, mx_authFailures = 0, mx_activeConns = 0,
      mx_bytesIn = 0, mx_bytesOut = 0, mx_droppedPackets = 0\<rparr>"

definition IncConnected :: "metrics \<Rightarrow> metrics" where
  "IncConnected m =
     m\<lparr>mx_connectedTotal := mx_connectedTotal m + 1, mx_activeConns := mx_activeConns m + 1\<rparr>"

definition DecConnected :: "metrics \<Rightarrow> metrics" where
  "DecConnected m = m\<lparr>mx_activeConns := mx_activeConns m - 1\<rparr>"

definition IncAuthFailure :: "metrics \<Rightarrow> metrics" where
  "IncAuthFailure m = m\<lparr>mx_authFailures := mx_authFailures m + 1\<rparr>"

definition AddBytesIn :: "nat \<Rightarrow> metrics \<Rightarrow> metrics" where
  "AddBytesIn n m = m\<lparr>mx_bytesIn := mx_bytesIn m + word_of_nat n\<rparr>"

definition AddBytesOut :: "nat \<Rightarrow> metrics \<Rightarrow> metrics" where
  "AddBytesOut n m = m\<lparr>mx_bytesOut := mx_bytesOut m + word_of_nat n\<rparr>"

definition IncDropped :: "metrics \<Rightarrow> metrics" where
  "IncDropped m = m\<lparr>mx_droppedPackets := mx_droppedPackets m + 1\<rparr>"

lemmas metrics_ops =
  IncConnected_def DecConnected_def IncAuthFailure_def AddBytesIn_def AddBytesOut_def IncDropped_def

text \<open>One metric in the exposition format; \<open>%v\<close> of an \<open>int64\<close> is its signed decimal.\<close>

definition nl :: string where "nl = [CHR 0x0A]"

definition writef :: "string \<Rightarrow> string \<Rightarrow> string \<Rightarrow> string \<Rightarrow> string" where
  "writef help typ name val =
     ''# HELP '' @ name @ '' '' @ help @ nl @ ''# TYPE '' @ name @ '' '' @ typ @ nl @
     name @ '' '' @ val @ nl"

definition int64_text :: "64 word \<Rightarrow> string" where
  "int64_text w = Itoa (sint w)"

text \<open>The arrow U+2192 of two help texts, in UTF-8.\<close>

definition arrow :: string where "arrow = [CHR 0xE2, CHR 0x86, CHR 0x92]"

definition WritePrometheus :: "string \<Rightarrow> metrics \<Rightarrow> string" where
  "WritePrometheus uptime m =
     writef ''Server uptime in seconds'' ''gauge'' ''auth_vpn_uptime_seconds'' uptime @
     writef ''Current active tunnel connections'' ''gauge'' ''auth_vpn_active_connections''
       (int64_text (mx_activeConns m)) @
     writef ''Total tunnel connections ever established'' ''counter'' ''auth_vpn_connections_total''
       (int64_text (mx_connectedTotal m)) @
     writef ''Total authentication failures'' ''counter'' ''auth_vpn_auth_failures_total''
       (int64_text (mx_authFailures m)) @
     writef (''Total bytes received from clients (client'' @ arrow @ ''TUN)'') ''counter''
       ''auth_vpn_bytes_in_total'' (int64_text (mx_bytesIn m)) @
     writef (''Total bytes sent to clients (TUN'' @ arrow @ ''client)'') ''counter''
       ''auth_vpn_bytes_out_total'' (int64_text (mx_bytesOut m)) @
     writef ''Total packets dropped due to full send buffer'' ''counter''
       ''auth_vpn_dropped_packets_total'' (int64_text (mx_droppedPackets m))"

lemma DecConnected_IncConnected:
  "mx_activeConns (DecConnected (IncConnected m)) = mx_activeConns m"
  by (simp add: metrics_ops)

end
