(* ===== verification/Expose.thy ===== *)
theory Expose
  imports GoNet Json "HOL-Library.List_Lexorder" "HOL-Library.Char_ord"
begin

unbundle bit_operations_syntax

text \<open>
  \<open>internal/server/expose.go\<close>: the allow-list of labeled mode, the decision on a packet and on
  a dial target, the decoding of a Kubernetes ServiceList and the refresh of the list. The name
  lookup, the answer of the API server and the reading of the service-account token are
  arguments. Go's map of \<open>svcPort\<close> to \<open>true\<close> is a set.
\<close>

section \<open>State\<close>

record svcPort =
  sp_IP :: string
  sp_Proto :: string
  sp_Port :: "16 word"

record exposeSet =
  ex_allow :: "svcPort set"
  ex_dns :: string
  ex_self :: svcPort

definition ExposeAll :: string where "ExposeAll = ''all''"
definition ExposeLabeled :: string where "ExposeLabeled = ''labeled''"
definition exposeLabel :: string where "exposeLabel = ''auth-vpn.io/expose''"

definition newExposeSet :: "string \<Rightarrow> exposeSet" where
  "newExposeSet dnsIP =
     \<lparr>ex_allow = {}, ex_dns = dnsIP, ex_self = \<lparr>sp_IP = [], sp_Proto = [], sp_Port = 0\<rparr>\<rparr>"

definition allowSelf :: "exposeSet \<Rightarrow> string \<Rightarrow> 16 word \<Rightarrow> exposeSet" where
  "allowSelf e ip port = e\<lparr>ex_self := \<lparr>sp_IP = ip, sp_Proto = ''tcp'', sp_Port = port\<rparr>\<rparr>"

definition set_ports :: "exposeSet \<Rightarrow> svcPort list \<Rightarrow> exposeSet" where
  "set_ports e ports = e\<lparr>ex_allow := set ports\<rparr>"

section \<open>Decisions\<close>

definition allowed :: "exposeSet \<Rightarrow> string \<Rightarrow> string \<Rightarrow> 16 word \<Rightarrow> bool" where
  "allowed e ip proto port =
     (if ip = ex_dns e \<and> port = 53 then True
      else if \<lparr>sp_IP = ip, sp_Proto = proto, sp_Port = port\<rparr> = ex_self e then True
      else \<lparr>sp_IP = ip, sp_Proto = proto, sp_Port = port\<rparr> \<in> ex_allow e)"

definition exposed_routes :: "exposeSet \<Rightarrow> string list" where
  "exposed_routes e = sorted_list_of_set ((\<lambda>p. sp_IP p @ ''/32'') ` ex_allow e)"

definition allowPacket :: "exposeSet \<Rightarrow> bytes \<Rightarrow> bool" where
  "allowPacket e pkt =
     (if length pkt < 20 \<or> drop_bit 4 (pkt ! 0) \<noteq> 4 then False
      else let ihl = unat (pkt ! 0 AND 0x0f) * 4
      in if ihl < 20 \<or> length pkt < ihl + 4 then False
      else if be_get16 (take 2 (drop 6 pkt)) AND 0x1fff \<noteq> 0 then False
      else if pkt ! 9 \<noteq> 6 \<and> pkt ! 9 \<noteq> 17 then False
      else let proto = (if pkt ! 9 = 6 then ''tcp'' else ''udp'');
               dst = ip_String (take 4 (drop 16 pkt))
           in allowed e dst proto (be_get16 (take 2 (drop (ihl + 2) pkt))))"

text \<open>The first IPv4 address of a list that is exposed on the port.\<close>

fun first_allowed :: "exposeSet \<Rightarrow> 16 word \<Rightarrow> ip list \<Rightarrow> string option" where
  "first_allowed e port [] = None"
| "first_allowed e port (a # as) =
     (case To4 a of
        None \<Rightarrow> first_allowed e port as
      | Some ip4 \<Rightarrow>
          if allowed e (ip_String ip4) ''tcp'' port then Some (ip_String ip4)
          else first_allowed e port as)"

definition not_exposed_msg :: "string \<Rightarrow> 16 word \<Rightarrow> string" where
  "not_exposed_msg host port =
     host @ '':'' @ nat_string (unat port) @ '' is not exposed through auth-vpn (label the Service '' @
     exposeLabel @ ''=true)''"

definition resolveTarget ::
    "(string \<Rightarrow> string + ip list) \<Rightarrow> exposeSet \<Rightarrow> string \<Rightarrow> 16 word \<Rightarrow> string + string" where
  "resolveTarget lookup e host port =
     (case (case ParseIP host of Some a \<Rightarrow> Inr [a] | None \<Rightarrow> lookup host) of
        Inl err \<Rightarrow> Inl err
      | Inr ips \<Rightarrow>
          (case first_allowed e port ips of
             Some ip \<Rightarrow> Inr ip
           | None \<Rightarrow> Inl (not_exposed_msg host port)))"

section \<open>The list from Kubernetes\<close>

record svc_port_json =
  pj_Port :: "16 word"
  pj_Protocol :: string

record svc_spec_json =
  sj_ClusterIP :: string
  sj_ClusterIPs :: "string list"
  sj_Ports :: "svc_port_json list"

text \<open>A slice of decoded elements; \<open>null\<close> is the nil slice.\<close>

definition dec_slice :: "(json \<Rightarrow> 'r \<times> bool) \<Rightarrow> json \<Rightarrow> 'r list \<Rightarrow> 'r list \<times> bool" where
  "dec_slice dec v old =
     (case v of
        JNull \<Rightarrow> ([], True)
      | JArr vs \<Rightarrow> (map (fst \<circ> dec) vs, list_all (snd \<circ> dec) vs)
      | _ \<Rightarrow> (old, False))"

definition mem_svc_port :: "string \<Rightarrow> json \<Rightarrow> svc_port_json \<Rightarrow> svc_port_json \<times> bool" where
  "mem_svc_port k v p =
     (if key_is k ''port'' then
        (let (n, ok) = dec_uint 16 v (unat (pj_Port p)) in (p\<lparr>pj_Port := word_of_nat n\<rparr>, ok))
      else if key_is k ''protocol'' then
        (let (s, ok) = dec_string v (pj_Protocol p) in (p\<lparr>pj_Protocol := s\<rparr>, ok))
      else (p, True))"

definition mem_svc_spec :: "string \<Rightarrow> json \<Rightarrow> svc_spec_json \<Rightarrow> svc_spec_json \<times> bool" where
  "mem_svc_spec k v s =
     (if key_is k ''clusterIP'' then
        (let (t, ok) = dec_string v (sj_ClusterIP s) in (s\<lparr>sj_ClusterIP := t\<rparr>, ok))
      else if key_is k ''clusterIPs'' then
        (let (ts, ok) = dec_slice (\<lambda>v. dec_string v []) v (sj_ClusterIPs s)
         in (s\<lparr>sj_ClusterIPs := ts\<rparr>, ok))
      else if key_is k ''ports'' then
        (let (ps, ok) = dec_slice (\<lambda>v. dec_struct mem_svc_port v \<lparr>pj_Port = 0, pj_Protocol = []\<rparr>) v
               (sj_Ports s)
         in (s\<lparr>sj_Ports := ps\<rparr>, ok))
      else (s, True))"

definition zero_spec :: svc_spec_json where
  "zero_spec = \<lparr>sj_ClusterIP = [], sj_ClusterIPs = [], sj_Ports = []\<rparr>"

definition mem_svc_item :: "string \<Rightarrow> json \<Rightarrow> svc_spec_json \<Rightarrow> svc_spec_json \<times> bool" where
  "mem_svc_item k v s = (if key_is k ''spec'' then dec_struct mem_svc_spec v s else (s, True))"

definition mem_svc_list :: "string \<Rightarrow> json \<Rightarrow> svc_spec_json list \<Rightarrow> svc_spec_json list \<times> bool" where
  "mem_svc_list k v items =
     (if key_is k ''items''
      then dec_slice (\<lambda>v. dec_struct mem_svc_item v zero_spec) v items else (items, True))"

definition service_ports :: "svc_spec_json \<Rightarrow> svcPort list" where
  "service_ports s =
     (let ips = (if sj_ClusterIPs s = [] then [sj_ClusterIP s] else sj_ClusterIPs s)
      in concat (map (\<lambda>ip.
           if To4_nil (ParseIP ip) = None then []
           else map (\<lambda>p. \<lparr>sp_IP = ip,
                  sp_Proto = (let t = ToLower (pj_Protocol p) in if t = [] then ''tcp'' else t),
                  sp_Port = pj_Port p\<rparr>) (sj_Ports s)) ips))"

definition parseServices :: "string \<Rightarrow> svcPort list option" where
  "parseServices body =
     (let (items, ok) = Unmarshal mem_svc_list body []
      in if ok then Some (concat (map service_ports items)) else None)"

text \<open>What the request to the API server came back with.\<close>

datatype http_result = HttpError string | HttpBodyError string | HttpReply nat string

definition maxListBytes :: nat where "maxListBytes = 8388608"

definition services_url :: "string \<Rightarrow> string" where
  "services_url apiBase = apiBase @ ''/api/v1/services?labelSelector=auth-vpn.io%2Fexpose%3Dtrue''"

definition fetchExposed :: "http_result \<Rightarrow> svcPort list option" where
  "fetchExposed resp =
     (case resp of
        HttpReply status body \<Rightarrow>
          if status \<noteq> 200 then None else parseServices (take maxListBytes body)
      | _ \<Rightarrow> None)"

text \<open>One refresh: the token file and then the request; any failure keeps the list.\<close>

definition expose_refresh :: "(os_error + string) \<Rightarrow> http_result \<Rightarrow> exposeSet \<Rightarrow> exposeSet" where
  "expose_refresh token resp e =
     (case token of
        Inl err \<Rightarrow> e
      | Inr tk \<Rightarrow>
          (case fetchExposed resp of
             None \<Rightarrow> e
           | Some ports \<Rightarrow> set_ports e ports))"

definition watchExposed ::
    "string \<Rightarrow> ((os_error + string) \<times> http_result) list \<Rightarrow> exposeSet \<Rightarrow> exposeSet" where
  "watchExposed host polls e =
     (if host = [] then e else foldl (\<lambda>e (token, resp). expose_refresh token resp e) e polls)"

section \<open>What a decision means\<close>

lemma allowed_iff:
  "allowed e ip proto port \<longleftrightarrow>
     (ip = ex_dns e \<and> port = 53) \<or> \<lparr>sp_IP = ip, sp_Proto = proto, sp_Port = port\<rparr> = ex_self e \<or>
     \<lparr>sp_IP = ip, sp_Proto = proto, sp_Port = port\<rparr> \<in> ex_allow e"
  unfolding allowed_def by auto

text \<open>A packet that passes is a first fragment of a TCP or UDP packet over IPv4, with its ports
  inside it, to an allowed address and port.\<close>

definition ipv4_flow :: "bytes \<Rightarrow> (string \<times> string \<times> 16 word) option" where
  "ipv4_flow pkt =
     (let ihl = unat (pkt ! 0 AND 0x0f) * 4
      in if 20 \<le> length pkt \<and> drop_bit 4 (pkt ! 0) = 4 \<and> 20 \<le> ihl \<and> ihl + 4 \<le> length pkt \<and>
           be_get16 [pkt ! 6, pkt ! 7] AND 0x1fff = 0 \<and> pkt ! 9 \<in> {6, 17}
         then Some (dotted [pkt ! 16, pkt ! 17, pkt ! 18, pkt ! 19],
                    if pkt ! 9 = 6 then ''tcp'' else ''udp'',
                    be_get16 [pkt ! (ihl + 2), pkt ! (ihl + 3)])
         else None)"

lemma take2_drop: "Suc (Suc n) \<le> length xs \<Longrightarrow> take 2 (drop n xs) = [xs ! n, xs ! Suc n]"
  by (simp add: take_Suc_conv_app_nth numeral_2_eq_2)

lemma take4_drop:
  "n + 4 \<le> length xs \<Longrightarrow>
     take 4 (drop n xs) = [xs ! n, xs ! (n + 1), xs ! (n + 2), xs ! (n + 3)]"
  by (simp add: take_Suc_conv_app_nth eval_nat_numeral)

lemma allowPacket_iff:
  "allowPacket e pkt \<longleftrightarrow>
     (case ipv4_flow pkt of None \<Rightarrow> False | Some (dst, proto, port) \<Rightarrow> allowed e dst proto port)"
proof -
  let ?ihl = "unat (pkt ! 0 AND 0x0f) * 4"
  show ?thesis
  proof (cases "20 \<le> length pkt \<and> drop_bit 4 (pkt ! 0) = 4 \<and> 20 \<le> ?ihl \<and> ?ihl + 4 \<le> length pkt")
    case True
    then have "take 4 (drop 16 pkt) = [pkt ! 16, pkt ! 17, pkt ! 18, pkt ! 19]"
      "take 2 (drop 6 pkt) = [pkt ! 6, pkt ! 7]"
      "take 2 (drop (?ihl + 2) pkt) = [pkt ! (?ihl + 2), pkt ! (?ihl + 3)]"
      using take4_drop [of 16 pkt] take2_drop [of 6 pkt] take2_drop [of "?ihl + 2" pkt]
      by (simp_all add: eval_nat_numeral)
    with True show ?thesis
      by (auto simp: allowPacket_def ipv4_flow_def Let_def)
  next
    case False
    then show ?thesis by (auto simp: allowPacket_def ipv4_flow_def Let_def)
  qed
qed

lemma allowPacket_length: "allowPacket e pkt \<Longrightarrow> 24 \<le> length pkt"
  by (auto simp: allowPacket_iff ipv4_flow_def Let_def split: if_splits)

lemma first_allowed_SomeD:
  "first_allowed e port ips = Some ip \<Longrightarrow>
     allowed e ip ''tcp'' port \<and> (\<exists>a\<in>set ips. \<exists>q. To4 a = Some q \<and> ip = ip_String q)"
  by (induction ips) (auto split: option.splits if_splits)

lemma first_allowed_None_iff:
  "first_allowed e port ips = None \<longleftrightarrow>
     (\<forall>a\<in>set ips. \<forall>q. To4 a = Some q \<longrightarrow> \<not> allowed e (ip_String q) ''tcp'' port)"
  by (induction ips) (auto split: option.splits)

lemma resolveTarget_Inr:
  "resolveTarget lookup e host port = Inr ip \<Longrightarrow> allowed e ip ''tcp'' port"
  by (auto simp: resolveTarget_def simp del: first_allowed.simps
      split: option.splits sum.splits dest!: first_allowed_SomeD)

section \<open>Routes\<close>

lemma exposed_routes_props:
  assumes "finite (ex_allow e)"
  shows "sorted (exposed_routes e)" and "distinct (exposed_routes e)"
    and "set (exposed_routes e) = (\<lambda>p. sp_IP p @ ''/32'') ` ex_allow e"
  using assms by (simp_all add: exposed_routes_def)

lemma exposed_routes_set_ports:
  "exposed_routes (set_ports e ports) = sort (remdups (map (\<lambda>p. sp_IP p @ ''/32'') ports))"
  by (simp add: exposed_routes_def set_ports_def sorted_list_of_set_sort_remdups flip: set_map)

lemma parseServices_ipv4:
  "parseServices body = Some ports \<Longrightarrow> p \<in> set ports \<Longrightarrow> To4_nil (ParseIP (sp_IP p)) \<noteq> None"
  by (auto simp: parseServices_def service_ports_def Let_def split: prod.splits if_splits)

text \<open>Labeled mode fails closed: a failed refresh changes nothing, and nothing but a refresh
  adds to the list.\<close>

definition expose_kept :: "exposeSet \<Rightarrow> exposeSet \<Rightarrow> bool" where
  "expose_kept e e' \<longleftrightarrow> ex_dns e' = ex_dns e \<and> ex_self e' = ex_self e \<and>
     (finite (ex_allow e) \<longrightarrow> finite (ex_allow e'))"

lemma expose_refresh_kept: "expose_kept e (expose_refresh token resp e)"
  by (auto simp: expose_kept_def expose_refresh_def set_ports_def split: sum.splits option.splits)

lemma expose_refresh_cases:
  "expose_refresh token resp e = e \<or>
     (\<exists>tk body ports. token = Inr tk \<and> resp = HttpReply 200 body \<and>
        parseServices (take maxListBytes body) = Some ports \<and>
        expose_refresh token resp e = set_ports e ports)"
  by (auto simp: expose_refresh_def fetchExposed_def split: sum.splits option.splits http_result.splits)

lemma watchExposed_failures:
  assumes "\<forall>(token, resp)\<in>set polls. (\<exists>err. token = Inl err) \<or> fetchExposed resp = None"
  shows "watchExposed host polls e = e"
proof -
  have "foldl (\<lambda>e (token, resp). expose_refresh token resp e) e polls = e"
    using assms
  proof (induction polls)
    case Nil
    then show ?case by simp
  next
    case (Cons p ps)
    obtain token resp where p: "p = (token, resp)" by (cases p)
    with Cons.prems have "expose_refresh token resp e = e"
      by (auto simp: expose_refresh_def split: sum.splits)
    with Cons p show ?case by simp
  qed
  then show ?thesis by (simp add: watchExposed_def)
qed

section \<open>Properties\<close>

text \<open>C7: in labeled mode a packet passes exactly when it is an unfragmented (or first-fragment) IPv4
  packet of TCP or UDP with its ports inside it, going to the cluster's DNS on port 53, to the
  dashboard, or to a port of a labelled Service.\<close>

theorem labeled_packet_filter:
  "allowPacket e pkt \<longleftrightarrow>
     (case ipv4_flow pkt of
        None \<Rightarrow> False
      | Some (dst, proto, port) \<Rightarrow>
          dst = ex_dns e \<and> port = 53 \<or>
          \<lparr>sp_IP = dst, sp_Proto = proto, sp_Port = port\<rparr> \<in> insert (ex_self e) (ex_allow e))"
  by (simp add: allowPacket_iff allowed_iff split: option.splits prod.splits)

text \<open>A proxied dial in labeled mode goes to an exposed address of the host asked for (the host
  itself when it is an address, else what the resolver gives); it is refused exactly when the
  resolver fails or no IPv4 address of the host is exposed on that port.\<close>

theorem resolveTarget_exposed:
  "case resolveTarget lookup e host port of
     Inr ip \<Rightarrow> allowed e ip ''tcp'' port \<and>
       (\<exists>a q. (case ParseIP host of Some b \<Rightarrow> a = b | None \<Rightarrow> (\<exists>ips. lookup host = Inr ips \<and> a \<in> set ips)) \<and>
          To4 a = Some q \<and> ip = ip_String q)
   | Inl err \<Rightarrow> ParseIP host = None \<and> lookup host = Inl err \<or>
       err = not_exposed_msg host port \<and>
       \<not> (\<exists>a q. (case ParseIP host of Some b \<Rightarrow> a = b | None \<Rightarrow> (\<exists>ips. lookup host = Inr ips \<and> a \<in> set ips)) \<and>
          To4 a = Some q \<and> allowed e (ip_String q) ''tcp'' port)"
proof (cases "case ParseIP host of Some a \<Rightarrow> Inr [a] | None \<Rightarrow> lookup host")
  case (Inl err)
  then show ?thesis by (auto simp: resolveTarget_def split: option.splits)
next
  case (Inr ips)
  have addrs: "(case ParseIP host of Some b \<Rightarrow> a = b | None \<Rightarrow> (\<exists>ips. lookup host = Inr ips \<and> a \<in> set ips)) \<longleftrightarrow>
      a \<in> set ips" for a
    using Inr by (auto split: option.splits)
  show ?thesis
  proof (cases "first_allowed e port ips")
    case None
    then show ?thesis using Inr first_allowed_None_iff [of e port ips] addrs
      by (auto simp: resolveTarget_def)
  next
    case (Some ip)
    then show ?thesis using Inr first_allowed_SomeD [OF Some] addrs
      by (auto simp: resolveTarget_def)
  qed
qed



text \<open>After a successful refresh the routes pushed to clients are one \<open>/32\<close> per address of the
  labelled Services, sorted and without duplicates, and every such address is an IPv4 address.\<close>

theorem refreshed_routes:
  assumes "parseServices (take maxListBytes body) = Some ports"
  shows "set (exposed_routes (expose_refresh (Inr tk) (HttpReply 200 body) e)) =
      (\<lambda>p. sp_IP p @ ''/32'') ` set ports \<and>
    sorted (exposed_routes (expose_refresh (Inr tk) (HttpReply 200 body) e)) \<and>
    distinct (exposed_routes (expose_refresh (Inr tk) (HttpReply 200 body) e)) \<and>
    (\<forall>p\<in>set ports. To4_nil (ParseIP (sp_IP p)) \<noteq> None)"
  using parseServices_ipv4 [OF assms] exposed_routes_props [of "set_ports e ports"]
  by (simp add: expose_refresh_def fetchExposed_def assms set_ports_def)

text \<open>A service list with one labelled Service.\<close>

definition one_service :: json where
  "one_service = JObj [(''items'', JArr [JObj [(''spec'', JObj [(''clusterIP'', JStr ''10.96.0.20''),
     (''ports'', JArr [JObj [(''port'', JNum ''5432''), (''protocol'', JStr ''TCP'')]])])]])]"

lemma parse_one_service:
  "parseServices (take maxListBytes (render one_service)) =
     Some [\<lparr>sp_IP = ''10.96.0.20'', sp_Proto = ''tcp'', sp_Port = 5432\<rparr>]"
proof -
  have "length (render one_service) < 1000" by code_simp
  then have t: "take maxListBytes (render one_service) = render one_service"
    by (simp add: maxListBytes_def)
  have "wf_json one_service \<and> json_depth one_service \<le> max_nesting" by code_simp
  then have p: "parse_json (render one_service) = Some one_service" by (simp add: parse_render)
  have n: "parse_uint 16 ''5432'' = Some 5432" by (simp add: parse_uint_def digit_val_def)
  have "dec_struct mem_svc_list one_service [] = ([\<lparr>sj_ClusterIP = ''10.96.0.20'', sj_ClusterIPs = [],
      sj_Ports = [\<lparr>pj_Port = 5432, pj_Protocol = ''TCP''\<rparr>]\<rparr>], True)"
    by (simp add: one_service_def dec_struct_def mem_svc_list_def mem_svc_item_def mem_svc_spec_def
        mem_svc_port_def dec_slice_def key_is_def lower_char_def dec_uint_def dec_string_def zero_spec_def n)
  moreover have "To4_nil (ParseIP ''10.96.0.20'') \<noteq> None" by code_simp
  moreover have "ToLower ''TCP'' = ''tcp''" by code_simp
  ultimately show ?thesis
    by (simp add: t p parseServices_def Unmarshal_def service_ports_def)
qed

theorem refreshed_routes_witness:
  "exposed_routes (expose_refresh (Inr ''t'') (HttpReply 200 (render one_service)) (newExposeSet [])) =
     [''10.96.0.20/32'']"
proof -
  let ?rs = "exposed_routes (expose_refresh (Inr ''t'') (HttpReply 200 (render one_service)) (newExposeSet []))"
  have "set ?rs = {''10.96.0.20/32''} \<and> distinct ?rs"
    using refreshed_routes [OF parse_one_service, of "''t''" "newExposeSet []"] by simp
  then show ?thesis by (cases ?rs; cases "tl ?rs") auto
qed

end
