(* ===== verification/ServerConfig.thy ===== *)
theory ServerConfig
  imports Expose Protocol
begin

text \<open>
  The configuration of the server: \<open>internal/server/config.go\<close>, \<open>applyDefaults\<close>,
  \<open>persistAutoDefaults\<close> and \<open>baseIPFromSubnet\<close> of \<open>internal/server/server.go\<close>, and
  \<open>internal/server/push.go\<close>. The process environment (\<open>os.Getenv\<close>), the address the routing
  lookup of \<open>outboundIP\<close> gives and the YAML functions are arguments.
\<close>

section \<open>State\<close>

record config =
  cfg_Port :: int
  cfg_TLSCert :: string
  cfg_TLSKey :: string
  cfg_TokensPath :: string
  cfg_Subnet :: string
  cfg_ServerIP :: string
  cfg_MetricsAddr :: string
  cfg_ACLPath :: string
  cfg_APIKey :: string
  cfg_ForwardBindAddr :: string
  cfg_SSHAddr :: string
  cfg_PushRoutes :: "string list"
  cfg_PushDNS :: "DNSConfig option"
  cfg_NoPush :: bool
  cfg_Expose :: string
  cfg_clusterDNS :: string
  cfg_UIOnly :: bool

record serverYaml =
  sc_Port :: int
  sc_Subnet :: string
  sc_ServerIP :: string
  sc_MetricsAddr :: string
  sc_ACLPath :: string
  sc_APIKey :: string
  sc_ForwardBindAddr :: string
  sc_SSHAddr :: string
  sc_PushRoutes :: "string list"
  sc_PushDNS :: "DNSConfig option"
  sc_NoPush :: bool
  sc_Expose :: string

definition ServerConfigFile :: string where "ServerConfigFile = ''/etc/auth-vpn/server.yaml''"
definition ACLFile :: string where "ACLFile = ''/etc/auth-vpn/acl.yaml''"
definition DefaultMetricsAddr :: string where "DefaultMetricsAddr = ''0.0.0.0:9100''"

definition DefaultServerConfig :: "int \<Rightarrow> serverYaml" where
  "DefaultServerConfig port =
     \<lparr>sc_Port = port, sc_Subnet = ''10.8.0.0/24'', sc_ServerIP = ''10.8.0.1'',
      sc_MetricsAddr = DefaultMetricsAddr, sc_ACLPath = ACLFile, sc_APIKey = [],
      sc_ForwardBindAddr = [], sc_SSHAddr = [], sc_PushRoutes = [], sc_PushDNS = None,
      sc_NoPush = False, sc_Expose = []\<rparr>"

datatype config_error = ConfigFile os_error | ConfigYaml string

definition LoadServerConfig ::
    "(string \<Rightarrow> string + serverYaml) \<Rightarrow> filesys \<Rightarrow> string \<Rightarrow> config_error + serverYaml" where
  "LoadServerConfig unmarshal fs path =
     (case ReadFile fs path of
        Inl e \<Rightarrow> Inl (ConfigFile e)
      | Inr d \<Rightarrow> (case unmarshal d of Inl e \<Rightarrow> Inl (ConfigYaml e) | Inr c \<Rightarrow> Inr c))"

definition SaveServerConfig ::
    "(serverYaml \<Rightarrow> string + string) \<Rightarrow> filesys \<Rightarrow> string \<Rightarrow> serverYaml \<Rightarrow>
     filesys \<times> config_error option" where
  "SaveServerConfig marshal fs path c =
     (case marshal c of
        Inl e \<Rightarrow> (fs, Some (ConfigYaml e))
      | Inr d \<Rightarrow> (let (fs', e) = WriteFile fs path d in (fs', map_option ConfigFile e)))"

section \<open>Detecting what to push\<close>

text \<open>The search domain of one line: what follows \<open>svc.\<close> in the first field that has it.\<close>

definition search_domain :: "string list \<Rightarrow> string option" where
  "search_domain ws = map_option (\<lambda>s. TrimPrefix s ''svc.'') (find (\<lambda>s. HasPrefix s ''svc.'') ws)"

definition resolv_line :: "string \<times> string \<Rightarrow> string \<Rightarrow> string \<times> string" where
  "resolv_line st line =
     (let (nameserver, domain) = st; f = Fields line
      in if length f < 2 then st
         else if hd f = ''nameserver'' then (if nameserver = [] then f ! 1 else nameserver, domain)
         else if hd f = ''search'' then
           (nameserver, case search_domain (tl f) of None \<Rightarrow> domain | Some d \<Rightarrow> d)
         else st)"

definition parse_resolv :: "string \<Rightarrow> string \<times> string" where
  "parse_resolv text = foldl resolv_line ([], []) (split_on (CHR 0x0A) text)"

definition guess_bits :: "ip \<Rightarrow> nat" where
  "guess_bits a = (if IsPrivate a then 16 else 20)"

definition k8sPush :: "string \<Rightarrow> string \<Rightarrow> string list \<times> DNSConfig option" where
  "k8sPush resolvConf svcHost =
     (case To4_nil (ParseIP svcHost) of
        None \<Rightarrow> ([], None)
      | Some a \<Rightarrow>
          let m = CIDRMask (guess_bits a) 32;
              routes = [net_String \<lparr>net_IP = ip_Mask a m, net_Mask = m\<rparr>];
              (nameserver, domain) = parse_resolv resolvConf
          in if To4_nil (ParseIP nameserver) = None \<or> domain = [] then (routes, None)
             else (routes, Some \<lparr>dns_Server = nameserver, dns_Domains = Some [domain]\<rparr>))"

definition env_routes :: "string \<Rightarrow> string list" where
  "env_routes env = filter (\<lambda>r. r \<noteq> []) (map TrimSpace (split_on CHR '','' env))"

text \<open>The steps of \<open>resolvePush\<close>: the expose mode from the environment, what the pod's
  surroundings suggest, the cluster DNS server, the routes of the environment, the guessed
  routes, the detected DNS settings.\<close>

definition expose_from_env :: "(string \<Rightarrow> string) \<Rightarrow> config \<Rightarrow> config" where
  "expose_from_env getenv cfg =
     (if cfg_Expose cfg = [] then cfg\<lparr>cfg_Expose := getenv ''AUTH_VPN_EXPOSE''\<rparr> else cfg)"

definition detected :: "(string \<Rightarrow> string) \<Rightarrow> filesys \<Rightarrow> string list \<times> DNSConfig option" where
  "detected getenv fs =
     k8sPush (case ReadFile fs ''/etc/resolv.conf'' of Inl e \<Rightarrow> [] | Inr d \<Rightarrow> d)
       (getenv ''KUBERNETES_SERVICE_HOST'')"

definition note_dns :: "DNSConfig option \<Rightarrow> config \<Rightarrow> config" where
  "note_dns dns cfg = (case dns of None \<Rightarrow> cfg | Some d \<Rightarrow> cfg\<lparr>cfg_clusterDNS := dns_Server d\<rparr>)"

definition routes_from_env :: "(string \<Rightarrow> string) \<Rightarrow> config \<Rightarrow> config" where
  "routes_from_env getenv cfg =
     (if cfg_PushRoutes cfg = []
      then cfg\<lparr>cfg_PushRoutes := env_routes (getenv ''AUTH_VPN_PUSH_ROUTES'')\<rparr> else cfg)"

definition routes_guessed :: "string list \<Rightarrow> config \<Rightarrow> config" where
  "routes_guessed routes cfg =
     (if cfg_PushRoutes cfg = [] \<and> routes \<noteq> [] \<and> cfg_Expose cfg \<noteq> ExposeLabeled
      then cfg\<lparr>cfg_PushRoutes := routes\<rparr> else cfg)"

definition dns_detected :: "DNSConfig option \<Rightarrow> config \<Rightarrow> config" where
  "dns_detected dns cfg =
     (if cfg_PushDNS cfg = None \<and> dns \<noteq> None then cfg\<lparr>cfg_PushDNS := dns\<rparr> else cfg)"

definition resolvePush :: "(string \<Rightarrow> string) \<Rightarrow> filesys \<Rightarrow> config \<Rightarrow> config" where
  "resolvePush getenv fs cfg =
     (let (routes, dns) = detected getenv fs;
          cfg1 = note_dns dns (expose_from_env getenv cfg)
      in if cfg_NoPush cfg1 then cfg1\<lparr>cfg_PushRoutes := [], cfg_PushDNS := None\<rparr>
         else dns_detected dns (routes_guessed routes (routes_from_env getenv cfg1)))"

section \<open>Defaults\<close>

text \<open>\<open>persistAutoDefaults\<close> changes the file only, not the configuration.\<close>

definition persistAutoDefaults ::
    "(string \<Rightarrow> string + serverYaml) \<Rightarrow> (serverYaml \<Rightarrow> string + string) \<Rightarrow> filesys \<Rightarrow> config \<Rightarrow> filesys"
where
  "persistAutoDefaults unmarshal marshal fs cfg =
     (case LoadServerConfig unmarshal fs ServerConfigFile of
        Inl e \<Rightarrow> fs
      | Inr sc \<Rightarrow>
          let bind = (sc_ForwardBindAddr sc = [] \<and> cfg_ForwardBindAddr cfg \<noteq> []);
              ssh = (sc_SSHAddr sc = [] \<and> cfg_SSHAddr cfg \<noteq> []);
              sc1 = (if bind then sc\<lparr>sc_ForwardBindAddr := cfg_ForwardBindAddr cfg\<rparr> else sc);
              sc2 = (if ssh then sc1\<lparr>sc_SSHAddr := cfg_SSHAddr cfg\<rparr> else sc1)
          in if bind \<or> ssh then fst (SaveServerConfig marshal fs ServerConfigFile sc2) else fs)"

definition fill_defaults :: "string \<Rightarrow> config \<Rightarrow> config" where
  "fill_defaults outboundIP cfg =
     (let d = (\<lambda>v def. if v = [] then def else v)
      in cfg\<lparr>cfg_Subnet := d (cfg_Subnet cfg) ''10.8.0.0/24'',
             cfg_ServerIP := d (cfg_ServerIP cfg) ''10.8.0.1'',
             cfg_MetricsAddr := d (cfg_MetricsAddr cfg) DefaultMetricsAddr,
             cfg_ForwardBindAddr := d (cfg_ForwardBindAddr cfg) outboundIP,
             cfg_SSHAddr := d (cfg_SSHAddr cfg) '':2222''\<rparr>)"

definition applyDefaults ::
    "(string \<Rightarrow> string) \<Rightarrow> string \<Rightarrow> (string \<Rightarrow> string + serverYaml) \<Rightarrow>
     (serverYaml \<Rightarrow> string + string) \<Rightarrow> filesys \<Rightarrow> config \<Rightarrow> config \<times> filesys" where
  "applyDefaults getenv outboundIP unmarshal marshal fs cfg =
     (let cfg1 = fill_defaults outboundIP cfg;
          fs1 = persistAutoDefaults unmarshal marshal fs cfg1
      in (resolvePush getenv fs1 cfg1, fs1))"

definition baseIPFromSubnet :: "string \<Rightarrow> string option" where
  "baseIPFromSubnet subnet =
     (case ParseCIDR subnet of
        None \<Rightarrow> None
      | Some (a, n) \<Rightarrow>
          let parts = split_on CHR ''.'' (ip_String (net_IP n))
          in if length parts \<noteq> 4 then None else Some (join_with ''.'' (take 3 parts)))"

section \<open>Push\<close>

lemma resolv_line_nameserver:
  "fst st \<noteq> [] \<Longrightarrow> fst (resolv_line st line) = fst st"
  by (auto simp: resolv_line_def Let_def split: prod.splits)

lemma expose_from_env_frame [simp]:
  "cfg_NoPush (expose_from_env g cfg) = cfg_NoPush cfg"
  "cfg_PushRoutes (expose_from_env g cfg) = cfg_PushRoutes cfg"
  "cfg_PushDNS (expose_from_env g cfg) = cfg_PushDNS cfg"
  "cfg_clusterDNS (expose_from_env g cfg) = cfg_clusterDNS cfg"
  by (simp_all add: expose_from_env_def)

lemma note_dns_frame [simp]:
  "cfg_NoPush (note_dns d cfg) = cfg_NoPush cfg"
  "cfg_PushRoutes (note_dns d cfg) = cfg_PushRoutes cfg"
  "cfg_PushDNS (note_dns d cfg) = cfg_PushDNS cfg"
  "cfg_Expose (note_dns d cfg) = cfg_Expose cfg"
  "cfg_clusterDNS (note_dns d cfg) = (case d of None \<Rightarrow> cfg_clusterDNS cfg | Some x \<Rightarrow> dns_Server x)"
  by (simp_all add: note_dns_def split: option.splits)

lemma route_steps_frame [simp]:
  "cfg_PushDNS (routes_from_env g cfg) = cfg_PushDNS cfg"
  "cfg_Expose (routes_from_env g cfg) = cfg_Expose cfg"
  "cfg_clusterDNS (routes_from_env g cfg) = cfg_clusterDNS cfg"
  "cfg_PushDNS (routes_guessed rs cfg) = cfg_PushDNS cfg"
  "cfg_Expose (routes_guessed rs cfg) = cfg_Expose cfg"
  "cfg_clusterDNS (routes_guessed rs cfg) = cfg_clusterDNS cfg"
  "cfg_PushRoutes (dns_detected d cfg) = cfg_PushRoutes cfg"
  "cfg_Expose (dns_detected d cfg) = cfg_Expose cfg"
  "cfg_clusterDNS (dns_detected d cfg) = cfg_clusterDNS cfg"
  by (simp_all add: routes_from_env_def routes_guessed_def dns_detected_def)

text \<open>\<open>no_push\<close> pushes nothing, whatever is configured or detected.\<close>

lemma resolvePush_NoPush:
  assumes "cfg_NoPush cfg"
  shows "cfg_PushRoutes (resolvePush getenv fs cfg) = [] \<and> cfg_PushDNS (resolvePush getenv fs cfg) = None"
  using assms by (simp add: resolvePush_def split: prod.split)

lemma resolvePush_routes:
  assumes "\<not> cfg_NoPush cfg"
  shows "cfg_PushRoutes (resolvePush getenv fs cfg) =
    (if cfg_PushRoutes cfg \<noteq> [] then cfg_PushRoutes cfg
     else if env_routes (getenv ''AUTH_VPN_PUSH_ROUTES'') \<noteq> []
     then env_routes (getenv ''AUTH_VPN_PUSH_ROUTES'')
     else if cfg_Expose (expose_from_env getenv cfg) = ExposeLabeled then []
     else fst (detected getenv fs))"
  using assms
  by (cases "detected getenv fs") (simp add: resolvePush_def routes_from_env_def routes_guessed_def Let_def)

lemma resolvePush_dns:
  assumes "\<not> cfg_NoPush cfg"
  shows "cfg_PushDNS (resolvePush getenv fs cfg) =
    (if cfg_PushDNS cfg \<noteq> None then cfg_PushDNS cfg else snd (detected getenv fs))"
  using assms
  by (cases "detected getenv fs") (simp add: resolvePush_def dns_detected_def Let_def)

lemma resolvePush_Expose:
  "cfg_Expose (resolvePush getenv fs cfg) = cfg_Expose (expose_from_env getenv cfg)"
  by (cases "detected getenv fs") (simp add: resolvePush_def Let_def)

lemma resolvePush_clusterDNS:
  "cfg_clusterDNS (resolvePush getenv fs cfg) =
     (case snd (detected getenv fs) of None \<Rightarrow> cfg_clusterDNS cfg | Some d \<Rightarrow> dns_Server d)"
  by (cases "detected getenv fs") (simp add: resolvePush_def Let_def split: option.split)

text \<open>The guess for a pod covers the API server it was derived from.\<close>

lemma k8s_guess_contains:
  assumes "To4_nil (ParseIP svcHost) = Some a"
  shows "net_Contains \<lparr>net_IP = ip_Mask a (CIDRMask (guess_bits a) 32), net_Mask = CIDRMask (guess_bits a) 32\<rparr> a"
proof -
  from assms have a: "length a = 4" by (cases "ParseIP svcHost") (auto dest: To4_length)
  have m: "length (CIDRMask (guess_bits a) 32) = 4" by simp
  show ?thesis
    using a m by (simp add: ip_Mask_4 net_Contains_4 mask_and_idem)
qed

section \<open>Base address\<close>

lemma baseIPFromSubnet_dotted:
  assumes "ParseCIDR subnet = Some (a, n)" and "net_IP n = [w, x, y, z]"
  shows "baseIPFromSubnet subnet =
    Some (nat_string (unat w) @ ''.'' @ nat_string (unat x) @ ''.'' @ nat_string (unat y))"
proof -
  have "split_on CHR ''.'' (dotted [w, x, y, z]) = map (\<lambda>x. nat_string (unat x)) [w, x, y, z]"
    unfolding dotted_def by (rule split_join) auto
  with assms show ?thesis by (simp add: baseIPFromSubnet_def)
qed

section \<open>Properties\<close>

text \<open>What is pushed to clients: nothing with \<open>no_push\<close>; else the configured routes before those
  of the environment before the guessed service range (which labeled mode leaves out), and the
  configured DNS before the detected one.\<close>

theorem push_precedence:
  "cfg_PushRoutes (resolvePush getenv fs cfg) =
     (if cfg_NoPush cfg then []
      else if cfg_PushRoutes cfg \<noteq> [] then cfg_PushRoutes cfg
      else if env_routes (getenv ''AUTH_VPN_PUSH_ROUTES'') \<noteq> [] then env_routes (getenv ''AUTH_VPN_PUSH_ROUTES'')
      else if (if cfg_Expose cfg = [] then getenv ''AUTH_VPN_EXPOSE'' else cfg_Expose cfg) = ExposeLabeled then []
      else fst (detected getenv fs)) \<and>
   cfg_PushDNS (resolvePush getenv fs cfg) =
     (if cfg_NoPush cfg then None
      else if cfg_PushDNS cfg \<noteq> None then cfg_PushDNS cfg
      else snd (detected getenv fs))"
proof (cases "cfg_NoPush cfg")
  case True
  with resolvePush_NoPush [OF True, of getenv fs] show ?thesis by simp
next
  case False
  have "cfg_Expose (expose_from_env getenv cfg) =
      (if cfg_Expose cfg = [] then getenv ''AUTH_VPN_EXPOSE'' else cfg_Expose cfg)"
    by (simp add: expose_from_env_def)
  with False resolvePush_routes [OF False, of getenv fs] resolvePush_dns [OF False, of getenv fs]
  show ?thesis by simp
qed

text \<open>The service range guessed in a pod contains the API server's address it was guessed
  from.\<close>

theorem guessed_range_contains_api_server:
  assumes "To4_nil (ParseIP svcHost) = Some a"
  shows "\<exists>n. fst (k8sPush resolvConf svcHost) = [net_String n] \<and> net_Contains n a \<and>
    net_Mask n = CIDRMask (if IsPrivate a then 16 else 20) 32"
  using k8s_guess_contains [OF assms] assms
  by (intro exI [of _ "\<lparr>net_IP = ip_Mask a (CIDRMask (guess_bits a) 32), net_Mask = CIDRMask (guess_bits a) 32\<rparr>"])
    (simp add: k8sPush_def Let_def guess_bits_def split: prod.splits)

theorem guessed_range_contains_api_server_witness:
  "\<exists>n. fst (k8sPush [] (dotted [10, 96, 0, 1])) = [net_String n] \<and> net_Contains n [10, 96, 0, 1] \<and>
    net_Mask n = CIDRMask (if IsPrivate [10, 96, 0, 1] then 16 else 20) 32"
  by (rule guessed_range_contains_api_server) simp

end
