(* ===== verification/Server.thy ===== *)
theory Server
  imports Frame Tokens RateLimit Acl Clients Stores Metrics ServerConfig
begin

text \<open>
  \<open>internal/server/server.go\<close>: the server's state, its construction (\<open>New\<close>), the front door
  \<open>handleConn\<close> up to the point where a client is served, and one iteration each of the loops
  that serve it: \<open>forwardToTUN\<close>, the writer loop at the end of \<open>handleConn\<close>,
  \<open>routeFromTUN\<close> and the reaper. Connections are indices into \<open>sv_conns\<close>; \<open>sv_tun\<close> are the
  packets written to the TUN device so far. How the loops interleave is the subject of
  \<open>Tunnel\<close>.
\<close>

section \<open>State\<close>

record conn =
  cn_addr :: string
  cn_rd :: reader
  cn_wr :: writer
  cn_closed :: bool

record server =
  sv_cfg :: config
  sv_tokens :: manager
  sv_whitelist :: whitelist
  sv_forwards :: forwards
  sv_sshKeys :: ssh_keys
  sv_clients :: registry
  sv_limiter :: limiter
  sv_acl :: "engine option"
  sv_metrics :: metrics
  sv_expose :: "exposeSet option"
  sv_done :: bool
  sv_fs :: filesys
  sv_conns :: "conn list"
  sv_tun :: "bytes list"

definition tunBufSize :: nat where "tunBufSize = 65535"

definition TokensFile :: string where "TokensFile = ''/etc/auth-vpn/tokens.yaml''"
definition WhitelistFile :: string where "WhitelistFile = ''/etc/auth-vpn/whitelist.json''"
definition ForwardsFile :: string where "ForwardsFile = ''/etc/auth-vpn/forwards.json''"
definition SSHKeysFile :: string where "SSHKeysFile = ''/etc/auth-vpn/ssh_keys.json''"

section \<open>Construction\<close>

datatype new_error = InvalidExpose string | InvalidSubnet string | LoadTokens token_error

text \<open>The exposed set of labeled mode: the DNS server that is pushed, else the cluster's, and the
  dashboard on the server's tunnel address.\<close>

definition new_expose :: "config \<Rightarrow> exposeSet option" where
  "new_expose cfg =
     (if cfg_Expose cfg \<noteq> ExposeLabeled then None
      else let dnsIP = (case cfg_PushDNS cfg of None \<Rightarrow> cfg_clusterDNS cfg | Some d \<Rightarrow> dns_Server d);
               e = newExposeSet dnsIP
           in Some (case SplitHostPort (cfg_MetricsAddr cfg) of
                      None \<Rightarrow> e
                    | Some (h, p) \<Rightarrow>
                        (case Atoi p of
                           None \<Rightarrow> e
                         | Some n \<Rightarrow> allowSelf e (cfg_ServerIP cfg) (word_of_int n))))"

definition load_or_empty :: "(load_error + 'm) \<Rightarrow> (load_error + 'm) \<Rightarrow> 'm \<Rightarrow> 'm" where
  "load_or_empty r fallback none =
     (case r of Inr m \<Rightarrow> m | Inl e \<Rightarrow> (case fallback of Inr m \<Rightarrow> m | Inl e' \<Rightarrow> none))"

text \<open>\<open>New\<close> on a configuration whose defaults are applied.\<close>

definition New_server ::
    "instant \<Rightarrow> unmarshaller \<Rightarrow> (string \<Rightarrow> string + policy) \<Rightarrow> filesys \<Rightarrow> config \<Rightarrow> new_error + server"
where
  "New_server now tokens_yaml acl_yaml fs cfg =
     (if cfg_Expose cfg \<notin> {[], ExposeAll, ExposeLabeled} then Inl (InvalidExpose (cfg_Expose cfg))
      else case baseIPFromSubnet (cfg_Subnet cfg) of
             None \<Rightarrow> Inl (InvalidSubnet (cfg_Subnet cfg))
           | Some baseIP \<Rightarrow>
               (case NewManager tokens_yaml fs (cfg_TokensPath cfg) of
                  Inl e \<Rightarrow> Inl (LoadTokens e)
                | Inr tm \<Rightarrow> Inr
                    \<lparr>sv_cfg = cfg, sv_tokens = tm,
                     sv_whitelist = load_or_empty (NewWhitelistManager fs WhitelistFile)
                       (NewWhitelistManager fs []) \<lparr>wm_path = [], wm_entries = []\<rparr>,
                     sv_forwards = load_or_empty (NewForwardsManager fs ForwardsFile)
                       (NewForwardsManager fs []) \<lparr>fm_path = [], fm_entries = []\<rparr>,
                     sv_sshKeys = load_or_empty (NewSSHKeysManager fs SSHKeysFile)
                       (NewSSHKeysManager fs []) \<lparr>sm_path = [], sm_entries = []\<rparr>,
                     sv_clients = newClientRegistry baseIP, sv_limiter = NewRateLimiter,
                     sv_acl = (if cfg_ACLPath cfg = [] then None
                               else Some (fst (Load acl_yaml fs (cfg_ACLPath cfg)))),
                     sv_metrics = newMetrics now, sv_expose = new_expose cfg, sv_done = False,
                     sv_fs = fs, sv_conns = [], sv_tun = []\<rparr>))"

definition Shutdown :: "server \<Rightarrow> server" where
  "Shutdown s = (if sv_done s then s else s\<lparr>sv_done := True\<rparr>)"

text \<open>The handler of \<open>SIGHUP\<close>.\<close>

definition reload_acl :: "(string \<Rightarrow> string + policy) \<Rightarrow> server \<Rightarrow> server" where
  "reload_acl acl_yaml s =
     (case sv_acl s of
        None \<Rightarrow> s
      | Some e \<Rightarrow> s\<lparr>sv_acl := Some (fst (Reload acl_yaml (sv_fs s) e))\<rparr>)"

section \<open>Connections\<close>

definition upd_conn :: "nat \<Rightarrow> (conn \<Rightarrow> conn) \<Rightarrow> server \<Rightarrow> server" where
  "upd_conn cid f s = s\<lparr>sv_conns := (sv_conns s)[cid := f (sv_conns s ! cid)]\<rparr>"

definition close_conn :: "nat \<Rightarrow> server \<Rightarrow> server" where
  "close_conn cid = upd_conn cid (\<lambda>c. c\<lparr>cn_closed := True\<rparr>)"

definition closed_error :: frame_error where
  "closed_error = FrameIO (IOError ''use of closed network connection'')"

definition conn_send :: "nat \<Rightarrow> byte \<Rightarrow> bytes \<Rightarrow> server \<Rightarrow> server \<times> frame_error option" where
  "conn_send cid t p s =
     (let c = sv_conns s ! cid
      in if cn_closed c then (s, Some closed_error)
         else let (w, e) = WriteFrame (cn_wr c) t p
              in (upd_conn cid (\<lambda>c. c\<lparr>cn_wr := w\<rparr>) s, e))"

definition conn_recv :: "nat \<Rightarrow> server \<Rightarrow> (frame_error + byte \<times> bytes) \<times> server" where
  "conn_recv cid s =
     (let c = sv_conns s ! cid
      in if cn_closed c then (Inl closed_error, s)
         else let (r, rd) = ReadFrame (cn_rd c)
              in (r, upd_conn cid (\<lambda>c. c\<lparr>cn_rd := rd\<rparr>) s))"

definition upd_metrics :: "(metrics \<Rightarrow> metrics) \<Rightarrow> server \<Rightarrow> server" where
  "upd_metrics f s = s\<lparr>sv_metrics := f (sv_metrics s)\<rparr>"

definition upd_reg :: "(registry \<Rightarrow> registry) \<Rightarrow> server \<Rightarrow> server" where
  "upd_reg f s = s\<lparr>sv_clients := f (sv_clients s)\<rparr>"

definition client_at :: "server \<Rightarrow> nat \<Rightarrow> client" where
  "client_at s i = reg_heap (sv_clients s) ! i"

section \<open>The front door\<close>

text \<open>The readings of the clock while one connection is let in.\<close>

record door =
  dr_ban :: instant
  dr_validate :: instant
  dr_fail :: instant
  dr_assign :: instant

datatype outcome =
    Banned
  | ReadFailed frame_error
  | UnexpectedType byte
  | BadRequest
  | Denied token_error
  | ProxySendFailed frame_error
  | ProxyAccepted string
  | NoAddress
  | TunnelSendFailed nat frame_error
  | TunnelOpen nat

definition pushRoutes :: "server \<Rightarrow> string list" where
  "pushRoutes s =
     (if cfg_NoPush (sv_cfg s) then []
      else case sv_expose s of
             None \<Rightarrow> cfg_PushRoutes (sv_cfg s)
           | Some e \<Rightarrow> cfg_PushRoutes (sv_cfg s) @ exposed_routes e)"

text \<open>Whitelist first, then the token; a refusal counts against the address, a success clears
  it.\<close>

definition admit ::
    "marshaller \<Rightarrow> door \<Rightarrow> string \<Rightarrow> string \<Rightarrow> server \<Rightarrow> (token_error + string) \<times> server" where
  "admit marshal d remoteIP raw s =
     (case wl_Contains (sv_whitelist s) remoteIP of
        Some wlName \<Rightarrow> (Inr wlName, s)
      | None \<Rightarrow>
          (case Validate marshal (sv_fs s) (dr_validate d) (sv_tokens s) raw of
             (Inl e, tm, fs) \<Rightarrow>
               (Inl e, upd_metrics IncAuthFailure
                  (s\<lparr>sv_tokens := tm, sv_fs := fs,
                     sv_limiter := RecordFailure (dr_fail d) (sv_limiter s) remoteIP\<rparr>))
           | (Inr tok, tm, fs) \<Rightarrow>
               (Inr (tok_Name tok),
                s\<lparr>sv_tokens := tm, sv_fs := fs, sv_limiter := Reset (sv_limiter s) remoteIP\<rparr>)))"

definition send_auth_fail :: "nat \<Rightarrow> string \<Rightarrow> server \<Rightarrow> server" where
  "send_auth_fail cid reason s =
     fst (conn_send cid TypeAuthFail (Encode (json_AuthFailResponse \<lparr>af_Reason = reason\<rparr>)) s)"

text \<open>What the deferred calls of \<open>handleConn\<close> do once a client is registered.\<close>

definition finish_client :: "nat \<Rightarrow> server \<Rightarrow> server" where
  "finish_client i s =
     (let c = client_at s i
      in close_conn (c_conn c) (upd_reg (\<lambda>r. Remove_client r (c_ip c)) (upd_metrics DecConnected s)))"

definition auth_ok_response :: "server \<Rightarrow> string \<Rightarrow> AuthOKResponse" where
  "auth_ok_response s ip =
     \<lparr>ok_ClientIP = ip, ok_ServerIP = cfg_ServerIP (sv_cfg s), ok_Subnet = cfg_Subnet (sv_cfg s),
      ok_Routes = pushRoutes s, ok_DNS = cfg_PushDNS (sv_cfg s)\<rparr>"

definition open_tunnel :: "door \<Rightarrow> nat \<Rightarrow> string \<Rightarrow> server \<Rightarrow> outcome \<times> server" where
  "open_tunnel d cid name s =
     (case Assign (dr_assign d) (sv_clients s) name cid of
        (Inl e, r) \<Rightarrow> (NoAddress, close_conn cid (send_auth_fail cid ''no IP available'' s))
      | (Inr i, r) \<Rightarrow>
          let s1 = upd_metrics IncConnected (s\<lparr>sv_clients := r\<rparr>);
              resp = auth_ok_response s1 (c_ip (reg_heap r ! i))
          in (case conn_send cid TypeAuthOK (Encode (json_AuthOKResponse resp)) s1 of
                (s2, Some e) \<Rightarrow> (TunnelSendFailed i e, finish_client i s2)
              | (s2, None) \<Rightarrow> (TunnelOpen i, s2)))"

definition open_proxy :: "nat \<Rightarrow> string \<Rightarrow> server \<Rightarrow> outcome \<times> server" where
  "open_proxy cid name s =
     (case conn_send cid TypeAuthOK (Encode (json_AuthOKResponse zero_AuthOK)) s of
        (s1, Some e) \<Rightarrow> (ProxySendFailed e, close_conn cid s1)
      | (s1, None) \<Rightarrow> (ProxyAccepted name, s1))"

text \<open>The first frame of a connection: the request it carries, or why it is turned away.\<close>

definition read_request :: "nat \<Rightarrow> server \<Rightarrow> (outcome + AuthRequest) \<times> server" where
  "read_request cid s =
     (case conn_recv cid s of
        (Inl e, s1) \<Rightarrow> (Inl (ReadFailed e), s1)
      | (Inr (msgType, payload), s1) \<Rightarrow>
          if msgType \<noteq> TypeAuth then (Inl (UnexpectedType msgType), s1)
          else (case decode_AuthRequest payload of
                  Inl u \<Rightarrow> (Inl BadRequest, s1)
                | Inr req \<Rightarrow> (Inr req, s1)))"

definition handleConn :: "marshaller \<Rightarrow> door \<Rightarrow> nat \<Rightarrow> server \<Rightarrow> outcome \<times> server" where
  "handleConn marshal d cid s =
     (let remoteIP = host_of (cn_addr (sv_conns s ! cid));
          (banned, lim) = IsBanned (dr_ban d) (sv_limiter s) remoteIP;
          s1 = s\<lparr>sv_limiter := lim\<rparr>
      in if banned then (Banned, close_conn cid s1)
         else case read_request cid s1 of
                (Inl out, s2) \<Rightarrow> (out, close_conn cid s2)
              | (Inr req, s2) \<Rightarrow>
                  (case admit marshal d remoteIP (ar_Token req) s2 of
                     (Inl e, s3) \<Rightarrow>
                       (Denied e, close_conn cid (send_auth_fail cid (validate_message e) s3))
                   | (Inr clientName, s3) \<Rightarrow>
                       if ar_Mode req = ''proxy'' then open_proxy cid clientName s3
                       else open_tunnel d cid clientName s3))"

section \<open>Serving a client\<close>

text \<open>One iteration of \<open>forwardToTUN\<close>: whether the loop goes on. \<open>tun_err\<close> says that the device
  refuses a write.\<close>

definition forwardToTUN_step :: "instant \<Rightarrow> bool \<Rightarrow> nat \<Rightarrow> server \<Rightarrow> bool \<times> server" where
  "forwardToTUN_step now tun_err i s =
     (case conn_recv (c_conn (client_at s i)) s of
        (Inl e, s1) \<Rightarrow> (False, s1)
      | (Inr (msgType, payload), s1) \<Rightarrow>
          let s2 = upd_reg (upd_client i (Touch now)) s1
          in if msgType = TypeIPPacket then
               (if (case sv_expose s2 of None \<Rightarrow> False | Some e \<Rightarrow> \<not> allowPacket e payload)
                then (True, upd_metrics IncDropped s2)
                else if tun_err then (False, s2)
                else (True, upd_metrics (AddBytesIn (length payload))
                       (upd_reg (upd_client i
                           (\<lambda>c. c\<lparr>c_bytesIn := c_bytesIn c + word_of_nat (length payload)\<rparr>))
                         (s2\<lparr>sv_tun := sv_tun s2 @ [payload]\<rparr>))))
             else if msgType = TypePing then
               (True, fst (conn_send (c_conn (client_at s2 i)) TypePong [] s2))
             else if msgType = TypeDisconnect then (False, s2)
             else (True, s2))"

text \<open>The deferred function of \<open>forwardToTUN\<close>, in its two steps.\<close>

definition mark_dead :: "nat \<Rightarrow> server \<Rightarrow> server" where
  "mark_dead i = upd_reg (upd_client i (\<lambda>c. c\<lparr>c_dead := True\<rparr>))"

definition close_sendCh :: "nat \<Rightarrow> server \<Rightarrow> server" where
  "close_sendCh i = upd_reg (upd_client i (\<lambda>c. c\<lparr>c_closed := True\<rparr>))"

text \<open>The destination field of an IPv4 header.\<close>

definition destIP :: "bytes \<Rightarrow> string" where
  "destIP pkt = dotted [pkt ! 16, pkt ! 17, pkt ! 18, pkt ! 19]"

text \<open>One packet of \<open>routeFromTUN\<close> up to the check of \<open>dead\<close>: the client it is for, if it is
  to be sent.\<close>

definition route_lookup :: "bytes \<Rightarrow> server \<Rightarrow> nat option \<times> server" where
  "route_lookup pkt s =
     (if length pkt < 20 then (None, s)
      else case GetByIP (sv_clients s) (destIP pkt) of
             None \<Rightarrow> (None, s)
           | Some i \<Rightarrow>
               if (case sv_acl s of None \<Rightarrow> False | Some e \<Rightarrow> \<not> Allow e (c_name (client_at s i)) pkt)
               then (None, upd_metrics IncDropped s)
               else if c_dead (client_at s i) then (None, upd_metrics IncDropped s)
               else (Some i, s))"

text \<open>The \<open>select\<close> that follows: a send on a closed channel panics, \<open>None\<close>; a full channel drops
  the packet.\<close>

definition route_send :: "nat \<Rightarrow> bytes \<Rightarrow> server \<Rightarrow> server option" where
  "route_send i pkt s =
     (let c = client_at s i
      in if c_closed c then None
         else if length (c_sendCh c) < sendCh_cap
         then Some (upd_reg (upd_client i (\<lambda>c. c\<lparr>c_sendCh := c_sendCh c @ [pkt]\<rparr>)) s)
         else Some (upd_metrics IncDropped s))"

datatype write_result = WrBlocked | WrSent | WrFinished

text \<open>One iteration of the writer loop of \<open>handleConn\<close>, and its deferred calls when it ends.\<close>

definition writer_step :: "nat \<Rightarrow> server \<Rightarrow> write_result \<times> server" where
  "writer_step i s =
     (let c = client_at s i
      in case c_sendCh c of
           [] \<Rightarrow> if c_closed c then (WrFinished, finish_client i s) else (WrBlocked, s)
         | pkt # rest \<Rightarrow>
             let s1 = upd_reg (upd_client i (\<lambda>c. c\<lparr>c_sendCh := rest\<rparr>)) s
             in (case conn_send (c_conn c) TypeIPPacket pkt s1 of
                   (s2, Some e) \<Rightarrow> (WrFinished, finish_client i s2)
                 | (s2, None) \<Rightarrow>
                     (WrSent, upd_metrics (AddBytesOut (length pkt))
                        (upd_reg (upd_client i
                           (\<lambda>c. c\<lparr>c_bytesOut := c_bytesOut c + word_of_nat (length pkt)\<rparr>)) s2))))"

text \<open>A tick of the reaper: the connections idle for three minutes are closed.\<close>

definition reaper_tick :: "string list \<Rightarrow> instant \<Rightarrow> server \<Rightarrow> server" where
  "reaper_tick order now s =
     foldl (\<lambda>s cid. close_conn cid s) s (StaleConns order now (minutes 3) (sv_clients s))"

text \<open>What the API's disconnect does.\<close>

definition disconnect_client :: "string list \<Rightarrow> string \<Rightarrow> server \<Rightarrow> bool \<times> server" where
  "disconnect_client order name s =
     (case GetByName order (sv_clients s) name of
        None \<Rightarrow> (False, s)
      | Some i \<Rightarrow> (True, close_conn (c_conn (client_at s i)) s))"

section \<open>What each part leaves alone\<close>

lemma upd_conn_frame [simp]:
  "sv_cfg (upd_conn c f s) = sv_cfg s" "sv_tokens (upd_conn c f s) = sv_tokens s"
  "sv_whitelist (upd_conn c f s) = sv_whitelist s" "sv_forwards (upd_conn c f s) = sv_forwards s"
  "sv_sshKeys (upd_conn c f s) = sv_sshKeys s" "sv_clients (upd_conn c f s) = sv_clients s"
  "sv_limiter (upd_conn c f s) = sv_limiter s" "sv_acl (upd_conn c f s) = sv_acl s"
  "sv_metrics (upd_conn c f s) = sv_metrics s" "sv_expose (upd_conn c f s) = sv_expose s"
  "sv_fs (upd_conn c f s) = sv_fs s" "sv_tun (upd_conn c f s) = sv_tun s"
  "length (sv_conns (upd_conn c f s)) = length (sv_conns s)"
  by (simp_all add: upd_conn_def)

lemma upd_conn_conns:
  "sv_conns (upd_conn c f s) = (sv_conns s)[c := f (sv_conns s ! c)]"
  by (simp add: upd_conn_def)

lemma close_conn_frame [simp]:
  "sv_cfg (close_conn c s) = sv_cfg s" "sv_tokens (close_conn c s) = sv_tokens s"
  "sv_whitelist (close_conn c s) = sv_whitelist s" "sv_forwards (close_conn c s) = sv_forwards s"
  "sv_sshKeys (close_conn c s) = sv_sshKeys s" "sv_clients (close_conn c s) = sv_clients s"
  "sv_limiter (close_conn c s) = sv_limiter s" "sv_acl (close_conn c s) = sv_acl s"
  "sv_metrics (close_conn c s) = sv_metrics s" "sv_expose (close_conn c s) = sv_expose s"
  "sv_fs (close_conn c s) = sv_fs s" "sv_tun (close_conn c s) = sv_tun s"
  "length (sv_conns (close_conn c s)) = length (sv_conns s)"
  by (simp_all add: close_conn_def)

lemma upd_metrics_frame [simp]:
  "sv_cfg (upd_metrics f s) = sv_cfg s" "sv_tokens (upd_metrics f s) = sv_tokens s"
  "sv_whitelist (upd_metrics f s) = sv_whitelist s" "sv_forwards (upd_metrics f s) = sv_forwards s"
  "sv_sshKeys (upd_metrics f s) = sv_sshKeys s" "sv_clients (upd_metrics f s) = sv_clients s"
  "sv_limiter (upd_metrics f s) = sv_limiter s" "sv_acl (upd_metrics f s) = sv_acl s"
  "sv_metrics (upd_metrics f s) = f (sv_metrics s)" "sv_expose (upd_metrics f s) = sv_expose s"
  "sv_fs (upd_metrics f s) = sv_fs s" "sv_tun (upd_metrics f s) = sv_tun s"
  "sv_conns (upd_metrics f s) = sv_conns s"
  by (simp_all add: upd_metrics_def)

lemma upd_reg_frame [simp]:
  "sv_cfg (upd_reg f s) = sv_cfg s" "sv_tokens (upd_reg f s) = sv_tokens s"
  "sv_whitelist (upd_reg f s) = sv_whitelist s" "sv_forwards (upd_reg f s) = sv_forwards s"
  "sv_sshKeys (upd_reg f s) = sv_sshKeys s" "sv_clients (upd_reg f s) = f (sv_clients s)"
  "sv_limiter (upd_reg f s) = sv_limiter s" "sv_acl (upd_reg f s) = sv_acl s"
  "sv_metrics (upd_reg f s) = sv_metrics s" "sv_expose (upd_reg f s) = sv_expose s"
  "sv_fs (upd_reg f s) = sv_fs s" "sv_tun (upd_reg f s) = sv_tun s"
  "sv_conns (upd_reg f s) = sv_conns s"
  by (simp_all add: upd_reg_def)

lemma client_at_frame [simp]:
  "client_at (upd_conn c f s) i = client_at s i" "client_at (close_conn c s) i = client_at s i"
  "client_at (upd_metrics g s) i = client_at s i"
  by (simp_all add: client_at_def)

lemma conn_send_cases:
  obtains f e where "conn_send cid t p s = (upd_conn cid f s, e)"
    "\<And>c. cn_addr (f c) = cn_addr c" "\<And>c. cn_rd (f c) = cn_rd c" "\<And>c. cn_closed (f c) = cn_closed c"
proof (cases "cn_closed (sv_conns s ! cid)")
  case True
  have id: "upd_conn cid (\<lambda>c. c) s = s" by (simp add: upd_conn_def)
  show ?thesis
    by (rule that [of "\<lambda>c. c" "Some closed_error"]) (use True id in \<open>simp_all add: conn_send_def\<close>)
next
  case False
  obtain w e where w: "WriteFrame (cn_wr (sv_conns s ! cid)) t p = (w, e)"
    by (metis prod.exhaust)
  show ?thesis
    by (rule that [of "\<lambda>c. c\<lparr>cn_wr := w\<rparr>" e]) (use False w in \<open>simp_all add: conn_send_def\<close>)
qed

lemma conn_recv_cases:
  obtains f r where "conn_recv cid s = (r, upd_conn cid f s)"
    "\<And>c. cn_addr (f c) = cn_addr c" "\<And>c. cn_wr (f c) = cn_wr c" "\<And>c. cn_closed (f c) = cn_closed c"
proof (cases "cn_closed (sv_conns s ! cid)")
  case True
  have id: "upd_conn cid (\<lambda>c. c) s = s" by (simp add: upd_conn_def)
  show ?thesis
    by (rule that [of "Inl closed_error" "\<lambda>c. c"]) (use True id in \<open>simp_all add: conn_recv_def\<close>)
next
  case False
  obtain r rd where r: "ReadFrame (cn_rd (sv_conns s ! cid)) = (r, rd)"
    by (metis prod.exhaust)
  show ?thesis
    by (rule that [of r "\<lambda>c. c\<lparr>cn_rd := rd\<rparr>"]) (use False r in \<open>simp_all add: conn_recv_def\<close>)
qed

section \<open>Who gets in\<close>

lemma admit_Inr:
  assumes "admit marshal d remoteIP raw s = (Inr name, s')"
  shows "wl_Contains (sv_whitelist s) remoteIP = Some name \<and> s' = s \<or>
    wl_Contains (sv_whitelist s) remoteIP = None \<and>
    (\<exists>tok tm fs. Validate marshal (sv_fs s) (dr_validate d) (sv_tokens s) raw = (Inr tok, tm, fs) \<and>
       name = tok_Name tok \<and>
       s' = s\<lparr>sv_tokens := tm, sv_fs := fs, sv_limiter := Reset (sv_limiter s) remoteIP\<rparr>)"
  using assms by (auto simp: admit_def split: option.splits prod.splits sum.splits)

lemma admit_Inl:
  assumes "admit marshal d remoteIP raw s = (Inl e, s')"
  shows "wl_Contains (sv_whitelist s) remoteIP = None \<and>
    (\<exists>tm fs. Validate marshal (sv_fs s) (dr_validate d) (sv_tokens s) raw = (Inl e, tm, fs) \<and>
       s' = upd_metrics IncAuthFailure (s\<lparr>sv_tokens := tm, sv_fs := fs,
         sv_limiter := RecordFailure (dr_fail d) (sv_limiter s) remoteIP\<rparr>))"
  using assms by (auto simp: admit_def split: option.splits prod.splits sum.splits)

lemma Validate_Inl_frame:
  "Validate marshal fs now m raw = (Inl e, m', fs') \<Longrightarrow> m' = m \<and> fs' = fs"
  by (auto simp: Validate_def Let_def split: prod.splits sum.splits if_splits dest: validate_loop_Inl)

lemma read_request_Inr:
  assumes "read_request cid s = (Inr req, s')"
  shows "\<exists>payload. conn_recv cid s = (Inr (TypeAuth, payload), s') \<and> decode_AuthRequest payload = Inr req"
  using assms by (auto simp: read_request_def split: prod.splits sum.splits if_splits)

lemma read_request_frame:
  assumes "read_request cid s = (r, s')"
  shows "\<exists>f. s' = upd_conn cid f s"
proof -
  obtain f q where q: "conn_recv cid s = (q, upd_conn cid f s)" by (rule conn_recv_cases)
  with assms show ?thesis
    by (auto simp: read_request_def split: sum.splits if_splits)
qed

definition remote_of :: "server \<Rightarrow> nat \<Rightarrow> string" where
  "remote_of s cid = host_of (cn_addr (sv_conns s ! cid))"

definition granted :: "outcome \<Rightarrow> bool" where
  "granted out \<longleftrightarrow> (\<exists>name. out = ProxyAccepted name) \<or> (\<exists>i. out = TunnelOpen i)"

lemma open_proxy_outcome:
  "open_proxy cid name s = (out, s') \<Longrightarrow> out = ProxyAccepted name \<or> (\<exists>e. out = ProxySendFailed e)"
  by (auto simp: open_proxy_def split: prod.splits option.splits)

lemma handleConn_granted:
  assumes "handleConn marshal d cid s = (out, s')" and "granted out"
  shows "\<not> fst (IsBanned (dr_ban d) (sv_limiter s) (remote_of s cid)) \<and>
    (\<exists>payload req. fst (conn_recv cid s) = Inr (TypeAuth, payload) \<and>
       decode_AuthRequest payload = Inr req \<and>
       (wl_Contains (sv_whitelist s) (remote_of s cid) \<noteq> None \<or>
        (\<exists>tok. fst (Validate marshal (sv_fs s) (dr_validate d) (sv_tokens s) (ar_Token req)) = Inr tok)))"
proof -
  let ?ip = "remote_of s cid"
  obtain banned lim where b: "IsBanned (dr_ban d) (sv_limiter s) ?ip = (banned, lim)"
    by (metis prod.exhaust)
  define s1 where "s1 = s\<lparr>sv_limiter := lim\<rparr>"
  obtain r s2 where r: "read_request cid s1 = (r, s2)" by (metis prod.exhaust)
  have run: "handleConn marshal d cid s =
      (if banned then (Banned, close_conn cid s1)
       else case (r, s2) of (Inl out, s2) \<Rightarrow> (out, close_conn cid s2)
        | (Inr req, s2) \<Rightarrow> (case admit marshal d ?ip (ar_Token req) s2 of
              (Inl e, s3) \<Rightarrow> (Denied e, close_conn cid (send_auth_fail cid (validate_message e) s3))
            | (Inr clientName, s3) \<Rightarrow>
                if ar_Mode req = ''proxy'' then open_proxy cid clientName s3
                else open_tunnel d cid clientName s3))"
    using b r unfolding remote_of_def s1_def by (simp add: handleConn_def)
  have ok: "\<not> banned" using run assms by (auto simp: granted_def)
  obtain req where req: "r = Inr req"
  proof (cases r)
    case (Inl o')
    then have "out = o'" using run assms(1) ok by simp
    with Inl r assms(2) show ?thesis
      by (auto simp: read_request_def granted_def split: prod.splits sum.splits if_splits)
  qed (rule that)
  obtain name s3 where adm: "admit marshal d ?ip (ar_Token req) s2 = (Inr name, s3)"
    using run assms ok req by (cases "admit marshal d ?ip (ar_Token req) s2")
      (auto simp: granted_def split: sum.splits)
  obtain payload where p: "conn_recv cid s1 = (Inr (TypeAuth, payload), s2)"
    "decode_AuthRequest payload = Inr req"
    using read_request_Inr [of cid s1 req s2] r req by blast
  obtain f where f: "s2 = upd_conn cid f s1" using read_request_frame [OF r] by blast
  have same: "sv_whitelist s2 = sv_whitelist s" "sv_fs s2 = sv_fs s" "sv_tokens s2 = sv_tokens s"
    by (simp_all add: f s1_def)
  have recv: "fst (conn_recv cid s) = Inr (TypeAuth, payload)"
    using p(1) by (auto simp: conn_recv_def s1_def Let_def split: prod.splits if_splits)
  from admit_Inr [OF adm] same have
    "wl_Contains (sv_whitelist s) ?ip \<noteq> None \<or>
     (\<exists>tok. fst (Validate marshal (sv_fs s) (dr_validate d) (sv_tokens s) (ar_Token req)) = Inr tok)"
    by auto
  with b ok recv p(2) show ?thesis by auto
qed

text \<open>A banned address is turned away before a byte of it is read.\<close>

lemma handleConn_banned:
  assumes "fst (IsBanned (dr_ban d) (sv_limiter s) (remote_of s cid))"
  shows "handleConn marshal d cid s = (Banned, close_conn cid s)"
proof -
  have "IsBanned (dr_ban d) (sv_limiter s) (remote_of s cid) = (True, sv_limiter s)"
    using assms by (auto simp: IsBanned_def split: option.splits if_splits)
  then show ?thesis by (simp add: handleConn_def remote_of_def)
qed

section \<open>Addresses handed out\<close>

lemma open_tunnel_open:
  assumes "open_tunnel d cid name s = (TunnelOpen i, s')"
  shows "\<exists>r. Assign (dr_assign d) (sv_clients s) name cid = (Inr i, r) \<and> sv_clients s' = r \<and>
    sv_metrics s' = IncConnected (sv_metrics s)"
proof -
  obtain res r where a: "Assign (dr_assign d) (sv_clients s) name cid = (res, r)"
    by (metis prod.exhaust)
  show ?thesis
  proof (cases res)
    case (Inl e)
    with assms a show ?thesis by (simp add: open_tunnel_def)
  next
    case (Inr j)
    define s1 where "s1 = upd_metrics IncConnected (s\<lparr>sv_clients := r\<rparr>)"
    obtain f e where snd: "conn_send cid TypeAuthOK
        (Encode (json_AuthOKResponse (auth_ok_response s1 (c_ip (reg_heap r ! j))))) s1 = (upd_conn cid f s1, e)"
      by (rule conn_send_cases)
    with assms a Inr have "e = None" "j = i" "s' = upd_conn cid f s1"
      by (auto simp: open_tunnel_def Let_def s1_def split: option.splits)
    with a Inr show ?thesis by (simp add: s1_def)
  qed
qed

section \<open>Packets into the device\<close>

text \<open>What one iteration of \<open>forwardToTUN\<close> writes to the device: nothing, or the packet it read,
  if labeled mode lets it pass.\<close>

lemma forwardToTUN_tun:
  assumes "forwardToTUN_step now te i s = (go, s')"
  shows "sv_tun s' = sv_tun s \<or>
    (\<exists>p. fst (conn_recv (c_conn (client_at s i)) s) = Inr (TypeIPPacket, p) \<and>
       sv_tun s' = sv_tun s @ [p] \<and> (\<forall>e. sv_expose s = Some e \<longrightarrow> allowPacket e p))"
proof -
  let ?cid = "c_conn (client_at s i)"
  obtain f r where r: "conn_recv ?cid s = (r, upd_conn ?cid f s)" by (rule conn_recv_cases)
  show ?thesis
  proof (cases r)
    case (Inl e)
    with r assms have "s' = upd_conn ?cid f s" by (simp add: forwardToTUN_step_def)
    then show ?thesis by simp
  next
    case (Inr tp)
    obtain t p where tp: "tp = (t, p)" by (cases tp)
    define s2 where "s2 = upd_reg (upd_client i (Touch now)) (upd_conn ?cid f s)"
    have s2: "sv_tun s2 = sv_tun s" "sv_expose s2 = sv_expose s" by (simp_all add: s2_def)
    obtain g e where snd: "conn_send (c_conn (client_at s2 i)) TypePong [] s2 =
        (upd_conn (c_conn (client_at s2 i)) g s2, e)"
      by (rule conn_send_cases)
    show ?thesis
      using assms r Inr tp s2 snd
      unfolding forwardToTUN_step_def s2_def [symmetric]
      by (auto simp: Let_def s2_def [symmetric] split: if_splits option.splits)
  qed
qed

text \<open>What \<open>routeFromTUN\<close> passes on: only to the client that owns the destination address, and
  only what the policy allows.\<close>

lemma route_lookup_Some:
  assumes "route_lookup pkt s = (Some i, s')"
  shows "s' = s \<and> 20 \<le> length pkt \<and> reg_clients (sv_clients s) (destIP pkt) = Some i \<and>
    \<not> c_dead (client_at s i) \<and>
    (\<forall>e. sv_acl s = Some e \<longrightarrow> Allow e (c_name (client_at s i)) pkt)"
  using assms
  by (auto simp: route_lookup_def GetByIP_def split: if_splits option.splits)

lemma route_lookup_None:
  assumes "route_lookup pkt s = (None, s')"
  shows "s' = s \<and> (length pkt < 20 \<or> reg_clients (sv_clients s) (destIP pkt) = None) \<or>
    s' = upd_metrics IncDropped s"
  using assms
  by (auto simp: route_lookup_def GetByIP_def split: if_splits option.splits)

section \<open>Connections that work\<close>

lemma conn_recv_frame:
  assumes "\<not> cn_closed (sv_conns s ! cid)" and "length p < maxFrameSize"
    and "rd_buf (cn_rd (sv_conns s ! cid)) = frame_bytes t p @ rest"
  shows "conn_recv cid s =
    (Inr (t, p), upd_conn cid (\<lambda>c. c\<lparr>cn_rd := (cn_rd (sv_conns s ! cid))\<lparr>rd_buf := rest\<rparr>\<rparr>) s)"
  using assms ReadFrame_frame_bytes [OF assms(2,3)] by (simp add: conn_recv_def)

lemma conn_send_frame:
  assumes "\<not> cn_closed (sv_conns s ! cid)" and "length p < maxFrameSize"
    and "wr_fail (cn_wr (sv_conns s ! cid)) = None"
  shows "conn_send cid t p s =
    (upd_conn cid (\<lambda>c. c\<lparr>cn_wr := (cn_wr (sv_conns s ! cid))
        \<lparr>wr_out := wr_out (cn_wr (sv_conns s ! cid)) @ frame_bytes t p\<rparr>\<rparr>) s, None)"
  using assms by (simp add: conn_send_def WriteFrame_ok Let_def)

lemma auth_ok_response_cong:
  assumes "sv_cfg s' = sv_cfg s" and "sv_expose s' = sv_expose s"
  shows "auth_ok_response s' = auth_ok_response s"
proof -
  have "pushRoutes s' = pushRoutes s" unfolding pushRoutes_def assms ..
  then show ?thesis by (simp add: auth_ok_response_def assms fun_eq_iff)
qed

lemma auth_ok_response_frame [simp]:
  "auth_ok_response (upd_conn cid f s) = auth_ok_response s"
  "auth_ok_response (upd_metrics g s) = auth_ok_response s"
  "auth_ok_response (s\<lparr>sv_clients := r\<rparr>) = auth_ok_response s"
  "auth_ok_response (s\<lparr>sv_limiter := l\<rparr>) = auth_ok_response s"
  by (rule auth_ok_response_cong; simp)+

text \<open>A connection that carries a request, and whose writes succeed.\<close>

definition asks :: "server \<Rightarrow> nat \<Rightarrow> AuthRequest \<Rightarrow> bytes \<Rightarrow> bool" where
  "asks s cid req rest \<longleftrightarrow>
     cid < length (sv_conns s) \<and> \<not> cn_closed (sv_conns s ! cid) \<and>
     wr_fail (cn_wr (sv_conns s ! cid)) = None \<and>
     rd_buf (cn_rd (sv_conns s ! cid)) = frame_bytes TypeAuth (Encode (json_AuthRequest req)) @ rest \<and>
     utf8_valid (ar_Token req) \<and> utf8_valid (ar_Mode req) \<and>
     length (Encode (json_AuthRequest req)) < maxFrameSize"

lemma read_request_asks:
  assumes "asks s cid req rest"
  shows "read_request cid s =
    (Inr req, upd_conn cid (\<lambda>c. c\<lparr>cn_rd := (cn_rd (sv_conns s ! cid))\<lparr>rd_buf := rest\<rparr>\<rparr>) s)"
  using assms conn_recv_frame [of s cid "Encode (json_AuthRequest req)" TypeAuth rest]
    decode_encode_AuthRequest [of req]
  by (simp add: asks_def read_request_def)

text \<open>A whitelisted client that asks for a tunnel gets one, with the lowest free address.\<close>

lemma handleConn_whitelisted:
  assumes asks: "asks s cid req rest" and mode: "ar_Mode req \<noteq> ''proxy''"
    and unbanned: "rl_bans (sv_limiter s) (remote_of s cid) = None"
    and wl: "wl_Contains (sv_whitelist s) (remote_of s cid) = Some name"
    and addr: "Assign (dr_assign d) (sv_clients s) name cid = (Inr i, r)"
    and fits: "length (Encode (json_AuthOKResponse (auth_ok_response s (c_ip (reg_heap r ! i))))) < maxFrameSize"
  shows "handleConn marshal d cid s =
    (TunnelOpen i,
     upd_conn cid (\<lambda>c. c\<lparr>cn_rd := (cn_rd c)\<lparr>rd_buf := rest\<rparr>,
         cn_wr := (cn_wr c)\<lparr>wr_out := wr_out (cn_wr c) @ frame_bytes TypeAuthOK
           (Encode (json_AuthOKResponse (auth_ok_response s (c_ip (reg_heap r ! i)))))\<rparr>\<rparr>)
       (upd_metrics IncConnected (s\<lparr>sv_clients := r\<rparr>)))"
proof -
  let ?f = "\<lambda>c. c\<lparr>cn_rd := (cn_rd (sv_conns s ! cid))\<lparr>rd_buf := rest\<rparr>\<rparr>"
  let ?s2 = "upd_conn cid ?f s"
  let ?s3 = "upd_metrics IncConnected (?s2\<lparr>sv_clients := r\<rparr>)"
  let ?p = "Encode (json_AuthOKResponse (auth_ok_response s (c_ip (reg_heap r ! i))))"
  have cid: "cid < length (sv_conns s)" using asks by (simp add: asks_def)
  have c3: "sv_conns ?s3 ! cid = ?f (sv_conns s ! cid)" using cid by (simp add: upd_conn_conns)
  have ban: "IsBanned (dr_ban d) (sv_limiter s) (remote_of s cid) = (False, sv_limiter s)"
    using unbanned by (simp add: IsBanned_def)
  have "handleConn marshal d cid s = open_tunnel d cid name ?s2"
    using read_request_asks [OF asks] ban wl mode
    by (simp add: handleConn_def admit_def Let_def remote_of_def [symmetric])
  also have "\<dots> = (TunnelOpen i, fst (conn_send cid TypeAuthOK ?p ?s3))"
    using conn_send_frame [of ?s3 cid ?p TypeAuthOK] asks addr fits c3
    by (simp add: open_tunnel_def Let_def asks_def)
  also have "fst (conn_send cid TypeAuthOK ?p ?s3) =
      upd_conn cid (\<lambda>c. c\<lparr>cn_rd := (cn_rd c)\<lparr>rd_buf := rest\<rparr>,
         cn_wr := (cn_wr c)\<lparr>wr_out := wr_out (cn_wr c) @ frame_bytes TypeAuthOK ?p\<rparr>\<rparr>)
       (upd_metrics IncConnected (s\<lparr>sv_clients := r\<rparr>))"
    using conn_send_frame [of ?s3 cid ?p TypeAuthOK] asks fits c3 cid
    by (simp add: asks_def upd_conn_def upd_metrics_def)
  finally show ?thesis .
qed

text \<open>What a refusal changes.\<close>

lemma read_request_outcome:
  "fst (read_request cid s) = Inl out \<Longrightarrow> (\<exists>e. out = ReadFailed e) \<or> (\<exists>t. out = UnexpectedType t) \<or> out = BadRequest"
  by (auto simp: read_request_def split: prod.splits sum.splits if_splits)

lemma open_tunnel_outcome:
  "fst (open_tunnel d cid name s) \<noteq> Denied e"
  by (auto simp: open_tunnel_def Let_def split: prod.splits sum.splits option.splits)

lemma send_auth_fail_conn: "\<exists>f. send_auth_fail cid reason s = upd_conn cid f s"
proof -
  obtain f e where "conn_send cid TypeAuthFail (Encode (json_AuthFailResponse \<lparr>af_Reason = reason\<rparr>)) s =
      (upd_conn cid f s, e)"
    by (rule conn_send_cases)
  then show ?thesis by (auto simp: send_auth_fail_def)
qed

lemma handleConn_Denied:
  assumes "handleConn marshal d cid s = (Denied e, s')"
  shows "\<exists>f g (req :: AuthRequest) s3. let lim = snd (IsBanned (dr_ban d) (sv_limiter s) (remote_of s cid)) in
    admit marshal d (remote_of s cid) (ar_Token req) (upd_conn cid f (s\<lparr>sv_limiter := lim\<rparr>)) = (Inl e, s3) \<and>
    s' = close_conn cid (upd_conn cid g s3)"
proof -
  let ?ip = "remote_of s cid"
  define s1 where "s1 = s\<lparr>sv_limiter := snd (IsBanned (dr_ban d) (sv_limiter s) ?ip)\<rparr>"
  have ok: "\<not> fst (IsBanned (dr_ban d) (sv_limiter s) ?ip)"
    using assms by (auto simp: handleConn_banned)
  obtain r s2 where r: "read_request cid s1 = (r, s2)" by (metis prod.exhaust)
  have run: "(case (r, s2) of (Inl out, s2) \<Rightarrow> (out, close_conn cid s2)
      | (Inr req, s2) \<Rightarrow> (case admit marshal d ?ip (ar_Token req) s2 of
            (Inl e, s3) \<Rightarrow> (Denied e, close_conn cid (send_auth_fail cid (validate_message e) s3))
          | (Inr clientName, s3) \<Rightarrow>
              if ar_Mode req = ''proxy'' then open_proxy cid clientName s3
              else open_tunnel d cid clientName s3)) = (Denied e, s')"
    using assms r ok unfolding remote_of_def s1_def handleConn_def by (auto simp: Let_def split: prod.splits)
  obtain req where req: "r = Inr req"
  proof (cases r)
    case (Inl out)
    with run have "out = Denied e" by simp
    with Inl r read_request_outcome [of cid s1 out] show ?thesis by simp
  qed (rule that)
  obtain res s3 where adm: "admit marshal d ?ip (ar_Token req) s2 = (res, s3)" by (metis prod.exhaust)
  obtain e' where e': "res = Inl e'"
  proof (cases res)
    case (Inr name)
    with run req adm have "(if ar_Mode req = ''proxy'' then open_proxy cid name s3
        else open_tunnel d cid name s3) = (Denied e, s')" by simp
    then show ?thesis
      using open_tunnel_outcome [of d cid name s3 e] open_proxy_outcome [of cid name s3 "Denied e" s']
      by (simp split: if_splits)
  qed (rule that)
  have s': "e' = e" "s' = close_conn cid (send_auth_fail cid (validate_message e) s3)"
    using run req adm e' by auto
  obtain f where f: "s2 = upd_conn cid f s1" using read_request_frame [OF r] by blast
  obtain g where g: "send_auth_fail cid (validate_message e) s3 = upd_conn cid g s3"
    using send_auth_fail_conn by blast
  have "admit marshal d ?ip (ar_Token req) (upd_conn cid f s1) = (Inl e, s3)"
    "s' = close_conn cid (upd_conn cid g s3)"
    using adm e' s' f g by simp_all
  then show ?thesis
    unfolding s1_def Let_def by blast
qed

section \<open>A small server\<close>

text \<open>The server the concrete instances below run: one whitelisted address, no tokens, no policy;
  and a connection from that address that asks for a tunnel.\<close>

definition lab_config :: config where
  "lab_config =
     \<lparr>cfg_Port = 7777, cfg_TLSCert = [], cfg_TLSKey = [], cfg_TokensPath = [],
      cfg_Subnet = ''10.8.0.0/24'', cfg_ServerIP = ''10.8.0.1'', cfg_MetricsAddr = [], cfg_ACLPath = [],
      cfg_APIKey = ''secret'', cfg_ForwardBindAddr = [], cfg_SSHAddr = [], cfg_PushRoutes = [],
      cfg_PushDNS = None, cfg_NoPush = False, cfg_Expose = [], cfg_clusterDNS = [], cfg_UIOnly = False\<rparr>"

definition lab_server :: server where
  "lab_server =
     \<lparr>sv_cfg = lab_config, sv_tokens = \<lparr>tm_tokens = [], tm_filePath = []\<rparr>,
      sv_whitelist = \<lparr>wm_path = [], wm_entries =
        [\<lparr>we_Name = ''office'', we_IP = dotted [203, 0, 113, 7], we_CreatedAt = zero_time\<rparr>]\<rparr>,
      sv_forwards = \<lparr>fm_path = [], fm_entries = []\<rparr>, sv_sshKeys = \<lparr>sm_path = [], sm_entries = []\<rparr>,
      sv_clients = newClientRegistry ''10.8.0'', sv_limiter = NewRateLimiter, sv_acl = None,
      sv_metrics = newMetrics 0, sv_expose = None, sv_done = False, sv_fs = healthy_fs Map.empty,
      sv_conns = [], sv_tun = []\<rparr>"

definition lab_conn :: "bytes \<Rightarrow> conn" where
  "lab_conn rest =
     \<lparr>cn_addr = JoinHostPort (dotted [203, 0, 113, 7]) (nat_string 4000),
      cn_rd = \<lparr>rd_buf = frame_bytes TypeAuth (Encode (json_AuthRequest \<lparr>ar_Token = [], ar_Mode = []\<rparr>)) @ rest,
               rd_end = EOF\<rparr>,
      cn_wr = \<lparr>wr_out = [], wr_fail = None\<rparr>, cn_closed = False\<rparr>"

definition lab_door :: door where
  "lab_door = \<lparr>dr_ban = 0, dr_validate = 0, dr_fail = 0, dr_assign = 0\<rparr>"

lemma lab_whitelisted:
  "wl_Contains (sv_whitelist lab_server) (dotted [203, 0, 113, 7]) = Some ''office''"
  by (simp add: wl_Contains_def lab_server_def entry_matches_def ip_Equal_def)

lemma lab_asks:
  "asks (lab_server\<lparr>sv_conns := [lab_conn rest]\<rparr>) 0 \<lparr>ar_Token = [], ar_Mode = []\<rparr> rest"
proof -
  have "length (Encode (json_AuthRequest \<lparr>ar_Token = [], ar_Mode = []\<rparr>)) < 100" by code_simp
  then show ?thesis
    by (simp add: asks_def lab_conn_def maxFrameSize_def utf8_valid_ascii)
qed

definition lab_client :: "instant \<Rightarrow> client" where
  "lab_client now =
     \<lparr>c_name = ''office'', c_ip = ''10.8.0.2'', c_conn = 0, c_sendCh = [], c_closed = False,
      c_dead = False, c_connectedAt = now, c_lastSeen = now, c_bytesIn = 0, c_bytesOut = 0\<rparr>"

definition lab_registry :: registry where
  "lab_registry =
     \<lparr>reg_heap = [lab_client 0], reg_clients = [''10.8.0.2'' \<mapsto> 0], reg_baseIP = ''10.8.0''\<rparr>"

lemma lab_assign: "Assign 0 (newClientRegistry ''10.8.0'') ''office'' 0 = (Inr 0, lab_registry)"
  by (simp add: Assign_def newClientRegistry_def Let_def pool_Cons candidate_def lab_registry_def
      lab_client_def decimals del: upt_rec_numeral)

definition lab_reply :: AuthOKResponse where
  "lab_reply = \<lparr>ok_ClientIP = ''10.8.0.2'', ok_ServerIP = ''10.8.0.1'', ok_Subnet = ''10.8.0.0/24'',
     ok_Routes = [], ok_DNS = None\<rparr>"

text \<open>The server once the client is in; \<open>rest\<close> is what the client sends next.\<close>

definition lab_open :: "bytes \<Rightarrow> server" where
  "lab_open rest = lab_server\<lparr>sv_clients := lab_registry, sv_metrics := IncConnected (newMetrics 0),
     sv_conns := [(lab_conn rest)\<lparr>cn_rd := \<lparr>rd_buf = rest, rd_end = EOF\<rparr>,
        cn_wr := \<lparr>wr_out = frame_bytes TypeAuthOK (Encode (json_AuthOKResponse lab_reply)), wr_fail = None\<rparr>\<rparr>]\<rparr>"

lemma lab_handleConn:
  "handleConn marshal lab_door 0 (lab_server\<lparr>sv_conns := [lab_conn rest]\<rparr>) = (TunnelOpen 0, lab_open rest)"
proof -
  let ?s = "lab_server\<lparr>sv_conns := [lab_conn rest]\<rparr>"
  have remote: "remote_of ?s 0 = dotted [203, 0, 113, 7]"
    by (simp add: remote_of_def lab_conn_def)
  have resp: "auth_ok_response ?s (c_ip (reg_heap lab_registry ! 0)) = lab_reply"
    by (simp add: auth_ok_response_def lab_server_def lab_config_def lab_registry_def lab_client_def
        lab_reply_def pushRoutes_def)
  have "length (Encode (json_AuthOKResponse lab_reply)) < 200" by code_simp
  then have fits: "length (Encode (json_AuthOKResponse lab_reply)) < maxFrameSize"
    by (simp add: maxFrameSize_def)
  have "handleConn marshal lab_door 0 ?s = (TunnelOpen 0,
     upd_conn 0 (\<lambda>c. c\<lparr>cn_rd := (cn_rd c)\<lparr>rd_buf := rest\<rparr>,
         cn_wr := (cn_wr c)\<lparr>wr_out := wr_out (cn_wr c) @ frame_bytes TypeAuthOK (Encode (json_AuthOKResponse lab_reply))\<rparr>\<rparr>)
       (upd_metrics IncConnected (?s\<lparr>sv_clients := lab_registry\<rparr>)))"
    using handleConn_whitelisted [OF lab_asks [of rest], of "''office''" lab_door 0 lab_registry marshal]
      remote lab_whitelisted lab_assign resp fits
    by (simp add: lab_door_def lab_server_def NewRateLimiter_def)
  then show ?thesis
    by (simp add: lab_open_def upd_conn_def upd_metrics_def lab_conn_def lab_server_def)
qed


section \<open>Properties\<close>

text \<open>C1: a connection is let in (as a tunnel or as a proxy) only when its address is not banned, its
  first frame is an \<open>AUTH\<close> frame that decodes, and its address is whitelisted or its token is
  valid.\<close>

theorem only_admitted_get_in:
  assumes "handleConn marshal d cid s = (out, s')" and "granted out"
  shows "\<not> fst (IsBanned (dr_ban d) (sv_limiter s) (remote_of s cid)) \<and>
    (\<exists>payload req. fst (conn_recv cid s) = Inr (TypeAuth, payload) \<and>
       decode_AuthRequest payload = Inr req \<and>
       (wl_Contains (sv_whitelist s) (remote_of s cid) \<noteq> None \<or>
        (\<exists>tok. fst (Validate marshal (sv_fs s) (dr_validate d) (sv_tokens s) (ar_Token req)) = Inr tok)))"
  using handleConn_granted [OF assms] .

theorem only_admitted_get_in_witness:
  "\<exists>payload req. fst (conn_recv 0 (lab_server\<lparr>sv_conns := [lab_conn []]\<rparr>)) = Inr (TypeAuth, payload) \<and>
     decode_AuthRequest payload = Inr req"
  using only_admitted_get_in [OF lab_handleConn [of "\<lambda>ts. Inl []" "[]"]] by (auto simp: granted_def)

text \<open>A connection from a banned address is closed before a byte of it is read: nothing but the
  connection itself changes.\<close>

theorem banned_reads_nothing:
  assumes "fst (IsBanned (dr_ban d) (sv_limiter s) (remote_of s cid))"
  shows "handleConn marshal d cid s = (Banned, close_conn cid s)"
  using handleConn_banned [OF assms] .

theorem banned_reads_nothing_witness:
  "let s = lab_server\<lparr>sv_conns := [lab_conn []],
       sv_limiter := NewRateLimiter\<lparr>rl_bans := [dotted [203, 0, 113, 7] \<mapsto> 9]\<rparr>\<rparr>
   in handleConn (\<lambda>ts. Inl []) lab_door 0 s = (Banned, close_conn 0 s)"
  unfolding Let_def
  by (rule banned_reads_nothing)
    (simp add: remote_of_def lab_conn_def IsBanned_def lab_door_def)

text \<open>A whitelisted client that asks for a tunnel while an address is free gets one: the reply it
  reads decodes to the address it was assigned, the server's address and subnet, and the pushed
  routes and DNS; nothing after its request is consumed.\<close>

theorem whitelisted_client_is_served:
  assumes "asks s cid req rest" and "ar_Mode req \<noteq> ''proxy''"
    and "rl_bans (sv_limiter s) (remote_of s cid) = None"
    and "wl_Contains (sv_whitelist s) (remote_of s cid) = Some name"
    and "Assign (dr_assign d) (sv_clients s) name cid = (Inr i, r)"
    and "ok_utf8 (auth_ok_response s (c_ip (reg_heap r ! i)))"
    and "length (Encode (json_AuthOKResponse (auth_ok_response s (c_ip (reg_heap r ! i))))) < maxFrameSize"
  shows "\<exists>s' reply payload. handleConn marshal d cid s = (TunnelOpen i, s') \<and> sv_clients s' = r \<and>
    rd_buf (cn_rd (sv_conns s' ! cid)) = rest \<and>
    wr_out (cn_wr (sv_conns s' ! cid)) = wr_out (cn_wr (sv_conns s ! cid)) @ reply \<and>
    ReadFrame \<lparr>rd_buf = reply, rd_end = EOF\<rparr> = (Inr (TypeAuthOK, payload), \<lparr>rd_buf = [], rd_end = EOF\<rparr>) \<and>
    decode_AuthOKResponse payload = Inr
      \<lparr>ok_ClientIP = c_ip (reg_heap r ! i), ok_ServerIP = cfg_ServerIP (sv_cfg s),
       ok_Subnet = cfg_Subnet (sv_cfg s), ok_Routes = pushRoutes s, ok_DNS = cfg_PushDNS (sv_cfg s)\<rparr>"
proof -
  let ?p = "Encode (json_AuthOKResponse (auth_ok_response s (c_ip (reg_heap r ! i))))"
  let ?r = "\<lparr>rd_buf = frame_bytes TypeAuthOK ?p, rd_end = EOF\<rparr>"
  have "ReadFrame ?r = (Inr (TypeAuthOK, ?p), ?r\<lparr>rd_buf := []\<rparr>)"
    by (rule ReadFrame_frame_bytes [OF assms(7)]) simp
  moreover have "decode_AuthOKResponse ?p = Inr (auth_ok_response s (c_ip (reg_heap r ! i)))"
    by (rule decode_encode_AuthOKResponse [OF assms(6)])
  moreover have "cid < length (sv_conns s)" using assms(1) by (simp add: asks_def)
  ultimately show ?thesis
    using handleConn_whitelisted [OF assms(1-5,7), of marshal]
    by (simp add: upd_conn_conns auth_ok_response_def)
qed

theorem whitelisted_client_is_served_witness:
  "\<exists>s' payload. handleConn (\<lambda>ts. Inl []) lab_door 0 (lab_server\<lparr>sv_conns := [lab_conn []]\<rparr>) = (TunnelOpen 0, s') \<and>
     decode_AuthOKResponse payload = Inr lab_reply"
proof -
  let ?s = "lab_server\<lparr>sv_conns := [lab_conn []]\<rparr>"
  have remote: "remote_of ?s 0 = dotted [203, 0, 113, 7]" by (simp add: remote_of_def lab_conn_def)
  have resp: "auth_ok_response ?s (c_ip (reg_heap lab_registry ! 0)) = lab_reply"
    by (simp add: auth_ok_response_def lab_server_def lab_config_def lab_registry_def lab_client_def
        lab_reply_def pushRoutes_def)
  have "length (Encode (json_AuthOKResponse lab_reply)) < 200" by code_simp
  then have fits: "length (Encode (json_AuthOKResponse lab_reply)) < maxFrameSize"
    by (simp add: maxFrameSize_def)
  have utf: "ok_utf8 lab_reply"
    by (simp add: ok_utf8_def lab_reply_def utf8_valid_ascii)
  from whitelisted_client_is_served [OF lab_asks [of "[]"], of "''office''" lab_door 0 lab_registry "\<lambda>ts. Inl []"]
  show ?thesis
    using remote lab_whitelisted lab_assign resp fits utf
    by (auto simp: lab_door_def lab_server_def NewRateLimiter_def lab_config_def lab_reply_def
        lab_registry_def lab_client_def pushRoutes_def)
qed

text \<open>A client that is refused leaves its mark and nothing else: the failure is recorded against
  its address, the counter goes up, and tokens, whitelist, files, registry and device are as they
  were.\<close>

theorem denied_client_is_recorded:
  assumes "handleConn marshal d cid s = (Denied e, s')"
  shows "sv_limiter s' = RecordFailure (dr_fail d) (snd (IsBanned (dr_ban d) (sv_limiter s) (remote_of s cid)))
      (remote_of s cid) \<and>
    mx_authFailures (sv_metrics s') = mx_authFailures (sv_metrics s) + 1 \<and>
    sv_tokens s' = sv_tokens s \<and> sv_whitelist s' = sv_whitelist s \<and> sv_fs s' = sv_fs s \<and>
    sv_clients s' = sv_clients s \<and> sv_tun s' = sv_tun s"
proof -
  define lim where "lim = snd (IsBanned (dr_ban d) (sv_limiter s) (remote_of s cid))"
  obtain f g req s3 where
    adm: "admit marshal d (remote_of s cid) (ar_Token (req :: AuthRequest)) (upd_conn cid f (s\<lparr>sv_limiter := lim\<rparr>)) = (Inl e, s3)"
    and s': "s' = close_conn cid (upd_conn cid g s3)"
    using handleConn_Denied [OF assms] unfolding lim_def [symmetric] Let_def by blast
  obtain tm fs where
    v: "Validate marshal (sv_fs s) (dr_validate d) (sv_tokens s) (ar_Token req) = (Inl e, tm, fs)" and
    s3: "s3 = upd_metrics IncAuthFailure ((upd_conn cid f (s\<lparr>sv_limiter := lim\<rparr>))\<lparr>sv_tokens := tm, sv_fs := fs,
         sv_limiter := RecordFailure (dr_fail d) lim (remote_of s cid)\<rparr>)"
    using admit_Inl [OF adm] by auto
  show ?thesis
    using Validate_Inl_frame [OF v] by (simp add: s' s3 IncAuthFailure_def lim_def)
qed

theorem denied_client_is_recorded_witness:
  "mx_authFailures (sv_metrics (snd (handleConn (\<lambda>ts. Inl []) lab_door 0
     (lab_server\<lparr>sv_conns := [lab_conn []], sv_whitelist := \<lparr>wm_path = [], wm_entries = []\<rparr>\<rparr>)))) = 1"
proof -
  let ?s = "lab_server\<lparr>sv_conns := [lab_conn []], sv_whitelist := \<lparr>wm_path = [], wm_entries = []\<rparr>\<rparr>"
  let ?req = "\<lparr>ar_Token = [], ar_Mode = []\<rparr>"
  have asks: "asks ?s 0 ?req []"
    using lab_asks [of "[]"] by (simp add: asks_def)
  have "fst (handleConn (\<lambda>ts. Inl []) lab_door 0 ?s) = Denied InvalidToken"
    using read_request_asks [OF asks]
    by (simp add: handleConn_def IsBanned_def lab_server_def NewRateLimiter_def admit_def wl_Contains_def
        Validate_def Let_def lab_conn_def split: option.splits)
  then have "handleConn (\<lambda>ts. Inl []) lab_door 0 ?s =
      (Denied InvalidToken, snd (handleConn (\<lambda>ts. Inl []) lab_door 0 ?s))"
    by (metis prod.collapse)
  from denied_client_is_recorded [OF this] show ?thesis
    by (simp add: lab_server_def newMetrics_def)
qed

text \<open>C17: what a client's packet loop writes to the device is a packet the client sent, and in
  labeled mode one that the exposed set lets pass; anything else leaves the device alone.\<close>

theorem device_gets_allowed_packets:
  assumes "forwardToTUN_step now te i s = (go, s')"
  shows "sv_tun s' = sv_tun s \<or>
    (\<exists>p. fst (conn_recv (c_conn (client_at s i)) s) = Inr (TypeIPPacket, p) \<and>
       sv_tun s' = sv_tun s @ [p] \<and> (\<forall>e. sv_expose s = Some e \<longrightarrow> allowPacket e p))"
  using forwardToTUN_tun [OF assms] .

theorem device_gets_allowed_packets_witness:
  "sv_tun (snd (forwardToTUN_step 5 False 0
      (lab_open (frame_bytes TypeIPPacket [1, 2])\<lparr>sv_expose := Some (newExposeSet [])\<rparr>))) = []"
proof -
  let ?s = "lab_open (frame_bytes TypeIPPacket [1, 2])\<lparr>sv_expose := Some (newExposeSet [])\<rparr>"
  have c: "c_conn (client_at ?s 0) = 0"
    by (simp add: client_at_def lab_open_def lab_registry_def lab_client_def)
  have recv: "fst (conn_recv 0 ?s) = Inr (TypeIPPacket, [1, 2])"
    by (subst conn_recv_frame [of ?s 0 "[1, 2]" TypeIPPacket "[]"])
      (simp_all add: lab_open_def lab_conn_def maxFrameSize_def)
  have "\<not> allowPacket (newExposeSet []) [1, 2]" by (simp add: allowPacket_def)
  with device_gets_allowed_packets [of 5 False 0 ?s, OF prod.collapse [symmetric]] c recv
  show ?thesis by (auto simp: lab_open_def lab_server_def)
qed

text \<open>A packet from the device goes to the client that owns its destination address, when that
  client is alive and the access policy lets the packet through, and to nobody else.\<close>

theorem packets_go_to_owner:
  assumes "route_lookup pkt s = (Some i, s')"
  shows "s' = s \<and> GetByIP (sv_clients s) (destIP pkt) = Some i \<and> \<not> c_dead (client_at s i) \<and>
    (\<forall>e. sv_acl s = Some e \<longrightarrow> Allow e (c_name (client_at s i)) pkt)"
  using route_lookup_Some [OF assms] by (simp add: GetByIP_def)

theorem packets_go_to_owner_witness:
  "GetByIP (sv_clients (lab_open [])) (destIP (replicate 16 0 @ [10, 8, 0, 2])) = Some 0"
proof -
  have d: "destIP (replicate 16 0 @ [10, 8, 0, 2]) = ''10.8.0.2''"
    by (simp add: destIP_def dotted_def decimals nth_append)
  have "route_lookup (replicate 16 0 @ [10, 8, 0, 2]) (lab_open []) = (Some 0, lab_open [])"
    unfolding route_lookup_def d
    by (simp add: GetByIP_def client_at_def lab_open_def lab_registry_def lab_client_def lab_server_def)
  from packets_go_to_owner [OF this] show ?thesis by simp
qed

end
