(* ===== verification/Access.thy ===== *)
theory Access
  imports Server
begin

text \<open>
  Who may use the server's other doors: the address checks of \<open>internal/server/plugin.go\<close> and
  \<open>internal/server/sshsrv.go\<close>, the authentication callbacks and the tunnel requests of the
  embedded SSH server, the choice between TLS and plain HTTP of \<open>internal/server/dualproto.go\<close>
  and the control socket of \<open>internal/server/control.go\<close>. \<open>golang.org/x/crypto/ssh\<close> is not
  part of the repository: parsing of authorized keys and of the channel's extra data and the
  fingerprint are arguments.
\<close>

section \<open>Addresses\<close>

definition vpnSubnet :: ipnet where
  "vpnSubnet = \<lparr>net_IP = [10, 8, 0, 0], net_Mask = [255, 255, 255, 0]\<rparr>"

definition localhostNet :: ipnet where
  "localhostNet = \<lparr>net_IP = [127, 0, 0, 0], net_Mask = [255, 0, 0, 0]\<rparr>"

definition isAllowedProbeHost :: "string \<Rightarrow> bool" where
  "isAllowedProbeHost host =
     (case ParseIP host of
        None \<Rightarrow> False
      | Some a \<Rightarrow> net_Contains vpnSubnet a \<or> net_Contains localhostNet a)"

definition isAllowedSSHTarget :: "string \<Rightarrow> bool" where
  "isAllowedSSHTarget host =
     (case ParseIP host of
        None \<Rightarrow> False
      | Some a \<Rightarrow> net_Contains localhostNet a \<or> net_Contains vpnSubnet a)"

text \<open>The two networks are what \<open>net.ParseCIDR\<close> makes of their text.\<close>

lemma fixed_networks:
  "map_option snd (ParseCIDR ''10.8.0.0/24'') = Some vpnSubnet"
  "map_option snd (ParseCIDR ''127.0.0.0/8'') = Some localhostNet"
proof -
  have "''10.8.0.0/24'' = dotted [10, 8, 0, 0] @ ''/'' @ nat_string 24"
    "''127.0.0.0/8'' = dotted [127, 0, 0, 0] @ ''/'' @ nat_string 8"
    by (simp_all add: dotted_def decimals)
  then show "map_option snd (ParseCIDR ''10.8.0.0/24'') = Some vpnSubnet"
    "map_option snd (ParseCIDR ''127.0.0.0/8'') = Some localhostNet"
    using ParseCIDR_dotted [of "[10, 8, 0, 0]" 24] ParseCIDR_dotted [of "[127, 0, 0, 0]" 8]
    by (simp_all add: ip_Mask_mapped vpnSubnet_def localhostNet_def CIDRMask_def upt_rec mask_byte_def)
qed

lemma vpnSubnet_iff:
  "net_Contains vpnSubnet a \<longleftrightarrow> (\<exists>w. To4 a = Some [10, 8, 0, w])"
proof (cases "To4 a")
  case None
  then show ?thesis by (simp add: vpnSubnet_def net_Contains_not4)
next
  case (Some q)
  obtain b0 b1 b2 b3 where q: "q = [b0, b1, b2, b3]"
    using To4_length [OF Some] by (auto simp: length_4_conv)
  have "(255 :: byte) = - 1" by simp
  then have full: "x AND 255 = x" for x :: byte by (simp only: and.right_neutral)
  show ?thesis
    using Some by (auto simp: vpnSubnet_def net_Contains_To4 q full)
qed

lemma localhostNet_iff:
  "net_Contains localhostNet a \<longleftrightarrow> (\<exists>x y z. To4 a = Some [127, x, y, z])"
proof (cases "To4 a")
  case None
  then show ?thesis by (simp add: localhostNet_def net_Contains_not4)
next
  case (Some q)
  obtain b0 b1 b2 b3 where q: "q = [b0, b1, b2, b3]"
    using To4_length [OF Some] by (auto simp: length_4_conv)
  have "(255 :: byte) = - 1" by simp
  then have full: "x AND 255 = x" for x :: byte by (simp only: and.right_neutral)
  show ?thesis
    using Some by (auto simp: localhostNet_def net_Contains_To4 q full)
qed

section \<open>SSH authentication\<close>

text \<open>A callback gives the name of the permissions or a refusal, and the server after it.\<close>

definition PasswordCallback ::
    "marshaller \<Rightarrow> instant \<Rightarrow> instant \<Rightarrow> string \<Rightarrow> bytes \<Rightarrow> server \<Rightarrow> string option \<times> server" where
  "PasswordCallback marshal nowV nowF remoteAddr pass s =
     (let remoteIP = host_of remoteAddr
      in case Validate marshal (sv_fs s) nowV (sv_tokens s) (string_of_bytes pass) of
           (Inl e, tm, fs) \<Rightarrow>
             (None, upd_metrics IncAuthFailure
                (s\<lparr>sv_tokens := tm, sv_fs := fs,
                   sv_limiter := RecordFailure nowF (sv_limiter s) remoteIP\<rparr>))
         | (Inr tok, tm, fs) \<Rightarrow>
             (Some (tok_Name tok),
              s\<lparr>sv_tokens := tm, sv_fs := fs, sv_limiter := Reset (sv_limiter s) remoteIP\<rparr>))"

definition isSafeUsername :: "string \<Rightarrow> bool" where
  "isSafeUsername u \<longleftrightarrow> u \<noteq> [] \<and> \<not> Contains u ''/'' \<and> \<not> Contains u ''.''"

text \<open>The keys of one file, until one does not parse: \<open>parse\<close> gives a key and the rest of the
  input. One unit of fuel per key; a key takes at least one byte.\<close>

fun key_in_file ::
    "(string \<Rightarrow> ('key \<times> string) option) \<Rightarrow> ('key \<Rightarrow> string) \<Rightarrow> string \<Rightarrow> nat \<Rightarrow> string \<Rightarrow> bool"
where
  "key_in_file parse fp print 0 rest = False"
| "key_in_file parse fp print (Suc n) rest =
     (if rest = [] then False
      else case parse rest of
             None \<Rightarrow> False
           | Some (k, remaining) \<Rightarrow>
               if fp k = print then True else key_in_file parse fp print n remaining)"

definition key_files :: "string \<Rightarrow> string list" where
  "key_files username =
     [''/home/'' @ username @ ''/.ssh/authorized_keys'', ''/root/.ssh/authorized_keys'',
      ''/etc/auth-vpn/authorized_keys'']"

definition checkSystemAuthorizedKeys ::
    "(string \<Rightarrow> ('key \<times> string) option) \<Rightarrow> ('key \<Rightarrow> string) \<Rightarrow> filesys \<Rightarrow> 'key \<Rightarrow> string \<Rightarrow> bool"
where
  "checkSystemAuthorizedKeys parse fp fs key username =
     (if \<not> isSafeUsername username then False
      else list_ex (\<lambda>path. case ReadFile fs path of
                             Inl e \<Rightarrow> False
                           | Inr data \<Rightarrow> key_in_file parse fp (fp key) (Suc (length data)) data)
             (key_files username))"

definition PublicKeyCallback ::
    "(string \<Rightarrow> ('key \<times> string) option) \<Rightarrow> ('key \<Rightarrow> string) \<Rightarrow> instant \<Rightarrow> string \<Rightarrow> string \<Rightarrow> 'key \<Rightarrow>
     server \<Rightarrow> string option \<times> server" where
  "PublicKeyCallback parse fp nowF remoteAddr user key s =
     (let remoteIP = host_of remoteAddr;
          reset = s\<lparr>sv_limiter := Reset (sv_limiter s) remoteIP\<rparr>
      in case FindKey (\<lambda>line. map_option fst (parse line)) fp (sv_sshKeys s) key of
           Some name \<Rightarrow> (Some name, reset)
         | None \<Rightarrow>
             if checkSystemAuthorizedKeys parse fp (sv_fs s) key user then (Some user, reset)
             else (None, upd_metrics IncAuthFailure
                     (s\<lparr>sv_limiter := RecordFailure nowF (sv_limiter s) remoteIP\<rparr>)))"

section \<open>SSH tunnels\<close>

record directTCPIPData =
  dt_DestHost :: string
  dt_DestPort :: "32 word"
  dt_OriginHost :: string
  dt_OriginPort :: "32 word"

datatype ssh_outcome =
    RejectedType
  | RejectedMalformed
  | RejectedTarget
  | RejectedDial string
  | TunnelTo string

text \<open>\<open>handleSSHConn\<close> on a new channel and \<open>handleSSHTunnel\<close> up to the copying of bytes.\<close>

definition handleSSHTunnel ::
    "(bytes \<Rightarrow> directTCPIPData option) \<Rightarrow> (string \<Rightarrow> string option) \<Rightarrow> bytes \<Rightarrow> ssh_outcome" where
  "handleSSHTunnel unmarshal dial extra =
     (case unmarshal extra of
        None \<Rightarrow> RejectedMalformed
      | Some req \<Rightarrow>
          let target = JoinHostPort (dt_DestHost req) (nat_string (unat (dt_DestPort req)))
          in if \<not> isAllowedSSHTarget (dt_DestHost req) then RejectedTarget
             else (case dial target of Some err \<Rightarrow> RejectedDial err | None \<Rightarrow> TunnelTo target))"

definition handleSSHChannel ::
    "(bytes \<Rightarrow> directTCPIPData option) \<Rightarrow> (string \<Rightarrow> string option) \<Rightarrow> string \<Rightarrow> bytes \<Rightarrow> ssh_outcome"
where
  "handleSSHChannel unmarshal dial chanType extra =
     (if chanType \<noteq> ''direct-tcpip'' then RejectedType else handleSSHTunnel unmarshal dial extra)"

lemma handleSSHChannel_target:
  assumes "handleSSHChannel unmarshal dial chanType extra = TunnelTo target"
  shows "\<exists>req a. unmarshal extra = Some req \<and> ParseIP (dt_DestHost req) = Some a \<and>
    target = JoinHostPort (dt_DestHost req) (nat_string (unat (dt_DestPort req))) \<and>
    ((\<exists>w. To4 a = Some [10, 8, 0, w]) \<or> (\<exists>x y z. To4 a = Some [127, x, y, z]))"
  using assms
  by (auto simp: handleSSHChannel_def handleSSHTunnel_def isAllowedSSHTarget_def Let_def
      vpnSubnet_iff localhostNet_iff split: if_splits option.splits)

text \<open>A safe name keeps the path inside \<open>/home\<close>.\<close>

lemma isSafeUsername_iff:
  "isSafeUsername u \<longleftrightarrow> u \<noteq> [] \<and> CHR ''/'' \<notin> set u \<and> CHR ''.'' \<notin> set u"
proof -
  have "Contains u [c] \<longleftrightarrow> c \<in> set u" for c
    by (auto simp: Contains_iff in_set_conv_decomp)
  then show ?thesis by (simp add: isSafeUsername_def)
qed

lemma PublicKeyCallback_Some:
  assumes "PublicKeyCallback parse fp now addr user key s = (Some name, s')"
  shows "FindKey (\<lambda>line. map_option fst (parse line)) fp (sv_sshKeys s) key = Some name \<or>
    name = user \<and> isSafeUsername user \<and>
    (\<exists>path\<in>set (key_files user). \<exists>data. ReadFile (sv_fs s) path = Inr data \<and>
       key_in_file parse fp (fp key) (Suc (length data)) data)"
  using assms
  by (auto simp: PublicKeyCallback_def Let_def checkSystemAuthorizedKeys_def list_ex_iff
      sum_case_False_iff simp del: key_in_file.simps split: option.splits if_splits)

lemma key_in_file_fuel:
  assumes "\<And>r k q. parse r = Some (k, q) \<Longrightarrow> length q < length r"
    and "length rest < n" and "length rest < m"
  shows "key_in_file parse fp print n rest = key_in_file parse fp print m rest"
  using assms(2,3)
proof (induction n arbitrary: m rest)
  case 0
  then show ?case by simp
next
  case (Suc n)
  obtain m' where m: "m = Suc m'" using Suc.prems by (cases m) auto
  show ?case
  proof (cases "parse rest")
    case None
    with m show ?thesis by simp
  next
    case (Some kr)
    obtain k q where kr: "kr = (k, q)" by (cases kr)
    have "length q < length rest" using assms(1) Some kr by blast
    with Suc.IH [of q m'] Suc.prems m Some kr show ?thesis by simp
  qed
qed

section \<open>TLS or plain HTTP\<close>

datatype wire_kind = WireTLS | WirePlain | WireClosed

text \<open>\<open>classify\<close> by the first byte, \<open>None\<close> when none came in time.\<close>

definition classify :: "byte option \<Rightarrow> wire_kind" where
  "classify first =
     (case first of None \<Rightarrow> WireClosed | Some b \<Rightarrow> if b = 0x16 then WireTLS else WirePlain)"

datatype http_path = Serve | RedirectHTTPS

definition plainHTTPOnlyFromPrivate :: "string \<Rightarrow> bool \<Rightarrow> string \<Rightarrow> http_path" where
  "plainHTTPOnlyFromPrivate subnet tls remoteAddr =
     (let vpn = map_option snd (ParseCIDR subnet)
      in if tls then Serve
         else case ParseIP (host_of remoteAddr) of
                None \<Rightarrow> RedirectHTTPS
              | Some a \<Rightarrow>
                  if IsLoopback a \<or> (case vpn of None \<Rightarrow> False | Some n \<Rightarrow> net_Contains n a)
                  then Serve else RedirectHTTPS)"

lemma plain_served_iff:
  "plainHTTPOnlyFromPrivate subnet False remoteAddr = Serve \<longleftrightarrow>
     (\<exists>a. ParseIP (host_of remoteAddr) = Some a \<and>
        (IsLoopback a \<or> (\<exists>n. map_option snd (ParseCIDR subnet) = Some n \<and> net_Contains n a)))"
  by (auto simp: plainHTTPOnlyFromPrivate_def Let_def split: option.splits)

section \<open>The control socket\<close>

record controlResponse =
  cr_Clients :: "clientInfo list option"
  cr_Error :: string

definition mem_controlRequest :: "string \<Rightarrow> json \<Rightarrow> string \<Rightarrow> string \<times> bool" where
  "mem_controlRequest k v cmd = (if key_is k ''cmd'' then dec_string v cmd else (cmd, True))"

text \<open>The answer to one request, \<open>None\<close> when it does not decode; the clients are an array even
  when there are none.\<close>

definition handleControl :: "string list \<Rightarrow> server \<Rightarrow> string \<Rightarrow> controlResponse option" where
  "handleControl order s input =
     (let (cmd, ok) = decode_first mem_controlRequest input []
      in if \<not> ok then None
         else if cmd = ''clients''
         then Some \<lparr>cr_Clients = Some (Snapshot order (sv_clients s)), cr_Error = []\<rparr>
         else Some \<lparr>cr_Clients = None, cr_Error = ''unknown command: '' @ cmd\<rparr>)"

section \<open>Properties\<close>

text \<open>C35: a channel that an SSH client opens becomes a tunnel only to a literal address in
  \<open>127.0.0.0/8\<close> or \<open>10.8.0.0/24\<close>, at the port asked for.\<close>

theorem ssh_tunnels_stay_local:
  assumes "handleSSHChannel unmarshal dial chanType extra = TunnelTo target"
  shows "\<exists>req a. unmarshal extra = Some req \<and> ParseIP (dt_DestHost req) = Some a \<and>
    target = JoinHostPort (dt_DestHost req) (nat_string (unat (dt_DestPort req))) \<and>
    ((\<exists>w. To4 a = Some [10, 8, 0, w]) \<or> (\<exists>x y z. To4 a = Some [127, x, y, z]))"
  using handleSSHChannel_target [OF assms] .

theorem ssh_tunnels_stay_local_witness:
  "handleSSHChannel (\<lambda>b. Some \<lparr>dt_DestHost = dotted [10, 8, 0, 9], dt_DestPort = 22, dt_OriginHost = [],
      dt_OriginPort = 0\<rparr>) (\<lambda>t. None) ''direct-tcpip'' [] = TunnelTo (JoinHostPort (dotted [10, 8, 0, 9]) (nat_string 22)) \<and>
   (\<exists>a. ParseIP (dotted [10, 8, 0, 9]) = Some a \<and>
      ((\<exists>w. To4 a = Some [10, 8, 0, w]) \<or> (\<exists>x y z. To4 a = Some [127, x, y, z])))"
proof -
  have t: "handleSSHChannel (\<lambda>b. Some \<lparr>dt_DestHost = dotted [10, 8, 0, 9], dt_DestPort = 22, dt_OriginHost = [],
      dt_OriginPort = 0\<rparr>) (\<lambda>t. None) ''direct-tcpip'' [] = TunnelTo (JoinHostPort (dotted [10, 8, 0, 9]) (nat_string 22))"
    by (simp add: handleSSHChannel_def handleSSHTunnel_def isAllowedSSHTarget_def vpnSubnet_iff Let_def)
  from ssh_tunnels_stay_local [OF t] t show ?thesis by auto
qed

text \<open>A plain request is served exactly when it comes from loopback or from the configured
  subnet; from anywhere else it is redirected to \<open>https\<close>.\<close>

theorem plain_http_private_only:
  "plainHTTPOnlyFromPrivate subnet False remoteAddr =
     (if \<exists>a. ParseIP (host_of remoteAddr) = Some a \<and>
          (IsLoopback a \<or> (\<exists>n. map_option snd (ParseCIDR subnet) = Some n \<and> net_Contains n a))
      then Serve else RedirectHTTPS)"
  using plain_served_iff [of subnet remoteAddr]
  by (cases "plainHTTPOnlyFromPrivate subnet False remoteAddr") auto

text \<open>Password logins do not look at the bans: whatever the limiter holds, the callback decides
  the same way and leaves the same tokens.\<close>

theorem ssh_password_ignores_bans:
  "fst (PasswordCallback marshal nowV nowF addr pass (s\<lparr>sv_limiter := l\<rparr>)) =
     fst (PasswordCallback marshal nowV nowF addr pass s) \<and>
   sv_tokens (snd (PasswordCallback marshal nowV nowF addr pass (s\<lparr>sv_limiter := l\<rparr>))) =
     sv_tokens (snd (PasswordCallback marshal nowV nowF addr pass s))"
  by (auto simp: PasswordCallback_def Let_def split: prod.splits sum.splits)

text \<open>A public key is accepted only when it is registered under the name returned, or when the user
  name is safe and the key is in one of the \<open>authorized_keys\<close> files; the name cannot leave
  \<open>/home\<close>.\<close>

theorem public_key_accepted:
  assumes "PublicKeyCallback parse fp nowF addr user key s = (Some name, s')"
  shows "FindKey (\<lambda>line. map_option fst (parse line)) fp (sv_sshKeys s) key = Some name \<or>
    name = user \<and> user \<noteq> [] \<and> CHR ''/'' \<notin> set user \<and> CHR ''.'' \<notin> set user \<and>
    (\<exists>path\<in>set (key_files user). \<exists>data. ReadFile (sv_fs s) path = Inr data \<and>
       key_in_file parse fp (fp key) (Suc (length data)) data)"
  using PublicKeyCallback_Some [OF assms] by (auto simp: isSafeUsername_iff)

theorem public_key_accepted_witness:
  "let s = lab_server\<lparr>sv_fs := healthy_fs [''/root/.ssh/authorized_keys'' \<mapsto> ''K'']\<rparr>;
       parse = (\<lambda>line. if line = ''K'' then Some (0 :: nat, []) else None)
   in fst (PublicKeyCallback parse (\<lambda>k. ''fp'') 0 [] ''anyone'' 0 s) = Some ''anyone'' \<and>
      FindKey (\<lambda>line. map_option fst (parse line)) (\<lambda>k. ''fp'') (sv_sshKeys s) 0 = None \<and>
      (\<exists>path\<in>set (key_files ''anyone''). \<exists>data. ReadFile (sv_fs s) path = Inr data)"
proof -
  let ?s = "lab_server\<lparr>sv_fs := healthy_fs [''/root/.ssh/authorized_keys'' \<mapsto> ''K'']\<rparr>"
  let ?parse = "\<lambda>line. if line = ''K'' then Some (0 :: nat, []) else None"
  have none: "FindKey (\<lambda>line. map_option fst (?parse line)) (\<lambda>k. ''fp'') (sv_sshKeys ?s) 0 = None"
    by (simp add: FindKey_def lab_server_def)
  have "isSafeUsername ''anyone''" by (simp add: isSafeUsername_iff)
  then have cb: "fst (PublicKeyCallback ?parse (\<lambda>k. ''fp'') 0 [] ''anyone'' 0 ?s) = Some ''anyone''"
    by (simp add: PublicKeyCallback_def FindKey_def lab_server_def checkSystemAuthorizedKeys_def key_files_def ReadFile_def healthy_fs_def Let_def)
  then have "PublicKeyCallback ?parse (\<lambda>k. ''fp'') 0 [] ''anyone'' 0 ?s =
      (Some ''anyone'', snd (PublicKeyCallback ?parse (\<lambda>k. ''fp'') 0 [] ''anyone'' 0 ?s))"
    by (metis prod.collapse)
  from public_key_accepted [OF this] cb none show ?thesis by (auto simp: Let_def)
qed

end
