(* ===== verification/Direct.thy ===== *)
theory Direct
  imports Server
begin

text \<open>
  The direct forwards of \<open>internal/server/direct.go\<close>: listeners and their bind errors, the
  connections in progress with the index by remote address, and the forced close when an
  address leaves the whitelist. Listeners and connections ever created are lists, pointers are
  indices; whether the bind and the dial to the target succeed is an argument.
\<close>

section \<open>State\<close>

record listener =
  ln_port :: int
  ln_target :: string
  ln_open :: bool

record direct_conn =
  dc_remote :: string
  dc_name :: string
  dc_target :: string
  dc_closed :: bool

record direct =
  di_heap :: "listener list"
  di_listeners :: "int \<rightharpoonup> nat"
  di_bindErrors :: "int \<rightharpoonup> string"
  di_conns :: "direct_conn list"
  di_tracked :: "string \<rightharpoonup> nat set"

definition new_direct :: direct where
  "new_direct =
     \<lparr>di_heap = [], di_listeners = Map.empty, di_bindErrors = Map.empty, di_conns = [],
      di_tracked = Map.empty\<rparr>"

section \<open>Listeners\<close>

text \<open>\<open>startDirectListener\<close> up to its accept loop.\<close>

definition startDirectListener :: "string option \<Rightarrow> direct_forward \<Rightarrow> direct \<Rightarrow> direct" where
  "startDirectListener bind_err f d =
     (case bind_err of
        Some err \<Rightarrow> d\<lparr>di_bindErrors := (di_bindErrors d)(df_ListenPort f \<mapsto> err)\<rparr>
      | None \<Rightarrow>
          d\<lparr>di_bindErrors := map_delete (df_ListenPort f) (di_bindErrors d),
            di_heap := di_heap d @
              [\<lparr>ln_port = df_ListenPort f, ln_target = df_Target f, ln_open = True\<rparr>],
            di_listeners := (di_listeners d)(df_ListenPort f \<mapsto> length (di_heap d))\<rparr>)"

definition startDirectListeners :: "(direct_forward \<Rightarrow> string option) \<Rightarrow> forwards \<Rightarrow> direct \<Rightarrow> direct"
where
  "startDirectListeners bind fm d = foldl (\<lambda>d f. startDirectListener (bind f) f d) d (fw_List fm)"

definition stopDirectListener :: "int \<Rightarrow> direct \<Rightarrow> direct" where
  "stopDirectListener port d =
     (let d1 = (case di_listeners d port of
                  None \<Rightarrow> d
                | Some k \<Rightarrow>
                    d\<lparr>di_listeners := map_delete port (di_listeners d),
                      di_heap := (di_heap d)[k := (di_heap d ! k)\<lparr>ln_open := False\<rparr>]\<rparr>)
      in d1\<lparr>di_bindErrors := map_delete port (di_bindErrors d1)\<rparr>)"

section \<open>Connections\<close>

definition tracked_at :: "direct \<Rightarrow> string \<Rightarrow> nat set" where
  "tracked_at d ip = (case di_tracked d ip of None \<Rightarrow> {} | Some ks \<Rightarrow> ks)"

definition close_direct :: "nat \<Rightarrow> direct \<Rightarrow> direct" where
  "close_direct k d = d\<lparr>di_conns := (di_conns d)[k := (di_conns d ! k)\<lparr>dc_closed := True\<rparr>]\<rparr>"

text \<open>The end of a tracked connection: the deferred untracking and close. A nil inner map ignores
  the delete.\<close>

definition end_direct :: "nat \<Rightarrow> direct \<Rightarrow> direct" where
  "end_direct k d =
     (let ip = dc_remote (di_conns d ! k)
      in close_direct k
           (case di_tracked d ip of
              None \<Rightarrow> d
            | Some ks \<Rightarrow> d\<lparr>di_tracked := (di_tracked d)(ip \<mapsto> ks - {k})\<rparr>))"

text \<open>\<open>handleDirectConn\<close> up to the copying of bytes: the connection from \<open>addr\<close>, and whether it
  is being proxied.\<close>

definition handleDirectConn ::
    "(string \<Rightarrow> string option) \<Rightarrow> whitelist \<Rightarrow> string \<Rightarrow> string \<Rightarrow> direct \<Rightarrow> bool \<times> direct" where
  "handleDirectConn dial wm addr target d =
     (let remoteIP = host_of addr; k = length (di_conns d)
      in case wl_Contains wm remoteIP of
           None \<Rightarrow>
             (False, d\<lparr>di_conns := di_conns d @
                [\<lparr>dc_remote = remoteIP, dc_name = [], dc_target = target, dc_closed = True\<rparr>]\<rparr>)
         | Some name \<Rightarrow>
             let d1 = d\<lparr>di_conns := di_conns d @
                   [\<lparr>dc_remote = remoteIP, dc_name = name, dc_target = target, dc_closed = False\<rparr>],
                   di_tracked := (di_tracked d)(remoteIP \<mapsto> insert k (tracked_at d remoteIP))\<rparr>
             in (case dial target of
                   Some err \<Rightarrow> (False, end_direct k d1)
                 | None \<Rightarrow> (True, d1)))"

text \<open>\<open>killDirectConns\<close> takes the set of one key out of the map and closes its members.\<close>

definition killDirectConns :: "string \<Rightarrow> direct \<Rightarrow> direct" where
  "killDirectConns ip d =
     d\<lparr>di_tracked := map_delete ip (di_tracked d),
       di_conns := map (\<lambda>k. let c = di_conns d ! k
                             in if k \<in> tracked_at d ip then c\<lparr>dc_closed := True\<rparr> else c)
                     [0..<length (di_conns d)]\<rparr>"

section \<open>Facts\<close>

text \<open>A live connection is tracked under its own remote address, and its address was on the
  whitelist under its name when it came in.\<close>

definition direct_wf :: "direct \<Rightarrow> bool" where
  "direct_wf d \<longleftrightarrow>
     (\<forall>k<length (di_conns d). \<not> dc_closed (di_conns d ! k) \<longrightarrow>
        k \<in> tracked_at d (dc_remote (di_conns d ! k))) \<and>
     (\<forall>ip k. k \<in> tracked_at d ip \<longrightarrow> k < length (di_conns d) \<and> dc_remote (di_conns d ! k) = ip)"

lemma direct_wfI:
  assumes "\<And>k. k < length (di_conns d) \<Longrightarrow> \<not> dc_closed (di_conns d ! k) \<Longrightarrow>
      k \<in> tracked_at d (dc_remote (di_conns d ! k))"
    and "\<And>ip k. k \<in> tracked_at d ip \<Longrightarrow> k < length (di_conns d) \<and> dc_remote (di_conns d ! k) = ip"
  shows "direct_wf d"
  using assms by (simp add: direct_wf_def)

lemma direct_wf_live:
  "direct_wf d \<Longrightarrow> k < length (di_conns d) \<Longrightarrow> \<not> dc_closed (di_conns d ! k) \<Longrightarrow>
     k \<in> tracked_at d (dc_remote (di_conns d ! k))"
  by (simp add: direct_wf_def)

lemma direct_wf_tracked:
  "direct_wf d \<Longrightarrow> k \<in> tracked_at d ip \<Longrightarrow> k < length (di_conns d) \<and> dc_remote (di_conns d ! k) = ip"
  by (simp add: direct_wf_def)

lemma direct_wf_new [simp, intro]: "direct_wf new_direct"
  by (simp add: direct_wf_def new_direct_def tracked_at_def)

lemma tracked_at_upd:
  "tracked_at (d\<lparr>di_tracked := m, di_conns := cs\<rparr>) ip = (case m ip of None \<Rightarrow> {} | Some ks \<Rightarrow> ks)"
  "tracked_at (d\<lparr>di_conns := cs\<rparr>) ip = tracked_at d ip"
  "tracked_at (d\<lparr>di_conns := cs, di_tracked := m\<rparr>) ip = (case m ip of None \<Rightarrow> {} | Some ks \<Rightarrow> ks)"
  by (simp_all add: tracked_at_def)

lemma direct_wf_kill [inv_intros]:
  assumes "direct_wf d"
  shows "direct_wf (killDirectConns ip d)"
proof -
  have tr: "tracked_at (killDirectConns ip d) x = (if x = ip then {} else tracked_at d x)" for x
    by (simp add: tracked_at_def killDirectConns_def)
  have at: "di_conns (killDirectConns ip d) ! k =
      (if k \<in> tracked_at d ip then (di_conns d ! k)\<lparr>dc_closed := True\<rparr> else di_conns d ! k)"
    if "k < length (di_conns d)" for k
    using that by (simp add: killDirectConns_def Let_def)
  have len: "length (di_conns (killDirectConns ip d)) = length (di_conns d)"
    by (simp add: killDirectConns_def)
  show ?thesis
  proof (rule direct_wfI)
    fix k
    assume k: "k < length (di_conns (killDirectConns ip d))"
      and live: "\<not> dc_closed (di_conns (killDirectConns ip d) ! k)"
    then have out: "k \<notin> tracked_at d ip" and same: "di_conns (killDirectConns ip d) ! k = di_conns d ! k"
      using at [of k] len by (auto split: if_splits)
    with direct_wf_live [OF assms, of k] k live len
    show "k \<in> tracked_at (killDirectConns ip d) (dc_remote (di_conns (killDirectConns ip d) ! k))"
      by (auto simp: tr)
  next
    fix x k
    assume "k \<in> tracked_at (killDirectConns ip d) x"
    then have "k \<in> tracked_at d x" by (simp add: tr split: if_splits)
    with direct_wf_tracked [OF assms, of k x] at [of k] len
    show "k < length (di_conns (killDirectConns ip d)) \<and>
        dc_remote (di_conns (killDirectConns ip d) ! k) = x"
      by auto
  qed
qed

lemma direct_wf_handle [inv_intros]:
  assumes wf: "direct_wf d" and h: "handleDirectConn dial wm addr target d = (ok, d')"
  shows "direct_wf d'"
proof (cases "wl_Contains wm (host_of addr)")
  case None
  with h have "d' = d\<lparr>di_conns := di_conns d @
      [\<lparr>dc_remote = host_of addr, dc_name = [], dc_target = target, dc_closed = True\<rparr>]\<rparr>"
    by (simp add: handleDirectConn_def Let_def)
  with wf show ?thesis
    by (auto simp: direct_wf_def tracked_at_upd nth_append less_Suc_eq)
next
  case (Some name)
  let ?ip = "host_of addr" and ?k = "length (di_conns d)"
  define d1 where "d1 = d\<lparr>di_conns := di_conns d @
      [\<lparr>dc_remote = ?ip, dc_name = name, dc_target = target, dc_closed = False\<rparr>],
      di_tracked := (di_tracked d)(?ip \<mapsto> insert ?k (tracked_at d ?ip))\<rparr>"
  have tr: "tracked_at d1 x = (if x = ?ip then insert ?k (tracked_at d x) else tracked_at d x)" for x
    by (simp add: d1_def tracked_at_def)
  have len: "length (di_conns d1) = Suc ?k" by (simp add: d1_def)
  have at: "di_conns d1 ! j = (if j < ?k then di_conns d ! j else
      \<lparr>dc_remote = ?ip, dc_name = name, dc_target = target, dc_closed = False\<rparr>)" if "j \<le> ?k" for j
    using that by (auto simp: d1_def nth_append)
  have wf1: "direct_wf d1"
  proof (rule direct_wfI)
    fix k
    assume "k < length (di_conns d1)" "\<not> dc_closed (di_conns d1 ! k)"
    then show "k \<in> tracked_at d1 (dc_remote (di_conns d1 ! k))"
      using direct_wf_live [OF wf, of k] at [of k] len tr by (cases "k < ?k") auto
  next
    fix x k
    assume "k \<in> tracked_at d1 x"
    then show "k < length (di_conns d1) \<and> dc_remote (di_conns d1 ! k) = x"
      using direct_wf_tracked [OF wf, of k x] at [of k] len by (auto simp: tr split: if_splits)
  qed
  show ?thesis
  proof (cases "dial target")
    case None
    with Some h wf1 show ?thesis by (simp add: handleDirectConn_def Let_def d1_def)
  next
    case (Some err)
    with \<open>wl_Contains wm ?ip = Some name\<close> h have d': "d' = end_direct ?k d1"
      by (simp add: handleDirectConn_def Let_def d1_def)
    have tr': "tracked_at d' x = (if x = ?ip then tracked_at d x - {?k} else tracked_at d x)" for x
      using at [of ?k] by (simp add: d' end_direct_def Let_def close_direct_def tracked_at_def d1_def
          split: option.split)
    have conns: "di_conns d' = (di_conns d1)[?k := (di_conns d1 ! ?k)\<lparr>dc_closed := True\<rparr>]"
      by (simp add: d' end_direct_def Let_def close_direct_def split: option.split)
    have at': "di_conns d' ! j = (if j = ?k then (di_conns d1 ! ?k)\<lparr>dc_closed := True\<rparr> else di_conns d ! j)"
      if "j \<le> ?k" for j
      using that at len by (simp add: conns nth_list_update)
    have len': "length (di_conns d') = Suc ?k" using len by (simp add: conns)
    show ?thesis
    proof (rule direct_wfI)
      fix k
      assume "k < length (di_conns d')" "\<not> dc_closed (di_conns d' ! k)"
      then show "k \<in> tracked_at d' (dc_remote (di_conns d' ! k))"
        using direct_wf_live [OF wf, of k] at' [of k] len' tr' by (cases "k < ?k") auto
    next
      fix x k
      assume "k \<in> tracked_at d' x"
      then have "k \<in> tracked_at d x" by (simp add: tr' split: if_splits)
      then show "k < length (di_conns d') \<and> dc_remote (di_conns d' ! k) = x"
        using direct_wf_tracked [OF wf, of k x] at' [of k] len' by auto
    qed
  qed
qed

lemma killDirectConns_closes:
  assumes "direct_wf d" and "k < length (di_conns d)" and "dc_remote (di_conns d ! k) = ip"
  shows "dc_closed (di_conns (killDirectConns ip d) ! k)"
  using assms by (auto simp: killDirectConns_def Let_def direct_wf_def)

lemma killDirectConns_other:
  assumes "direct_wf d" and "k < length (di_conns d)" and "dc_remote (di_conns d ! k) \<noteq> ip"
  shows "di_conns (killDirectConns ip d) ! k = di_conns d ! k"
  using assms by (auto simp: killDirectConns_def Let_def direct_wf_def)

lemma handleDirectConn_proxied:
  assumes "handleDirectConn dial wm addr target d = (True, d')"
  shows "wl_Contains wm (host_of addr) \<noteq> None \<and> dial target = None"
  using assms by (auto simp: handleDirectConn_def Let_def split: option.splits)

text \<open>Starting and stopping a listener.\<close>

lemma stop_start_listener:
  assumes "di_listeners d (df_ListenPort f) = None"
  shows "di_listeners (stopDirectListener (df_ListenPort f) (startDirectListener None f d)) = di_listeners d"
    and "\<not> ln_open (di_heap (stopDirectListener (df_ListenPort f) (startDirectListener None f d)) !
      length (di_heap d))"
  using assms by (auto simp: stopDirectListener_def startDirectListener_def Let_def fun_upd_idem)

section \<open>Properties\<close>

text \<open>A direct connection is proxied only from a whitelisted address.\<close>

theorem direct_only_whitelisted:
  assumes "handleDirectConn dial wm addr target d = (True, d')"
  shows "wl_Contains wm (host_of addr) \<noteq> None \<and> dial target = None"
  using handleDirectConn_proxied [OF assms] .

theorem direct_only_whitelisted_witness:
  "wl_Contains \<lparr>wm_path = [], wm_entries = [\<lparr>we_Name = ''a'', we_IP = dotted [10, 1, 2, 3],
      we_CreatedAt = zero_time\<rparr>]\<rparr> (host_of (JoinHostPort (dotted [10, 1, 2, 3]) (nat_string 99))) \<noteq> None"
proof -
  let ?w = "\<lparr>wm_path = [], wm_entries = [\<lparr>we_Name = ''a'', we_IP = dotted [10, 1, 2, 3],
      we_CreatedAt = zero_time\<rparr>]\<rparr>" and ?addr = "JoinHostPort (dotted [10, 1, 2, 3]) (nat_string 99)"
  have "fst (handleDirectConn (\<lambda>t. None) ?w ?addr [] new_direct)"
    by (simp add: handleDirectConn_def wl_Contains_def entry_matches_def ip_Equal_def Let_def)
  then have "handleDirectConn (\<lambda>t. None) ?w ?addr [] new_direct =
      (True, snd (handleDirectConn (\<lambda>t. None) ?w ?addr [] new_direct))"
    by (metis prod.collapse)
  from direct_only_whitelisted [OF this] show ?thesis by simp
qed



end
