(* ===== verification/HttpApi.thy ===== *)
theory HttpApi
  imports Access Direct
begin

text \<open>
  The HTTP API of \<open>internal/server/httpapi.go\<close> and the plugin routes of
  \<open>internal/server/plugin.go\<close>: the table of routes with the mux's choice of a handler, the API
  key check and every handler. A response is a status and a body; the bodies are a datatype,
  one constructor per JSON shape the handlers write. Goroutines a handler starts are returned
  as tasks, which \<open>run_task\<close> performs. What \<open>net/http\<close> has already decoded (path, query,
  header) is part of the request; \<open>parseDuration\<close> is \<open>time.ParseDuration\<close>, whose fractions
  are computed in floating point, as an argument.
\<close>

section \<open>Requests and responses\<close>

record request =
  rq_Method :: string
  rq_EscapedPath :: string
  rq_Path :: string
  rq_Query :: "(string \<times> string) list"
  rq_Authorization :: string
  rq_Body :: string

datatype task = StartListener direct_forward | KillConns string

datatype body =
    NoBody
  | ErrorText string
  | TokenError token_error
  | WhitelistError whitelist_error
  | ForwardError forward_error
  | KeyError ssh_key_error
  | MetricsBody metrics
  | HealthBody metrics config
  | ClientsBody "clientInfo list"
  | DisconnectedBody string
  | TokensBody "token list"
  | NewTokenBody string string
  | RevokedBody string
  | WhitelistBody "whitelist_entry list"
  | WhitelistedBody string string
  | RemovedBody string
  | ForwardsBody "direct_forward list" "int \<rightharpoonup> string"
  | ForwardBody int string
  | RemovedPortBody int
  | KeysBody "ssh_key_entry list"
  | KeyBody string
  | NewKeyBody string string
  | StatusBody metrics
  | ProbeBody bool string "string option"
  | WebUI
  | RedirectTo string

record response =
  rs_Status :: nat
  rs_Body :: body

record api =
  ap_sv :: server
  ap_direct :: direct

type_synonym reply = "response \<times> api \<times> task list"

text \<open>What the outside supplies to a handler: an enumeration of the clients, the clock, random
  bytes, a generated key pair and the outcome of a probe.\<close>

record surroundings =
  su_order :: "string list"
  su_now :: instant
  su_rand :: "string + bytes"
  su_keypair :: "string + string \<times> string"
  su_probe :: "string \<Rightarrow> string option"

definition answer :: "api \<Rightarrow> nat \<Rightarrow> body \<Rightarrow> reply" where
  "answer a status b = (\<lparr>rs_Status = status, rs_Body = b\<rparr>, a, [])"

definition upd_sv :: "(server \<Rightarrow> server) \<Rightarrow> api \<Rightarrow> api" where
  "upd_sv f a = a\<lparr>ap_sv := f (ap_sv a)\<rparr>"

definition query_get :: "request \<Rightarrow> string \<Rightarrow> string" where
  "query_get r k = (case find (\<lambda>(n, v). n = k) (rq_Query r) of None \<Rightarrow> [] | Some (n, v) \<Rightarrow> v)"

section \<open>The API key\<close>

definition checkAPIKey :: "server \<Rightarrow> request \<Rightarrow> bool" where
  "checkAPIKey s r =
     (if cfg_APIKey (sv_cfg s) = [] then True
      else if TrimPrefix (rq_Authorization r) ''Bearer '' = cfg_APIKey (sv_cfg s) then True
      else if query_get r ''key'' = cfg_APIKey (sv_cfg s) then True
      else False)"

definition unauthorized :: "api \<Rightarrow> reply" where
  "unauthorized a = answer a 401 (ErrorText ''unauthorized'')"

definition withAuth :: "(request \<Rightarrow> api \<Rightarrow> reply) \<Rightarrow> request \<Rightarrow> api \<Rightarrow> reply" where
  "withAuth next r a = (if \<not> checkAPIKey (ap_sv a) r then unauthorized a else next r a)"

section \<open>Request bodies\<close>

record tokenBody =
  tb_Name :: string
  tb_OneTime :: bool
  tb_ExpiresIn :: string

definition mem_tokenBody :: "string \<Rightarrow> json \<Rightarrow> tokenBody \<Rightarrow> tokenBody \<times> bool" where
  "mem_tokenBody k v b =
     (if key_is k ''name'' then (let (s, ok) = dec_string v (tb_Name b) in (b\<lparr>tb_Name := s\<rparr>, ok))
      else if key_is k ''one_time'' then
        (let (x, ok) = dec_bool v (tb_OneTime b) in (b\<lparr>tb_OneTime := x\<rparr>, ok))
      else if key_is k ''expires_in'' then
        (let (s, ok) = dec_string v (tb_ExpiresIn b) in (b\<lparr>tb_ExpiresIn := s\<rparr>, ok))
      else (b, True))"

text \<open>Bodies of two strings: the name and a second field.\<close>

definition mem_pair :: "string \<Rightarrow> string \<Rightarrow> json \<Rightarrow> string \<times> string \<Rightarrow> (string \<times> string) \<times> bool" where
  "mem_pair field k v = (\<lambda>(x, y).
     if key_is k ''name'' then (let (s, ok) = dec_string v x in ((s, y), ok))
     else if key_is k field then (let (s, ok) = dec_string v y in ((x, s), ok))
     else ((x, y), True))"

definition mem_forwardBody :: "string \<Rightarrow> json \<Rightarrow> int \<times> string \<Rightarrow> (int \<times> string) \<times> bool" where
  "mem_forwardBody k v = (\<lambda>(p, t).
     if key_is k ''listen_port'' then (let (n, ok) = dec_int v p in ((n, t), ok))
     else if key_is k ''target'' then (let (s, ok) = dec_string v t in ((p, s), ok))
     else ((p, t), True))"

definition mem_nameBody :: "string \<Rightarrow> json \<Rightarrow> string \<Rightarrow> string \<times> bool" where
  "mem_nameBody k v x = (if key_is k ''name'' then dec_string v x else (x, True))"

section \<open>Handlers\<close>

definition handleMetrics :: "request \<Rightarrow> api \<Rightarrow> reply" where
  "handleMetrics r a = answer a 200 (MetricsBody (sv_metrics (ap_sv a)))"

definition handleHealth :: "request \<Rightarrow> api \<Rightarrow> reply" where
  "handleHealth r a = answer a 200 (HealthBody (sv_metrics (ap_sv a)) (sv_cfg (ap_sv a)))"

definition handleAPIClients :: "surroundings \<Rightarrow> request \<Rightarrow> api \<Rightarrow> reply" where
  "handleAPIClients su r a =
     answer a 200 (ClientsBody (Snapshot (su_order su) (sv_clients (ap_sv a))))"

definition handleAPIClientDisconnect :: "surroundings \<Rightarrow> request \<Rightarrow> api \<Rightarrow> reply" where
  "handleAPIClientDisconnect su r a =
     (if rq_Method r \<noteq> ''DELETE'' then answer a 405 NoBody
      else let name = TrimPrefix (rq_Path r) ''/api/clients/''
      in if name = [] then answer a 400 (ErrorText ''name required'')
         else case disconnect_client (su_order su) name (ap_sv a) of
                (False, s) \<Rightarrow> answer a 404 (ErrorText ''client not found'')
              | (True, s) \<Rightarrow> answer (a\<lparr>ap_sv := s\<rparr>) 200 (DisconnectedBody name))"

definition handleAPITokens ::
    "marshaller \<Rightarrow> (string \<Rightarrow> int option) \<Rightarrow> surroundings \<Rightarrow> request \<Rightarrow> api \<Rightarrow> reply" where
  "handleAPITokens marshal parseDuration su r a =
     (if rq_Method r = ''GET'' then answer a 200 (TokensBody (List_tokens (sv_tokens (ap_sv a))))
      else if rq_Method r = ''POST'' then
        (let (b, ok) = decode_first mem_tokenBody (rq_Body r)
               \<lparr>tb_Name = [], tb_OneTime = False, tb_ExpiresIn = []\<rparr>
         in if \<not> ok \<or> tb_Name b = [] then answer a 400 (ErrorText ''name required'')
            else case (if tb_ExpiresIn b = [] then Some None
                       else map_option (\<lambda>d. Some (su_now su + d)) (parseDuration (tb_ExpiresIn b))) of
                   None \<Rightarrow> answer a 400 (ErrorText ''invalid expires_in'')
                 | Some expiresAt \<Rightarrow>
                     (case Add_token marshal (sv_fs (ap_sv a)) (su_now su) (su_rand su)
                             (sv_tokens (ap_sv a)) (tb_Name b) expiresAt (tb_OneTime b) of
                        (tm, fs, raw, e) \<Rightarrow>
                          let a' = upd_sv (\<lambda>s. s\<lparr>sv_tokens := tm, sv_fs := fs\<rparr>) a
                          in (case e of
                                Some err \<Rightarrow> answer a' 500 (TokenError err)
                              | None \<Rightarrow> answer a' 201 (NewTokenBody raw (tb_Name b)))))
      else answer a 405 NoBody)"

definition handleAPITokenDelete :: "marshaller \<Rightarrow> request \<Rightarrow> api \<Rightarrow> reply" where
  "handleAPITokenDelete marshal r a =
     (if rq_Method r \<noteq> ''DELETE'' then answer a 405 NoBody
      else let name = TrimPrefix (rq_Path r) ''/api/tokens/''
      in if name = [] then answer a 400 (ErrorText ''name required'')
         else case Revoke marshal (sv_fs (ap_sv a)) (sv_tokens (ap_sv a)) name of
                (tm, fs, e) \<Rightarrow>
                  let a' = upd_sv (\<lambda>s. s\<lparr>sv_tokens := tm, sv_fs := fs\<rparr>) a
                  in (case e of
                        Some err \<Rightarrow> answer a' 404 (TokenError err)
                      | None \<Rightarrow> answer a' 200 (RevokedBody name)))"

definition handleAPIWhitelist :: "surroundings \<Rightarrow> request \<Rightarrow> api \<Rightarrow> reply" where
  "handleAPIWhitelist su r a =
     (if rq_Method r = ''GET'' then answer a 200 (WhitelistBody (wl_List (sv_whitelist (ap_sv a))))
      else if rq_Method r = ''POST'' then
        (let ((name, ip), ok) = decode_first (mem_pair ''ip'') (rq_Body r) ([], [])
         in if \<not> ok \<or> name = [] \<or> ip = [] then answer a 400 (ErrorText ''name and ip required'')
            else case wl_Add (sv_fs (ap_sv a)) (su_now su) (sv_whitelist (ap_sv a)) name ip of
                   (wm, fs, e) \<Rightarrow>
                     let a' = upd_sv (\<lambda>s. s\<lparr>sv_whitelist := wm, sv_fs := fs\<rparr>) a
                     in (case e of
                           Some err \<Rightarrow> answer a' 400 (WhitelistError err)
                         | None \<Rightarrow> answer a' 201 (WhitelistedBody name ip)))
      else answer a 405 NoBody)"

definition handleAPIWhitelistDelete :: "request \<Rightarrow> api \<Rightarrow> reply" where
  "handleAPIWhitelistDelete r a =
     (if rq_Method r \<noteq> ''DELETE'' then answer a 405 NoBody
      else let name = TrimPrefix (rq_Path r) ''/api/whitelist/''
      in if name = [] then answer a 400 (ErrorText ''name required'')
         else let ip = IPForName (sv_whitelist (ap_sv a)) name
         in case wl_Remove (sv_fs (ap_sv a)) (sv_whitelist (ap_sv a)) name of
              (wm, fs, e) \<Rightarrow>
                let a' = upd_sv (\<lambda>s. s\<lparr>sv_whitelist := wm, sv_fs := fs\<rparr>) a
                in (case e of
                      Some err \<Rightarrow> answer a' 404 (WhitelistError err)
                    | None \<Rightarrow>
                        (\<lparr>rs_Status = 200, rs_Body = RemovedBody name\<rparr>, a',
                         if ip \<noteq> [] then [KillConns ip] else [])))"

definition handleAPIForwards :: "surroundings \<Rightarrow> request \<Rightarrow> api \<Rightarrow> reply" where
  "handleAPIForwards su r a =
     (if rq_Method r = ''GET'' then
        answer a 200 (ForwardsBody (fw_List (sv_forwards (ap_sv a))) (di_bindErrors (ap_direct a)))
      else if rq_Method r = ''POST'' then
        (let ((port, target), ok) = decode_first mem_forwardBody (rq_Body r) (0, [])
         in if \<not> ok \<or> port = 0 \<or> target = []
            then answer a 400 (ErrorText ''listen_port and target required'')
            else case fw_Add (sv_fs (ap_sv a)) (su_now su) (sv_forwards (ap_sv a)) port target of
                   (fm, fs, e) \<Rightarrow>
                     let a' = upd_sv (\<lambda>s. s\<lparr>sv_forwards := fm, sv_fs := fs\<rparr>) a
                     in (case e of
                           Some err \<Rightarrow> answer a' 400 (ForwardError err)
                         | None \<Rightarrow>
                             (\<lparr>rs_Status = 201, rs_Body = ForwardBody port target\<rparr>, a',
                              [StartListener \<lparr>df_ListenPort = port, df_Target = target,
                                 df_CreatedAt = zero_time\<rparr>])))
      else answer a 405 NoBody)"

definition handleAPIForwardsDelete :: "request \<Rightarrow> api \<Rightarrow> reply" where
  "handleAPIForwardsDelete r a =
     (if rq_Method r \<noteq> ''DELETE'' then answer a 405 NoBody
      else case Atoi (TrimPrefix (rq_Path r) ''/api/forwards/'') of
             None \<Rightarrow> answer a 400 (ErrorText ''valid port required'')
           | Some port \<Rightarrow>
               if port = 0 then answer a 400 (ErrorText ''valid port required'')
               else case fw_Remove (sv_fs (ap_sv a)) (sv_forwards (ap_sv a)) port of
                      (fm, fs, e) \<Rightarrow>
                        let a' = upd_sv (\<lambda>s. s\<lparr>sv_forwards := fm, sv_fs := fs\<rparr>) a
                        in (case e of
                              Some err \<Rightarrow> answer a' 404 (ForwardError err)
                            | None \<Rightarrow>
                                answer (a'\<lparr>ap_direct := stopDirectListener port (ap_direct a')\<rparr>)
                                  200 (RemovedPortBody port)))"

definition handleAPISSHKeys :: "(string \<Rightarrow> 'key option) \<Rightarrow> surroundings \<Rightarrow> request \<Rightarrow> api \<Rightarrow> reply"
where
  "handleAPISSHKeys parse su r a =
     (if rq_Method r = ''GET'' then answer a 200 (KeysBody (sk_List (sv_sshKeys (ap_sv a))))
      else if rq_Method r = ''POST'' then
        (let ((name, pk), ok) = decode_first (mem_pair ''public_key'') (rq_Body r) ([], [])
         in if \<not> ok \<or> name = [] \<or> pk = []
            then answer a 400 (ErrorText ''name and public_key required'')
            else case sk_Add parse (sv_fs (ap_sv a)) (su_now su) (sv_sshKeys (ap_sv a)) name pk of
                   (m, fs, e) \<Rightarrow>
                     let a' = upd_sv (\<lambda>s. s\<lparr>sv_sshKeys := m, sv_fs := fs\<rparr>) a
                     in (case e of
                           Some err \<Rightarrow> answer a' 400 (KeyError err)
                         | None \<Rightarrow> answer a' 201 (KeyBody name)))
      else answer a 405 NoBody)"

definition handleAPISSHKeysGenerate ::
    "(string \<Rightarrow> 'key option) \<Rightarrow> surroundings \<Rightarrow> request \<Rightarrow> api \<Rightarrow> reply" where
  "handleAPISSHKeysGenerate parse su r a =
     (if rq_Method r \<noteq> ''POST'' then answer a 405 NoBody
      else let (name, ok) = decode_first mem_nameBody (rq_Body r) []
      in if \<not> ok \<or> name = [] then answer a 400 (ErrorText ''name required'')
         else case sk_Generate parse (su_keypair su) (sv_fs (ap_sv a)) (su_now su)
                     (sv_sshKeys (ap_sv a)) name of
                (m, fs, res) \<Rightarrow>
                  let a' = upd_sv (\<lambda>s. s\<lparr>sv_sshKeys := m, sv_fs := fs\<rparr>) a
                  in (case res of
                        Inl err \<Rightarrow> answer a' 400 (KeyError err)
                      | Inr privKey \<Rightarrow> answer a' 201 (NewKeyBody name privKey)))"

definition handleAPISSHKeysDelete :: "request \<Rightarrow> api \<Rightarrow> reply" where
  "handleAPISSHKeysDelete r a =
     (if rq_Method r \<noteq> ''DELETE'' then answer a 405 NoBody
      else let name = TrimPrefix (rq_Path r) ''/api/ssh-keys/''
      in if name = [] then answer a 400 (ErrorText ''name required'')
         else case sk_Remove (sv_fs (ap_sv a)) (sv_sshKeys (ap_sv a)) name of
                (m, fs, e) \<Rightarrow>
                  let a' = upd_sv (\<lambda>s. s\<lparr>sv_sshKeys := m, sv_fs := fs\<rparr>) a
                  in (case e of
                        Some err \<Rightarrow> answer a' 404 (KeyError err)
                      | None \<Rightarrow> answer a' 200 (RemovedBody name)))"

definition handlePlugin :: "surroundings \<Rightarrow> request \<Rightarrow> api \<Rightarrow> reply" where
  "handlePlugin su r a =
     (if \<not> checkAPIKey (ap_sv a) r then unauthorized a
      else let path = TrimPrefix (rq_Path r) ''/plugin''
      in if path = ''/status'' \<or> path = ''/status/'' then
           answer a 200 (StatusBody (sv_metrics (ap_sv a)))
         else if path = ''/clients'' \<or> path = ''/clients/'' then
           answer a 200 (ClientsBody (Snapshot (su_order su) (sv_clients (ap_sv a))))
         else if path = ''/probe'' \<or> path = ''/probe/'' then
           (let host = query_get r ''host''; port = query_get r ''port''
            in if host = [] \<or> port = [] then answer a 400 (ErrorText ''host and port required'')
               else if \<not> isAllowedProbeHost host then
                 answer a 400 (ErrorText
                   ''host not allowed: only VPN subnet (10.8.0.0/24) and localhost are permitted'')
               else let addr = JoinHostPort host port
                    in (case su_probe su addr of
                          Some err \<Rightarrow> answer a 200 (ProbeBody False addr (Some err))
                        | None \<Rightarrow> answer a 200 (ProbeBody True addr None)))
         else answer a 404 NoBody)"

definition handleWebUI :: "request \<Rightarrow> api \<Rightarrow> reply" where
  "handleWebUI r a = answer a 200 WebUI"

definition handleRoot :: "request \<Rightarrow> api \<Rightarrow> reply" where
  "handleRoot r a =
     (if rq_Path r = ''/'' then answer a 302 (RedirectTo ''/ui'') else answer a 404 NoBody)"

section \<open>Routes\<close>

text \<open>The table of \<open>startHTTPAPI\<close>, longer patterns first: a pattern that ends in a slash stands
  for its subtree, any other for its path alone.\<close>

definition pattern_matches :: "string \<Rightarrow> string \<Rightarrow> bool" where
  "pattern_matches pat path = (if last pat = CHR ''/'' then HasPrefix path pat else path = pat)"

definition routes ::
    "marshaller \<Rightarrow> (string \<Rightarrow> 'key option) \<Rightarrow> (string \<Rightarrow> int option) \<Rightarrow> surroundings \<Rightarrow>
     (string \<times> (request \<Rightarrow> api \<Rightarrow> reply)) list" where
  "routes marshal parse parseDuration su =
     [(''/api/ssh-keys/generate'', withAuth (handleAPISSHKeysGenerate parse su)),
      (''/api/ssh-keys/'', withAuth handleAPISSHKeysDelete),
      (''/api/whitelist/'', withAuth handleAPIWhitelistDelete),
      (''/api/forwards/'', withAuth handleAPIForwardsDelete),
      (''/api/ssh-keys'', withAuth (handleAPISSHKeys parse su)),
      (''/api/clients/'', withAuth (handleAPIClientDisconnect su)),
      (''/api/whitelist'', withAuth (handleAPIWhitelist su)),
      (''/api/forwards'', withAuth (handleAPIForwards su)),
      (''/api/tokens/'', withAuth (handleAPITokenDelete marshal)),
      (''/api/clients'', withAuth (handleAPIClients su)),
      (''/api/tokens'', withAuth (handleAPITokens marshal parseDuration su)),
      (''/plugin/'', handlePlugin su),
      (''/metrics'', withAuth handleMetrics),
      (''/health'', withAuth handleHealth),
      (''/ui'', withAuth handleWebUI),
      (''/'', withAuth handleRoot)]"

text \<open>The mux redirects a path that is not clean, and \<open>/plugin\<close> to its subtree, before any
  handler runs.\<close>

definition cleanPath :: "string \<Rightarrow> string" where
  "cleanPath p =
     (if p = [] then ''/''
      else let q = (if HasPrefix p ''/'' then p else CHR ''/'' # p); np = Clean q
           in if last q = CHR ''/'' \<and> np \<noteq> ''/'' then np @ ''/'' else np)"

definition serve ::
    "marshaller \<Rightarrow> (string \<Rightarrow> 'key option) \<Rightarrow> (string \<Rightarrow> int option) \<Rightarrow> surroundings \<Rightarrow> request \<Rightarrow>
     api \<Rightarrow> reply" where
  "serve marshal parse parseDuration su r a =
     (if rq_Method r \<noteq> ''CONNECT'' \<and> cleanPath (rq_EscapedPath r) \<noteq> rq_EscapedPath r
      then answer a 301 (RedirectTo (cleanPath (rq_EscapedPath r)))
      else if rq_EscapedPath r = ''/plugin'' then answer a 301 (RedirectTo ''/plugin/'')
      else case find (\<lambda>(pat, h). pattern_matches pat (rq_EscapedPath r))
                  (routes marshal parse parseDuration su) of
             None \<Rightarrow> answer a 404 NoBody
           | Some (pat, h) \<Rightarrow> h r a)"

section \<open>Tasks\<close>

definition run_task :: "string option \<Rightarrow> task \<Rightarrow> direct \<Rightarrow> direct" where
  "run_task bind_err t d =
     (case t of
        StartListener f \<Rightarrow> startDirectListener bind_err f d
      | KillConns ip \<Rightarrow> killDirectConns ip d)"

section \<open>Without the key\<close>

lemma checkAPIKey_False:
  "\<not> checkAPIKey s r \<longleftrightarrow>
     cfg_APIKey (sv_cfg s) \<noteq> [] \<and> TrimPrefix (rq_Authorization r) ''Bearer '' \<noteq> cfg_APIKey (sv_cfg s) \<and>
     query_get r ''key'' \<noteq> cfg_APIKey (sv_cfg s)"
  by (auto simp: checkAPIKey_def)

text \<open>Every route is behind the key.\<close>

lemma routes_guarded:
  assumes "\<not> checkAPIKey (ap_sv a) r" and "(pat, h) \<in> set (routes marshal parse pd su)"
  shows "h r a = unauthorized a"
  using assms by (auto simp: routes_def withAuth_def handlePlugin_def)

lemma serve_unauthorized:
  assumes "\<not> checkAPIKey (ap_sv a) r"
  shows "\<exists>status b. serve marshal parse pd su r a = answer a status b \<and>
    (status = 401 \<or> status = 301 \<or> status = 404 \<and> b = NoBody)"
proof -
  have "h r a = answer a 401 (ErrorText ''unauthorized'')"
    if "find (\<lambda>(pat, h). pattern_matches pat (rq_EscapedPath r)) (routes marshal parse pd su) = Some (pat, h)"
    for pat h
  proof -
    have "(pat, h) \<in> set (routes marshal parse pd su)"
      using find_SomeD [OF that] by simp
    then show ?thesis
      using routes_guarded [OF assms, of pat h marshal parse pd su] by (simp add: unauthorized_def)
  qed
  then show ?thesis
    by (auto simp: serve_def split: option.splits)
qed

text \<open>The root pattern matches every path, so a clean path always meets a handler.\<close>

lemma serve_routed:
  assumes "HasPrefix (rq_EscapedPath r) ''/''"
  shows "find (\<lambda>(pat, h). pattern_matches pat (rq_EscapedPath r)) (routes marshal parse pd su) \<noteq> None"
  using assms by (auto simp: find_None_iff2 routes_def pattern_matches_def)

section \<open>What handlers keep\<close>

definition api_ok :: "api \<Rightarrow> bool" where
  "api_ok a \<longleftrightarrow> wl_wf (sv_whitelist (ap_sv a)) \<and> fw_wf (sv_forwards (ap_sv a)) \<and>
     distinct (map sk_Name (sm_entries (sv_sshKeys (ap_sv a))))"

lemma api_ok_cong:
  "sv_whitelist (ap_sv a') = sv_whitelist (ap_sv a) \<Longrightarrow> sv_forwards (ap_sv a') = sv_forwards (ap_sv a) \<Longrightarrow>
   sv_sshKeys (ap_sv a') = sv_sshKeys (ap_sv a) \<Longrightarrow> api_ok a \<Longrightarrow> api_ok a'"
  by (simp add: api_ok_def)

lemma sk_Add_distinct:
  assumes "distinct (map sk_Name (sm_entries m))" and "sk_Add parse fs now m name pk = (m', fs', e)"
  shows "distinct (map sk_Name (sm_entries m'))"
  using sk_Add_state [of parse fs now m name pk] assms sk.keys_distinct_insert [of m _ m']
  by (auto simp: sk.keys_distinct_def split: if_splits option.splits)

lemma sk_Remove_distinct:
  assumes "distinct (map sk_Name (sm_entries m))" and "sk_Remove fs m name = (m', fs', e)"
  shows "distinct (map sk_Name (sm_entries m'))"
  using sk_Remove_state [of fs m name] assms sk.keys_distinct_delete [of m name m']
  by (auto simp: sk.keys_distinct_def split: option.splits)

lemma handler_whitelist_ok:
  "api_ok a \<Longrightarrow> api_ok (fst (snd (handleAPIWhitelist su r a)))"
  by (auto simp: handleAPIWhitelist_def answer_def upd_sv_def api_ok_def Let_def
      split: prod.splits option.splits dest: wl_wf_Add)

lemma handler_whitelist_delete_ok:
  "api_ok a \<Longrightarrow> api_ok (fst (snd (handleAPIWhitelistDelete r a)))"
  by (auto simp: handleAPIWhitelistDelete_def answer_def upd_sv_def api_ok_def Let_def
      split: prod.splits option.splits dest: wl_wf_Remove)

lemma handler_forwards_ok:
  "api_ok a \<Longrightarrow> api_ok (fst (snd (handleAPIForwards su r a)))"
  by (auto simp: handleAPIForwards_def answer_def upd_sv_def api_ok_def Let_def
      split: prod.splits option.splits dest: fw_wf_Add)

lemma handler_forwards_delete_ok:
  "api_ok a \<Longrightarrow> api_ok (fst (snd (handleAPIForwardsDelete r a)))"
  by (auto simp: handleAPIForwardsDelete_def answer_def upd_sv_def api_ok_def Let_def
      split: prod.splits option.splits dest: fw_wf_Remove)

lemma handler_keys_ok:
  "api_ok a \<Longrightarrow> api_ok (fst (snd (handleAPISSHKeys parse su r a)))"
  by (auto simp: handleAPISSHKeys_def answer_def upd_sv_def api_ok_def Let_def
      split: prod.splits option.splits dest: sk_Add_distinct)

lemma handler_keys_generate_ok:
  "api_ok a \<Longrightarrow> api_ok (fst (snd (handleAPISSHKeysGenerate parse su r a)))"
  by (auto simp: handleAPISSHKeysGenerate_def sk_Generate_def answer_def upd_sv_def api_ok_def Let_def
      split: prod.splits option.splits sum.splits dest: sk_Add_distinct)

lemma handler_keys_delete_ok:
  "api_ok a \<Longrightarrow> api_ok (fst (snd (handleAPISSHKeysDelete r a)))"
  by (auto simp: handleAPISSHKeysDelete_def answer_def upd_sv_def api_ok_def Let_def
      split: prod.splits option.splits dest: sk_Remove_distinct)

lemma handler_tokens_ok:
  "api_ok a \<Longrightarrow> api_ok (fst (snd (handleAPITokens marshal pd su r a)))"
  by (auto simp: handleAPITokens_def answer_def upd_sv_def api_ok_def Let_def
      split: prod.splits option.splits)

lemma handler_token_delete_ok:
  "api_ok a \<Longrightarrow> api_ok (fst (snd (handleAPITokenDelete marshal r a)))"
  by (auto simp: handleAPITokenDelete_def answer_def upd_sv_def api_ok_def Let_def
      split: prod.splits option.splits)

lemma handler_disconnect_ok:
  "api_ok a \<Longrightarrow> api_ok (fst (snd (handleAPIClientDisconnect su r a)))"
  by (auto simp: handleAPIClientDisconnect_def disconnect_client_def answer_def api_ok_def Let_def
      split: prod.splits option.splits bool.splits)

lemmas handlers_ok =
  handler_whitelist_ok handler_whitelist_delete_ok handler_forwards_ok handler_forwards_delete_ok
  handler_keys_ok handler_keys_generate_ok handler_keys_delete_ok handler_tokens_ok
  handler_token_delete_ok handler_disconnect_ok

lemma handler_plugin_ok: "fst (snd (handlePlugin su r a)) = a"
  by (auto simp: handlePlugin_def unauthorized_def answer_def Let_def split: option.splits)

lemma serve_ok:
  assumes "api_ok a"
  shows "api_ok (fst (snd (serve marshal parse pd su r a)))"
proof -
  have h: "api_ok (fst (snd (h r a)))" if "(pat, h) \<in> set (routes marshal parse pd su)" for pat h
    using that assms handler_plugin_ok [of su r a]
    by (auto simp: routes_def withAuth_def unauthorized_def answer_def handlers_ok
        handleMetrics_def handleHealth_def handleAPIClients_def handleWebUI_def handleRoot_def)
  show ?thesis
    using assms h by (auto simp: serve_def answer_def split: option.splits dest!: find_SomeD)
qed

section \<open>Properties\<close>

text \<open>C10: without the API key a request changes nothing: it is answered with 401 (or with the mux's own
  redirect), the state is the one before, and no task is started.\<close>

theorem no_key_no_change:
  assumes "\<not> checkAPIKey (ap_sv a) r"
  shows "snd (serve marshal parse pd su r a) = (a, []) \<and>
    rs_Status (fst (serve marshal parse pd su r a)) \<in> {401, 301, 404}"
  using serve_unauthorized [OF assms, of marshal parse pd su] by (auto simp: answer_def)

theorem no_key_no_change_witness:
  "snd (serve (\<lambda>ts. Inl []) (\<lambda>l. None :: nat option) (\<lambda>d. None)
      \<lparr>su_order = [], su_now = 0, su_rand = Inl [], su_keypair = Inl [], su_probe = (\<lambda>t. None)\<rparr>
      \<lparr>rq_Method = ''DELETE'', rq_EscapedPath = ''/api/tokens/a'', rq_Path = ''/api/tokens/a'', rq_Query = [],
       rq_Authorization = ''Bearer wrong'', rq_Body = []\<rparr> \<lparr>ap_sv = lab_server, ap_direct = new_direct\<rparr>) =
     (\<lparr>ap_sv = lab_server, ap_direct = new_direct\<rparr>, [])"
  by (rule no_key_no_change [THEN conjunct1])
    (simp add: checkAPIKey_def lab_server_def lab_config_def query_get_def TrimPrefix_def HasPrefix_def)

text \<open>C22: whatever requests the API serves, names stay unique on the whitelist and among the keys,
  ports among the forwards, and every whitelist entry is an address or a range and every forward
  valid.\<close>

theorem requests_keep_stores:
  assumes "api_ok a"
  shows "api_ok (foldl (\<lambda>a (su, r). fst (snd (serve marshal parse pd su r a))) a rs)"
  using assms
proof (induction rs arbitrary: a)
  case Nil
  then show ?case by simp
next
  case (Cons q rs)
  obtain su r where q: "q = (su, r)" by (cases q)
  with Cons.IH [OF serve_ok [OF Cons.prems, of marshal parse pd su r]] show ?case by simp
qed

theorem requests_keep_stores_witness:
  "api_ok (foldl (\<lambda>a (su, r). fst (snd (serve (\<lambda>ts. Inl []) (\<lambda>l. None :: nat option) (\<lambda>d. None) su r a)))
     \<lparr>ap_sv = lab_server, ap_direct = new_direct\<rparr>
     [(\<lparr>su_order = [], su_now = zero_time, su_rand = Inl [], su_keypair = Inl [], su_probe = (\<lambda>t. None)\<rparr>,
       \<lparr>rq_Method = ''POST'', rq_EscapedPath = ''/api/whitelist'', rq_Path = ''/api/whitelist'', rq_Query = [],
        rq_Authorization = ''Bearer secret'', rq_Body = ''{\"name\":\"a\",\"ip\":\"10.1.2.3\"}''\<rparr>)])"
  by (rule requests_keep_stores) (simp add: api_ok_def lab_server_def wl_wf_def fw_wf_def ip_or_cidr_def)

text \<open>Removing a whitelist entry closes the direct connections whose remote address is the entry's
  text and leaves all others open, those from inside an entry's address range among them.\<close>

theorem removed_range_keeps_connections:
  assumes "rq_Method r = ''DELETE''" and "direct_wf (ap_direct a)" and "k < length (di_conns (ap_direct a))"
    and "dc_remote (di_conns (ap_direct a) ! k) \<noteq>
      IPForName (sv_whitelist (ap_sv a)) (TrimPrefix (rq_Path r) ''/api/whitelist/'')"
  shows "case handleAPIWhitelistDelete r a of (resp, a', ts) \<Rightarrow>
    di_conns (foldl (\<lambda>d t. run_task None t d) (ap_direct a') ts) ! k = di_conns (ap_direct a) ! k"
  using assms killDirectConns_other [OF assms(2,3)]
  by (auto simp: handleAPIWhitelistDelete_def answer_def upd_sv_def run_task_def Let_def
      split: prod.splits option.splits)

theorem removed_range_keeps_connections_witness:
  "let r = \<lparr>rq_Method = ''DELETE'', rq_EscapedPath = ''/api/whitelist/lan'', rq_Path = ''/api/whitelist/lan'',
       rq_Query = [], rq_Authorization = [], rq_Body = []\<rparr>;
     a = \<lparr>ap_sv = lab_server\<lparr>sv_whitelist := \<lparr>wm_path = [], wm_entries =
           [\<lparr>we_Name = ''lan'', we_IP = ''10.1.0.0/16'', we_CreatedAt = zero_time\<rparr>]\<rparr>\<rparr>,
         ap_direct = \<lparr>di_heap = [], di_listeners = Map.empty, di_bindErrors = Map.empty,
           di_conns = [\<lparr>dc_remote = ''10.1.9.9'', dc_name = ''lan'', dc_target = [], dc_closed = False\<rparr>],
           di_tracked = [''10.1.9.9'' \<mapsto> {0}]\<rparr>\<rparr>
   in case handleAPIWhitelistDelete r a of (resp, a', ts) \<Rightarrow>
        rs_Status resp = 200 \<and> ts = [KillConns ''10.1.0.0/16''] \<and>
        \<not> dc_closed (di_conns (foldl (\<lambda>d t. run_task None t d) (ap_direct a') ts) ! 0)"
proof -
  let ?r = "\<lparr>rq_Method = ''DELETE'', rq_EscapedPath = ''/api/whitelist/lan'', rq_Path = ''/api/whitelist/lan'',
       rq_Query = [], rq_Authorization = [], rq_Body = []\<rparr>"
  let ?d = "\<lparr>di_heap = [], di_listeners = Map.empty, di_bindErrors = Map.empty,
       di_conns = [\<lparr>dc_remote = ''10.1.9.9'', dc_name = ''lan'', dc_target = [], dc_closed = False\<rparr>],
       di_tracked = [''10.1.9.9'' \<mapsto> {0}]\<rparr>"
  let ?a = "\<lparr>ap_sv = lab_server\<lparr>sv_whitelist := \<lparr>wm_path = [], wm_entries =
       [\<lparr>we_Name = ''lan'', we_IP = ''10.1.0.0/16'', we_CreatedAt = zero_time\<rparr>]\<rparr>\<rparr>, ap_direct = ?d\<rparr>"
  have name: "TrimPrefix ''/api/whitelist/lan'' ''/api/whitelist/'' = ''lan''"
    by (simp add: TrimPrefix_def HasPrefix_def)
  have ip: "IPForName (sv_whitelist (ap_sv ?a)) ''lan'' = ''10.1.0.0/16''" by (simp add: IPForName_def)
  have wf: "direct_wf ?d" by (auto simp: direct_wf_def tracked_at_def split: if_splits)
  have h: "fst (fst (handleAPIWhitelistDelete ?r ?a), snd (handleAPIWhitelistDelete ?r ?a)) =
      \<lparr>rs_Status = 200, rs_Body = RemovedBody ''lan''\<rparr> \<and>
      snd (snd (handleAPIWhitelistDelete ?r ?a)) = [KillConns ''10.1.0.0/16'']"
    using ip name
    by (simp add: handleAPIWhitelistDelete_def wl_Remove_def wl_save_def save_entries_def WriteFile_def
        lab_server_def healthy_fs_def Let_def)
  have "case handleAPIWhitelistDelete ?r ?a of (resp, a', ts) \<Rightarrow>
      di_conns (foldl (\<lambda>d t. run_task None t d) (ap_direct a') ts) ! 0 = di_conns (ap_direct ?a) ! 0"
    by (rule removed_range_keeps_connections) (use wf ip name in simp_all)
  with h show ?thesis by (auto simp: Let_def split: prod.splits)
qed

end
