(* ===== verification/ClientState.thy ===== *)
theory ClientState
  imports Stores
begin

text \<open>
  What a client keeps in its state directory: \<open>internal/client/profile.go\<close> (saved profiles),
  \<open>internal/client/state.go\<close> (the record of the running tunnel, the search for it, stopping it)
  and the known-hosts file of \<open>internal/client/tofu.go\<close>. All three are written by \<open>writePrivate\<close>,
  whose system calls answer as the \<open>private_env\<close> says. \<open>yaml.v3\<close> is not part of the repository:
  \<open>marshal\<close> and \<open>unmarshal\<close> are parameters; the tunnel record is JSON and its codec is defined.
  Processes are what \<open>ps\<close>, \<open>Signal\<close> and \<open>Getpid\<close> report, also parameters.
\<close>

section \<open>Tables with names\<close>

text \<open>What the profile list and the known hosts promise of a name: the last value put under it is
  the one found, and other names are not touched.\<close>

locale lookup_table =
  fixes look :: "'s \<Rightarrow> 'k \<Rightarrow> 'v option" and put :: "'s \<Rightarrow> 'e \<Rightarrow> 's"
    and key :: "'e \<Rightarrow> 'k" and val :: "'e \<Rightarrow> 'v"
  assumes look_put: "look (put s e) = (look s)(key e \<mapsto> val e)"
begin

lemma look_puts: "look (foldl put s es) = foldl (\<lambda>m e. m(key e \<mapsto> val e)) (look s) es"
  by (induction es arbitrary: s) (simp_all add: look_put)

lemma put_last: "key d = key e \<Longrightarrow> look (put (put s d) e) = look (put s e)"
  by (simp add: look_put)

lemma put_comm: "key d \<noteq> key e \<Longrightarrow> look (put (put s d) e) = look (put (put s e) d)"
  by (simp add: look_put fun_upd_twist)

end

locale name_table = lookup_table look put key val
  for look :: "'s \<Rightarrow> 'k \<Rightarrow> 'v option" and put :: "'s \<Rightarrow> 'e \<Rightarrow> 's"
    and key :: "'e \<Rightarrow> 'k" and val :: "'e \<Rightarrow> 'v" +
  fixes del :: "'s \<Rightarrow> 'k \<Rightarrow> 's"
  assumes look_del: "look (del s k) = (look s)(k := None)"
begin

text \<open>One change, and a history of them: \<open>Inr e\<close> puts an entry, \<open>Inl k\<close> deletes a name.\<close>

definition change :: "'s \<Rightarrow> 'k + 'e \<Rightarrow> 's" where
  "change s c = (case c of Inl k \<Rightarrow> del s k | Inr e \<Rightarrow> put s e)"

definition map_change :: "('k \<rightharpoonup> 'v) \<Rightarrow> 'k + 'e \<Rightarrow> ('k \<rightharpoonup> 'v)" where
  "map_change m c = (case c of Inl k \<Rightarrow> m(k := None) | Inr e \<Rightarrow> m(key e \<mapsto> val e))"

lemma look_change: "look (change s c) = map_change (look s) c"
  by (simp add: change_def map_change_def look_put look_del split: sum.splits)

lemma look_changes: "look (foldl change s cs) = foldl map_change (look s) cs"
  by (induction cs arbitrary: s) (simp_all add: look_change)

lemma del_put: "look (del (put s e) (key e)) = look (del s (key e))"
  by (simp add: look_put look_del)

end

section \<open>Private files\<close>

record private_env =
  pe_mkdir :: "os_error option"
  pe_lstat :: "os_error + bool"
  pe_create :: "os_error + string"
  pe_write :: "(os_error \<times> string) option"
  pe_close :: "os_error option"
  pe_rename :: "os_error option"
  pe_unremovable :: bool

text \<open>The name \<open>CreateTemp\<close> picks: \<open>.tmp-\<close> and a suffix of its own, in the directory of the path.\<close>

definition temp_name :: "string \<Rightarrow> string \<Rightarrow> string" where
  "temp_name path sfx = path_Dir path @ ''/.tmp-'' @ sfx"

definition set_file :: "string \<Rightarrow> string option \<Rightarrow> filesys \<Rightarrow> filesys" where
  "set_file p d fs = fs\<lparr>files := (files fs)(p := d)\<rparr>"

definition drop_temp :: "private_env \<Rightarrow> string \<Rightarrow> filesys \<Rightarrow> filesys" where
  "drop_temp env tmp fs = (if pe_unremovable env then fs else set_file tmp None fs)"

text \<open>\<open>pe_lstat\<close> says whether the directory is a symbolic link, \<open>pe_write\<close> how much of the data a
  failing write left. The deferred \<open>Remove\<close> runs on every path once the file exists; after the
  rename it finds nothing. Errors of \<open>Chown\<close> are ignored by the code and owners are not modelled.\<close>

definition writePrivate :: "private_env \<Rightarrow> filesys \<Rightarrow> string \<Rightarrow> string \<Rightarrow> filesys \<times> os_error option" where
  "writePrivate env fs path data =
     (case pe_mkdir env of
        Some e \<Rightarrow> (fs, Some e)
      | None \<Rightarrow>
          (case pe_lstat env of
             Inl e \<Rightarrow> (fs, Some e)
           | Inr True \<Rightarrow> (fs, Some (OSErr (path_Dir path @ '' is a symlink; refusing to write'')))
           | Inr False \<Rightarrow>
               (case pe_create env of
                  Inl e \<Rightarrow> (fs, Some e)
                | Inr sfx \<Rightarrow>
                    let tmp = temp_name path sfx
                    in case pe_write env of
                         Some (e, part) \<Rightarrow> (drop_temp env tmp (set_file tmp (Some part) fs), Some e)
                       | None \<Rightarrow>
                           let fs1 = set_file tmp (Some data) fs
                           in case pe_close env of
                                Some e \<Rightarrow> (drop_temp env tmp fs1, Some e)
                              | None \<Rightarrow>
                                  (case pe_rename env of
                                     Some e \<Rightarrow> (drop_temp env tmp fs1, Some e)
                                   | None \<Rightarrow> (set_file tmp None (set_file path (Some data) fs1), None)))))"

definition Remove_file :: "os_error option \<Rightarrow> filesys \<Rightarrow> string \<Rightarrow> filesys \<times> os_error option" where
  "Remove_file rm fs p =
     (if files fs p = None then (fs, Some ErrNotExist)
      else case rm of Some e \<Rightarrow> (fs, Some e) | None \<Rightarrow> (set_file p None fs, None))"

text \<open>The temporary name is not the one that is written.\<close>

definition temp_apart :: "private_env \<Rightarrow> string \<Rightarrow> bool" where
  "temp_apart env path \<longleftrightarrow> (case pe_create env of Inl e \<Rightarrow> True | Inr x \<Rightarrow> temp_name path x \<noteq> path)"

lemma set_file_frame [simp]:
  "read_fails (set_file p d fs) = read_fails fs" "mkdir_fails (set_file p d fs) = mkdir_fails fs"
  "write_fails (set_file p d fs) = write_fails fs" "files (set_file p d fs) = (files fs)(p := d)"
  by (simp_all add: set_file_def)

lemma drop_temp_frame [simp]:
  "read_fails (drop_temp env tmp fs) = read_fails fs"
  "p \<noteq> tmp \<Longrightarrow> files (drop_temp env tmp fs) p = files fs p"
  by (simp_all add: drop_temp_def)

text \<open>All or nothing: the contents are the new ones, or an error was returned and they are the old.\<close>

lemma writePrivate_atomic:
  assumes "writePrivate env fs path data = (fs', e)" and "temp_apart env path"
  shows "files fs' path = (if e = None then Some data else files fs path) \<and> read_fails fs' = read_fails fs"
  using assms unfolding writePrivate_def temp_apart_def Let_def
  by (auto split: option.splits sum.splits bool.splits prod.splits)

lemma writePrivate_other:
  assumes "writePrivate env fs path data = (fs', e)" and "p \<noteq> path"
    and "\<And>x. pe_create env = Inr x \<Longrightarrow> p \<noteq> temp_name path x"
  shows "files fs' p = files fs p"
  using assms unfolding writePrivate_def Let_def
  by (auto split: option.splits sum.splits bool.splits prod.splits)

lemma ReadFile_writePrivate:
  assumes "writePrivate env fs path data = (fs', e)" and "temp_apart env path" and "read_fails fs path = None"
  shows "ReadFile fs' path = (if e = None then Inr data else ReadFile fs path)"
  using writePrivate_atomic [OF assms(1,2)] assms(3) by (simp add: ReadFile_def)

text \<open>A state directory in which nothing fails.\<close>

definition quiet_env :: private_env where
  "quiet_env = \<lparr>pe_mkdir = None, pe_lstat = Inr False, pe_create = Inr ''1'', pe_write = None, pe_close = None,
     pe_rename = None, pe_unremovable = False\<rparr>"

lemma writePrivate_quiet:
  "writePrivate quiet_env fs path data =
     (set_file (temp_name path ''1'') None (set_file path (Some data) (set_file (temp_name path ''1'') (Some data) fs)), None)"
  by (simp add: writePrivate_def quiet_env_def Let_def)

section \<open>Profiles\<close>

record profile =
  pr_Name :: string
  pr_Host :: string
  pr_Token :: string
  pr_Fingerprint :: string
  pr_Routes :: "string list"
  pr_Forwards :: "string list"

datatype profile_error =
    InvalidName string
  | NeedsServer string
  | BadFingerprint string
  | ErrProfileNotFound string
  | ProfilesUnreadable os_error
  | ProfilesYaml string
  | ProfilesWrite os_error

type_synonym profile_marshal = "profile list \<Rightarrow> string + string"
type_synonym profile_unmarshal = "string \<Rightarrow> string + profile list"

definition DefaultPort :: string where "DefaultPort = ''7777''"

text \<open>The account behind \<open>sudo\<close>: \<open>lookup_user\<close> is \<open>user.Lookup\<close>, giving the home directory.\<close>

definition sudoUser :: "nat \<Rightarrow> (string \<Rightarrow> string) \<Rightarrow> (string \<Rightarrow> string option) \<Rightarrow> string option" where
  "sudoUser euid getenv lookup_user =
     (if euid \<noteq> 0 then None
      else let name = getenv ''SUDO_USER''
           in if name = [] \<or> name = ''root'' then None else lookup_user name)"

definition stateDir :: "nat \<Rightarrow> (string \<Rightarrow> string) \<Rightarrow> (string \<Rightarrow> string option) \<Rightarrow> string \<Rightarrow> string" where
  "stateDir euid getenv lookup_user home =
     (case sudoUser euid getenv lookup_user of
        Some h \<Rightarrow> path_Join [h, ''.auth-vpn'']
      | None \<Rightarrow> path_Join [home, ''.auth-vpn''])"

definition profilesPath :: "string \<Rightarrow> string" where
  "profilesPath dir = path_Join [dir, ''profiles.yaml'']"

definition NormalizeProfile :: "profile \<Rightarrow> profile_error + profile" where
  "NormalizeProfile p =
     (if pr_Name p = [] \<or> ContainsAny (pr_Name p) [CHR '':'', CHR ''/'', CHR '' '', CHR 0x09]
      then Inl (InvalidName (pr_Name p))
      else if pr_Host p = [] then Inl (NeedsServer (pr_Name p))
      else if pr_Fingerprint p \<noteq> [] \<and> \<not> HasPrefix (pr_Fingerprint p) ''SHA256:''
      then Inl (BadFingerprint (pr_Fingerprint p))
      else case SplitHostPort (pr_Host p) of
             None \<Rightarrow> Inr (p\<lparr>pr_Host := JoinHostPort (Trim (pr_Host p) ''[]'') DefaultPort\<rparr>)
           | Some hp \<Rightarrow> Inr p)"

definition loadProfilesFile :: "profile_unmarshal \<Rightarrow> filesys \<Rightarrow> string \<Rightarrow> profile_error + profile list" where
  "loadProfilesFile unmarshal fs dir =
     (case ReadFile fs (profilesPath dir) of
        Inl e \<Rightarrow> if IsNotExist e then Inr [] else Inl (ProfilesUnreadable e)
      | Inr d \<Rightarrow> (case unmarshal d of Inl e \<Rightarrow> Inl (ProfilesYaml e) | Inr ps \<Rightarrow> Inr ps))"

definition saveProfilesFile ::
    "profile_marshal \<Rightarrow> private_env \<Rightarrow> filesys \<Rightarrow> string \<Rightarrow> profile list \<Rightarrow> filesys \<times> profile_error option" where
  "saveProfilesFile marshal env fs dir ps =
     (case marshal ps of
        Inl e \<Rightarrow> (fs, Some (ProfilesYaml e))
      | Inr d \<Rightarrow> (let (fs', e) = writePrivate env fs (profilesPath dir) d in (fs', map_option ProfilesWrite e)))"

text \<open>The loop of \<open>SaveProfile\<close>: the first profile of the name is replaced, else one is appended.\<close>

fun put_profile :: "profile list \<Rightarrow> profile \<Rightarrow> profile list" where
  "put_profile [] p = [p]"
| "put_profile (x # xs) p = (if pr_Name x = pr_Name p then p # xs else x # put_profile xs p)"

definition SaveProfile ::
    "profile_marshal \<Rightarrow> profile_unmarshal \<Rightarrow> private_env \<Rightarrow> filesys \<Rightarrow> string \<Rightarrow> profile \<Rightarrow>
     filesys \<times> profile_error option" where
  "SaveProfile marshal unmarshal env fs dir p0 =
     (case NormalizeProfile p0 of
        Inl e \<Rightarrow> (fs, Some e)
      | Inr p \<Rightarrow>
          (case loadProfilesFile unmarshal fs dir of
             Inl e \<Rightarrow> (fs, Some e)
           | Inr ps \<Rightarrow> saveProfilesFile marshal env fs dir (put_profile ps p)))"

text \<open>The slice that \<open>RemoveProfile\<close> keeps.\<close>

definition drop_profile :: "profile list \<Rightarrow> string \<Rightarrow> profile list" where
  "drop_profile ps name = filter (\<lambda>p. pr_Name p \<noteq> name) ps"

definition RemoveProfile ::
    "profile_marshal \<Rightarrow> profile_unmarshal \<Rightarrow> private_env \<Rightarrow> filesys \<Rightarrow> string \<Rightarrow> string \<Rightarrow>
     filesys \<times> profile_error option" where
  "RemoveProfile marshal unmarshal env fs dir name =
     (case loadProfilesFile unmarshal fs dir of
        Inl e \<Rightarrow> (fs, Some e)
      | Inr ps \<Rightarrow>
          let kept = drop_profile ps name
          in if length kept = length ps then (fs, Some (ErrProfileNotFound name))
             else saveProfilesFile marshal env fs dir kept)"

definition profile_named :: "profile list \<Rightarrow> string \<Rightarrow> profile option" where
  "profile_named ps name = find (\<lambda>p. pr_Name p = name) ps"

definition LoadProfile :: "profile_unmarshal \<Rightarrow> filesys \<Rightarrow> string \<Rightarrow> string \<Rightarrow> profile_error + profile" where
  "LoadProfile unmarshal fs dir name =
     (case loadProfilesFile unmarshal fs dir of
        Inl e \<Rightarrow> Inl e
      | Inr ps \<Rightarrow> (case profile_named ps name of None \<Rightarrow> Inl (ErrProfileNotFound name) | Some p \<Rightarrow> Inr p))"

definition ListProfiles :: "profile_unmarshal \<Rightarrow> filesys \<Rightarrow> string \<Rightarrow> profile_error + profile list" where
  "ListProfiles unmarshal fs dir = loadProfilesFile unmarshal fs dir"

section \<open>The profile list as a table\<close>

interpretation pt: name_table profile_named put_profile pr_Name id drop_profile
proof
  fix ps :: "profile list" and p :: profile and name :: string
  show "profile_named (put_profile ps p) = (profile_named ps)(pr_Name p \<mapsto> id p)"
    by (induction ps) (auto simp: profile_named_def fun_eq_iff)
  show "profile_named (drop_profile ps name) = (profile_named ps)(name := None)"
    by (induction ps) (auto simp: profile_named_def drop_profile_def fun_eq_iff)
qed

lemma drop_profile_length: "length (drop_profile ps name) = length ps \<longleftrightarrow> profile_named ps name = None"
proof -
  have "length (drop_profile ps name) = length ps \<longleftrightarrow> drop_profile ps name = ps"
    by (metis drop_profile_def filter_id_conv length_filter_less nat_neq_iff)
  also have "\<dots> \<longleftrightarrow> profile_named ps name = None"
    by (auto simp: profile_named_def drop_profile_def find_None_iff2 filter_id_conv)
  finally show ?thesis .
qed

lemma profile_named_name: "profile_named ps name = Some p \<Longrightarrow> pr_Name p = name"
  by (auto simp: profile_named_def dest: find_SomeD)

lemma distinct_put_profile:
  "distinct (map pr_Name ps) \<Longrightarrow> distinct (map pr_Name (put_profile ps p))"
proof (induction ps)
  case (Cons x xs)
  moreover have "set (map pr_Name (put_profile xs p)) \<subseteq> insert (pr_Name p) (pr_Name ` set xs)"
    by (induction xs) auto
  ultimately show ?case by auto
qed simp

text \<open>The abstract view: profiles by name, and what a command does to them. A history runs
  \<open>SaveProfile\<close> (\<open>Inr\<close>) and \<open>RemoveProfile\<close> (\<open>Inl\<close>), each with the system calls' answers of its
  own, and lists the changes of the commands that reported success.\<close>

definition profile_map :: "profile_unmarshal \<Rightarrow> filesys \<Rightarrow> string \<Rightarrow> string \<Rightarrow> profile option" where
  "profile_map unmarshal fs dir name =
     (case LoadProfile unmarshal fs dir name of Inl e \<Rightarrow> None | Inr p \<Rightarrow> Some p)"

definition spec_change :: "(string \<Rightarrow> profile option) \<Rightarrow> string + profile \<Rightarrow> (string \<Rightarrow> profile option)" where
  "spec_change m c = (case c of Inl name \<Rightarrow> m(name := None) | Inr p \<Rightarrow> m(pr_Name p \<mapsto> p))"

definition profile_command ::
    "profile_marshal \<Rightarrow> profile_unmarshal \<Rightarrow> string \<Rightarrow> filesys \<Rightarrow> private_env \<times> (string + profile) \<Rightarrow>
     filesys \<times> (string + profile) list" where
  "profile_command marshal unmarshal dir fs = (\<lambda>(env, c).
     case c of
       Inl name \<Rightarrow>
         (let (fs', e) = RemoveProfile marshal unmarshal env fs dir name
          in (fs', if e = None then [Inl name] else []))
     | Inr p0 \<Rightarrow>
         (let (fs', e) = SaveProfile marshal unmarshal env fs dir p0
          in (fs', case NormalizeProfile p0 of Inr p \<Rightarrow> if e = None then [Inr p] else [] | Inl x \<Rightarrow> [])))"

fun profile_history ::
    "profile_marshal \<Rightarrow> profile_unmarshal \<Rightarrow> string \<Rightarrow> filesys \<Rightarrow> (private_env \<times> (string + profile)) list \<Rightarrow>
     filesys \<times> (string + profile) list" where
  "profile_history marshal unmarshal dir fs [] = (fs, [])"
| "profile_history marshal unmarshal dir fs (c # cs) =
     (let (fs1, ds) = profile_command marshal unmarshal dir fs c;
          (fs2, es) = profile_history marshal unmarshal dir fs1 cs
      in (fs2, ds @ es))"

definition profiles_yaml_ok :: "profile_marshal \<Rightarrow> profile_unmarshal \<Rightarrow> bool" where
  "profiles_yaml_ok marshal unmarshal \<longleftrightarrow> (\<forall>ps d. marshal ps = Inr d \<longrightarrow> unmarshal d = Inr ps)"

lemma profile_map_loaded:
  "loadProfilesFile unmarshal fs dir = Inr ps \<Longrightarrow> profile_map unmarshal fs dir = profile_named ps"
  by (auto simp: profile_map_def LoadProfile_def fun_eq_iff split: option.splits)

lemma saveProfilesFile_loads:
  assumes yaml: "profiles_yaml_ok marshal unmarshal" and tmp: "temp_apart env (profilesPath dir)"
    and rd: "read_fails fs (profilesPath dir) = None"
    and save: "saveProfilesFile marshal env fs dir ps = (fs', e)"
  shows "loadProfilesFile unmarshal fs' dir = (if e = None then Inr ps else loadProfilesFile unmarshal fs dir) \<and>
    read_fails fs' = read_fails fs"
proof (cases "marshal ps")
  case (Inl x)
  with save show ?thesis by (auto simp: saveProfilesFile_def)
next
  case (Inr d)
  then obtain e0 where w: "writePrivate env fs (profilesPath dir) d = (fs', e0)" and e: "e = map_option ProfilesWrite e0"
    using save by (auto simp: saveProfilesFile_def split: prod.splits)
  have "unmarshal d = Inr ps" using yaml Inr by (simp add: profiles_yaml_ok_def)
  with ReadFile_writePrivate [OF w tmp rd] writePrivate_atomic [OF w tmp] e
  show ?thesis by (auto simp: loadProfilesFile_def split: sum.splits)
qed

lemma profile_command_refines:
  assumes "profiles_yaml_ok marshal unmarshal" and "temp_apart (fst c) (profilesPath dir)"
    and "read_fails fs (profilesPath dir) = None" and "loadProfilesFile unmarshal fs dir = Inr ps"
    and "profile_command marshal unmarshal dir fs c = (fs', ds)"
  shows "(\<exists>qs. loadProfilesFile unmarshal fs' dir = Inr qs) \<and>
    profile_map unmarshal fs' dir = foldl spec_change (profile_map unmarshal fs dir) ds \<and>
    read_fails fs' = read_fails fs"
proof -
  obtain env k where c: "c = (env, k)" by (cases c)
  note saved = saveProfilesFile_loads [OF assms(1) _ assms(3)]
  have env: "temp_apart env (profilesPath dir)" using assms(2) c by simp
  note loaded = profile_map_loaded [OF assms(4)]
  show ?thesis
  proof (cases k)
    case (Inl name)
    show ?thesis
    proof (cases "length (drop_profile ps name) = length ps")
      case True
      with assms(4,5) c Inl show ?thesis by (simp add: profile_command_def RemoveProfile_def)
    next
      case False
      then obtain e where "saveProfilesFile marshal env fs dir (drop_profile ps name) = (fs', e)"
        and "ds = (if e = None then [Inl name] else [])"
        using assms(4,5) c Inl by (auto simp: profile_command_def RemoveProfile_def split: prod.splits)
      with saved [OF env this(1)] assms(4) loaded profile_map_loaded [of unmarshal fs' dir "drop_profile ps name"]
        profile_map_loaded [of unmarshal fs' dir ps]
      show ?thesis by (auto simp: spec_change_def pt.look_del)
    qed
  next
    case (Inr p0)
    show ?thesis
    proof (cases "NormalizeProfile p0")
      case (Inl x)
      with assms(4,5) c Inr show ?thesis by (simp add: profile_command_def SaveProfile_def)
    next
      case (Inr p)
      then obtain e where "saveProfilesFile marshal env fs dir (put_profile ps p) = (fs', e)"
        and "ds = (if e = None then [Inr p] else [])"
        using assms(4,5) c \<open>k = Inr p0\<close> by (auto simp: profile_command_def SaveProfile_def split: prod.splits)
      with saved [OF env this(1)] assms(4) loaded profile_map_loaded [of unmarshal fs' dir "put_profile ps p"]
        profile_map_loaded [of unmarshal fs' dir ps]
      show ?thesis by (auto simp: spec_change_def pt.look_put)
    qed
  qed
qed

section \<open>Properties\<close>

text \<open>C9: the profiles file is a table of profiles by name. After any history of saves and removals,
  each of which may fail at any system call, a profile loads as the successful commands, in their
  order, left it; a failed command changes nothing.\<close>

theorem profiles_are_a_table:
  assumes "profiles_yaml_ok marshal unmarshal" and "\<forall>c\<in>set cs. temp_apart (fst c) (profilesPath dir)"
    and "read_fails fs (profilesPath dir) = None" and "loadProfilesFile unmarshal fs dir = Inr ps"
    and "profile_history marshal unmarshal dir fs cs = (fs', ds)"
  shows "LoadProfile unmarshal fs' dir name =
    (case foldl spec_change (profile_map unmarshal fs dir) ds name of
       None \<Rightarrow> Inl (ErrProfileNotFound name) | Some p \<Rightarrow> Inr p)"
proof -
  have "(\<exists>qs. loadProfilesFile unmarshal fs' dir = Inr qs) \<and>
    profile_map unmarshal fs' dir = foldl spec_change (profile_map unmarshal fs dir) ds"
    using assms(2-5)
  proof (induction cs arbitrary: fs ps ds)
    case (Cons c cs)
    obtain fs1 d es where one: "profile_command marshal unmarshal dir fs c = (fs1, d)"
      and rest: "profile_history marshal unmarshal dir fs1 cs = (fs', es)" and ds: "ds = d @ es"
      using Cons.prems(4) by (auto split: prod.splits)
    from Cons.prems(1) have tmp: "temp_apart (fst c) (profilesPath dir)" by simp
    from profile_command_refines [OF assms(1) tmp Cons.prems(2,3) one] obtain qs where
      "loadProfilesFile unmarshal fs1 dir = Inr qs" and "read_fails fs1 = read_fails fs"
      and "profile_map unmarshal fs1 dir = foldl spec_change (profile_map unmarshal fs dir) d" by blast
    with Cons.IH [of fs1 qs es] Cons.prems(1,2) rest ds show ?case by simp
  qed auto
  then obtain qs where l: "loadProfilesFile unmarshal fs' dir = Inr qs"
    and m: "profile_map unmarshal fs' dir = foldl spec_change (profile_map unmarshal fs dir) ds" by blast
  have "foldl spec_change (profile_map unmarshal fs dir) ds = profile_named qs"
    using m profile_map_loaded [OF l] by simp
  then show ?thesis using l by (simp add: LoadProfile_def)
qed

definition lab_profile :: profile where
  "lab_profile = \<lparr>pr_Name = ''stage'', pr_Host = ''203.0.113.9:7777'', pr_Token = ''t'', pr_Fingerprint = [],
     pr_Routes = [], pr_Forwards = []\<rparr>"

definition lab_marshal :: profile_marshal where
  "lab_marshal ps = (if ps = [lab_profile] then Inr ''stage'' else if ps = [] then Inr [] else Inl ''unsupported'')"

definition lab_unmarshal :: profile_unmarshal where
  "lab_unmarshal d = (if d = ''stage'' then Inr [lab_profile] else if d = [] then Inr [] else Inl ''syntax'')"

lemma lab_yaml_ok: "profiles_yaml_ok lab_marshal lab_unmarshal"
  by (auto simp: profiles_yaml_ok_def lab_marshal_def lab_unmarshal_def split: if_splits)

lemma lab_paths: "profilesPath ''/h'' = ''/h/profiles.yaml''" "path_Dir ''/h/profiles.yaml'' = ''/h''"
  by code_simp+

lemma lab_host: "SplitHostPort ''203.0.113.9:7777'' = Some (''203.0.113.9'', ''7777'')"
  by code_simp

lemma lab_normal: "NormalizeProfile lab_profile = Inr lab_profile"
  by (simp add: NormalizeProfile_def lab_profile_def lab_host ContainsAny_def)

lemma lab_name: "pr_Name lab_profile = ''stage''"
  by (simp add: lab_profile_def)

text \<open>A save whose rename fails, then one that works, then a removal of a name nobody has.\<close>

theorem profiles_are_a_table_witness:
  "\<exists>fs'. profile_history lab_marshal lab_unmarshal ''/h'' (healthy_fs Map.empty)
      [(quiet_env\<lparr>pe_rename := Some (OSErr ''busy'')\<rparr>, Inr lab_profile), (quiet_env, Inr lab_profile),
       (quiet_env, Inl ''prod'')] = (fs', [Inr lab_profile]) \<and>
     LoadProfile lab_unmarshal fs' ''/h'' ''stage'' = Inr lab_profile"
proof -
  let ?cs = "[(quiet_env\<lparr>pe_rename := Some (OSErr ''busy'')\<rparr>, Inr lab_profile), (quiet_env, Inr lab_profile),
       (quiet_env, Inl ''prod'')]"
  have empty: "loadProfilesFile lab_unmarshal (healthy_fs Map.empty) ''/h'' = Inr []"
    by (simp add: loadProfilesFile_def ReadFile_def healthy_fs_def IsNotExist_def)
  obtain fs' ds where run: "profile_history lab_marshal lab_unmarshal ''/h'' (healthy_fs Map.empty) ?cs = (fs', ds)"
    by fastforce
  have "ds = [Inr lab_profile]"
    using run
    by (simp add: profile_command_def SaveProfile_def RemoveProfile_def lab_normal loadProfilesFile_def ReadFile_def
        healthy_fs_def IsNotExist_def saveProfilesFile_def lab_marshal_def lab_unmarshal_def writePrivate_def
        quiet_env_def drop_temp_def lab_paths temp_name_def drop_profile_def Let_def lab_name
        split: prod.splits if_splits)
  moreover have "LoadProfile lab_unmarshal fs' ''/h'' ''stage'' =
      (case foldl spec_change (profile_map lab_unmarshal (healthy_fs Map.empty) ''/h'') ds ''stage'' of
         None \<Rightarrow> Inl (ErrProfileNotFound ''stage'') | Some p \<Rightarrow> Inr p)"
    using profiles_are_a_table [OF lab_yaml_ok _ _ empty run, of "''stage''"]
    by (simp add: temp_apart_def quiet_env_def temp_name_def lab_paths healthy_fs_def)
  ultimately show ?thesis using run by (simp add: spec_change_def lab_profile_def)
qed

end
