(* ===== verification/Tofu.thy ===== *)
theory Tofu
  imports ClientState Sha256
begin

text \<open>
  Trust on first use: \<open>internal/client/tofu.go\<close> and \<open>internal/tlsutil/tofu.go\<close>. A TLS dial is
  what the network does (an error, or a peer with its certificates and the verdict of the system's
  CA verification) under the configuration the code chose; \<open>PinnedTLSConfig\<close>'s check of the
  fingerprint and the fingerprint itself (SHA-256 and base64) are computed. \<open>DialTLS\<close> dials up to
  three times, and each dial may reach a different peer. The YAML codec of the known hosts, the
  terminal and the answer of the user are arguments.
\<close>

section \<open>Fingerprints\<close>

definition b64_char :: "nat \<Rightarrow> char" where
  "b64_char n =
     (if n < 26 then char_of (65 + n) else if n < 52 then char_of (71 + n)
      else if n < 62 then char_of (n - 4) else if n = 62 then CHR ''+'' else CHR ''/'')"

text \<open>\<open>base64.StdEncoding\<close>, with padding.\<close>

fun base64 :: "bytes \<Rightarrow> string" where
  "base64 [] = []"
| "base64 [a] =
     (let n = unat a * 16 in [b64_char (n div 64), b64_char (n mod 64), CHR ''='', CHR ''=''])"
| "base64 [a, b] =
     (let n = (unat a * 256 + unat b) * 4
      in [b64_char (n div 4096), b64_char (n div 64 mod 64), b64_char (n mod 64), CHR ''=''])"
| "base64 (a # b # c # r) =
     (let n = (unat a * 256 + unat b) * 256 + unat c
      in [b64_char (n div 262144), b64_char (n div 4096 mod 64), b64_char (n div 64 mod 64), b64_char (n mod 64)] @
         base64 r)"

text \<open>A certificate is its DER encoding, \<open>cert.Raw\<close>.\<close>

definition CertFingerprint :: "bytes \<Rightarrow> string" where
  "CertFingerprint raw = ''SHA256:'' @ base64 (Sum256 raw)"

section \<open>TLS\<close>

record peer =
  peer_certs :: "bytes list"
  peer_ca :: "string option"

datatype tls_config = SkipVerify | VerifyCA | Pinned string

definition verify_pinned :: "string \<Rightarrow> bytes list \<Rightarrow> string option" where
  "verify_pinned fp certs =
     (case certs of
        [] \<Rightarrow> Some ''server sent no certificates''
      | c # cs \<Rightarrow>
          if CertFingerprint c \<noteq> fp
          then Some (''certificate fingerprint mismatch'' @ [CHR 0x0A] @ ''  expected: '' @ fp @
                     [CHR 0x0A] @ ''  got: '' @ CertFingerprint c)
          else None)"

text \<open>\<open>peer_ca\<close> is the error of the chain verification, \<open>None\<close> when the chain verifies.\<close>

definition tls_dial :: "tls_config \<Rightarrow> (string + peer) \<Rightarrow> string + peer" where
  "tls_dial cfg net =
     (case net of
        Inl e \<Rightarrow> Inl e
      | Inr p \<Rightarrow>
          (case (case cfg of SkipVerify \<Rightarrow> None | VerifyCA \<Rightarrow> peer_ca p
                 | Pinned fp \<Rightarrow> verify_pinned fp (peer_certs p)) of
             Some e \<Rightarrow> Inl e
           | None \<Rightarrow> Inr p))"

definition FetchFingerprint :: "(string + peer) \<Rightarrow> string + string" where
  "FetchFingerprint net =
     (case tls_dial SkipVerify net of
        Inl e \<Rightarrow> Inl e
      | Inr p \<Rightarrow> (case peer_certs p of [] \<Rightarrow> Inl ''server sent no certificates'' | c # cs \<Rightarrow> Inr (CertFingerprint c)))"

section \<open>Known hosts\<close>

type_synonym hosts = "string \<Rightarrow> string option"

text \<open>What \<open>Unmarshal\<close> leaves in the \<open>Hosts\<close> field, whose error is ignored: \<open>None\<close> is the nil map.\<close>

type_synonym hosts_unmarshal = "string \<Rightarrow> hosts option"
type_synonym hosts_marshal = "hosts \<Rightarrow> string + string"

datatype hosts_error = HostsYaml string | HostsFile os_error

definition knownHostsPath :: "string \<Rightarrow> string" where
  "knownHostsPath dir = path_Join [dir, ''known_hosts.yaml'']"

definition loadKnownHosts :: "hosts_unmarshal \<Rightarrow> filesys \<Rightarrow> string \<Rightarrow> hosts" where
  "loadKnownHosts unmarshal fs dir =
     (case ReadFile fs (knownHostsPath dir) of
        Inl e \<Rightarrow> Map.empty
      | Inr d \<Rightarrow> (case unmarshal d of None \<Rightarrow> Map.empty | Some m \<Rightarrow> m))"

definition saveKnownHosts ::
    "hosts_marshal \<Rightarrow> private_env \<Rightarrow> filesys \<Rightarrow> string \<Rightarrow> hosts \<Rightarrow> filesys \<times> hosts_error option" where
  "saveKnownHosts marshal env fs dir kh =
     (case marshal kh of
        Inl e \<Rightarrow> (fs, Some (HostsYaml e))
      | Inr d \<Rightarrow> (let (fs', e) = writePrivate env fs (knownHostsPath dir) d in (fs', map_option HostsFile e)))"

text \<open>A missing key of a Go map reads as the empty string.\<close>

definition host_entry :: "hosts \<Rightarrow> string \<Rightarrow> string" where
  "host_entry kh addr = (case kh addr of None \<Rightarrow> [] | Some fp \<Rightarrow> fp)"

definition KnownFingerprint :: "hosts_unmarshal \<Rightarrow> filesys \<Rightarrow> string \<Rightarrow> string \<Rightarrow> string" where
  "KnownFingerprint unmarshal fs dir addr = host_entry (loadKnownHosts unmarshal fs dir) addr"

definition put_host :: "hosts \<Rightarrow> string \<times> string \<Rightarrow> hosts" where
  "put_host kh e = kh(fst e \<mapsto> snd e)"

definition TrustFingerprint ::
    "hosts_marshal \<Rightarrow> hosts_unmarshal \<Rightarrow> private_env \<Rightarrow> filesys \<Rightarrow> string \<Rightarrow> string \<Rightarrow> string \<Rightarrow>
     filesys \<times> hosts_error option" where
  "TrustFingerprint marshal unmarshal env fs dir addr fp =
     (let kh = loadKnownHosts unmarshal fs dir
      in if host_entry kh addr = fp then (fs, None)
         else saveKnownHosts marshal env fs dir (put_host kh (addr, fp)))"

definition IsPinned :: "hosts_unmarshal \<Rightarrow> filesys \<Rightarrow> string \<Rightarrow> profile \<Rightarrow> bool" where
  "IsPinned unmarshal fs dir p =
     (if pr_Fingerprint p \<noteq> [] then True else loadKnownHosts unmarshal fs dir (pr_Host p) \<noteq> None)"

interpretation kht: lookup_table "\<lambda>kh. kh" put_host fst snd
  by unfold_locales (simp add: put_host_def)

section \<open>Dialing\<close>

definition isCertError :: "string \<Rightarrow> bool" where
  "isCertError s \<longleftrightarrow> Contains s ''x509'' \<or> Contains s ''certificate'' \<or> Contains s ''tls: failed to verify''"

text \<open>\<open>stdin\<close>: is standard input a character device (\<open>None\<close>: \<open>Stat\<close> failed); \<open>null\<close>: is it the
  null device (\<open>None\<close>: that could not be told).\<close>

definition IsInteractive :: "bool option \<Rightarrow> bool option \<Rightarrow> bool" where
  "IsInteractive stdin null =
     (if stdin = None \<or> stdin = Some False then False
      else if null = Some True then False else True)"

datatype dial_error = DialTLSError string | NotTrusted

definition trusts :: "string \<Rightarrow> bool" where
  "trusts answer \<longleftrightarrow> TrimSpace (ToLower answer) = ''y'' \<or> TrimSpace (ToLower answer) = ''yes''"

text \<open>\<open>net k\<close> is the peer (or the failure) that the \<open>k\<close>-th dial meets.\<close>

definition DialTLS ::
    "hosts_marshal \<Rightarrow> hosts_unmarshal \<Rightarrow> private_env \<Rightarrow> bool \<Rightarrow> string \<Rightarrow> (nat \<Rightarrow> string + peer) \<Rightarrow>
     filesys \<Rightarrow> string \<Rightarrow> string \<Rightarrow> bool \<Rightarrow> (dial_error + peer) \<times> filesys" where
  "DialTLS marshal unmarshal env interactive answer net fs dir addr insecure =
     (let lift = (\<lambda>r. case r of Inl e \<Rightarrow> Inl (DialTLSError e) | Inr p \<Rightarrow> Inr p)
      in if insecure then (lift (tls_dial SkipVerify (net 0)), fs)
         else let kh = loadKnownHosts unmarshal fs dir
         in case kh addr of
              Some fp \<Rightarrow> (lift (tls_dial (Pinned fp) (net 0)), fs)
            | None \<Rightarrow>
                (case tls_dial VerifyCA (net 0) of
                   Inr p \<Rightarrow> (Inr p, fs)
                 | Inl err \<Rightarrow>
                     if \<not> isCertError err then (Inl (DialTLSError err), fs)
                     else (case FetchFingerprint (net 1) of
                             Inl fetchErr \<Rightarrow> (Inl (DialTLSError (''TLS: '' @ err)), fs)
                           | Inr fp \<Rightarrow>
                               if interactive \<and> \<not> trusts answer then (Inl NotTrusted, fs)
                               else let (fs', saveErr) = saveKnownHosts marshal env fs dir (put_host kh (addr, fp))
                                    in (lift (tls_dial (Pinned fp) (net 2)), fs'))))"

section \<open>Facts\<close>

definition hosts_yaml_ok :: "hosts_marshal \<Rightarrow> hosts_unmarshal \<Rightarrow> bool" where
  "hosts_yaml_ok marshal unmarshal \<longleftrightarrow> (\<forall>kh d. marshal kh = Inr d \<longrightarrow> unmarshal d = Some kh)"

definition presents :: "peer \<Rightarrow> string \<Rightarrow> bool" where
  "presents p fp \<longleftrightarrow> peer_certs p \<noteq> [] \<and> CertFingerprint (hd (peer_certs p)) = fp"

lemma tls_dial_Pinned: "tls_dial (Pinned fp) net = Inr p \<longleftrightarrow> net = Inr p \<and> presents p fp"
  by (auto simp: tls_dial_def verify_pinned_def presents_def split: sum.splits option.splits list.splits if_splits)

lemma tls_dial_VerifyCA: "tls_dial VerifyCA net = Inr p \<longleftrightarrow> net = Inr p \<and> peer_ca p = None"
  by (auto simp: tls_dial_def split: sum.splits option.splits)

lemma saveKnownHosts_loads:
  assumes "hosts_yaml_ok marshal unmarshal" and "temp_apart env (knownHostsPath dir)"
    and "read_fails fs (knownHostsPath dir) = None"
    and "saveKnownHosts marshal env fs dir kh = (fs', e)"
  shows "loadKnownHosts unmarshal fs' dir = (if e = None then kh else loadKnownHosts unmarshal fs dir)"
proof (cases "marshal kh")
  case (Inl x)
  with assms(4) show ?thesis by (auto simp: saveKnownHosts_def)
next
  case (Inr d)
  then obtain e0 where w: "writePrivate env fs (knownHostsPath dir) d = (fs', e0)" and e: "e = map_option HostsFile e0"
    using assms(4) by (auto simp: saveKnownHosts_def split: prod.splits)
  have "unmarshal d = Some kh" using assms(1) Inr by (simp add: hosts_yaml_ok_def)
  with ReadFile_writePrivate [OF w assms(2,3)] e show ?thesis by (simp add: loadKnownHosts_def)
qed

text \<open>On whose word a connection is accepted.\<close>

lemma DialTLS_accepts:
  assumes "DialTLS marshal unmarshal env interactive answer net fs dir addr False = (Inr p, fs')"
  shows "(case loadKnownHosts unmarshal fs dir addr of
      Some fp \<Rightarrow> presents p fp \<and> fs' = fs
    | None \<Rightarrow> (peer_ca p = None \<and> fs' = fs) \<or>
        (\<exists>fp e. presents p fp \<and> (interactive \<longrightarrow> trusts answer) \<and>
           saveKnownHosts marshal env fs dir (put_host (loadKnownHosts unmarshal fs dir) (addr, fp)) = (fs', e)))"
  using assms unfolding DialTLS_def Let_def
  by (auto simp: tls_dial_Pinned tls_dial_VerifyCA split: option.splits sum.splits if_splits prod.splits)

section \<open>Properties\<close>


definition self_signed :: "bytes \<Rightarrow> peer" where
  "self_signed c = \<lparr>peer_certs = [c], peer_ca = Some ''x509: certificate signed by unknown authority''\<rparr>"

definition lab_addr :: string where "lab_addr = ''203.0.113.9:7777''"

definition lab_hosts_marshal :: hosts_marshal where
  "lab_hosts_marshal kh = (if kh = [lab_addr \<mapsto> CertFingerprint [1]] then Inr ''one'' else Inl ''unsupported'')"

definition lab_hosts_unmarshal :: hosts_unmarshal where
  "lab_hosts_unmarshal d = (if d = ''one'' then Some [lab_addr \<mapsto> CertFingerprint [1]] else None)"

lemma lab_hosts_ok: "hosts_yaml_ok lab_hosts_marshal lab_hosts_unmarshal"
  by (simp add: hosts_yaml_ok_def lab_hosts_marshal_def lab_hosts_unmarshal_def)

lemma lab_hosts_path: "knownHostsPath ''/h'' = ''/h/known_hosts.yaml''" "path_Dir ''/h/known_hosts.yaml'' = ''/h''"
  by code_simp+

lemma self_signed_cert_error: "isCertError ''x509: certificate signed by unknown authority''"
  by code_simp

lemma self_signed_dials:
  "tls_dial VerifyCA (Inr (self_signed c)) = Inl ''x509: certificate signed by unknown authority''"
  "FetchFingerprint (Inr (self_signed c)) = Inr (CertFingerprint c)"
  "tls_dial (Pinned (CertFingerprint c)) (Inr (self_signed c)) = Inr (self_signed c)"
  by (simp_all add: tls_dial_def FetchFingerprint_def verify_pinned_def self_signed_def)

text \<open>The file system after the first connection of the example.\<close>

definition lab_pinned_fs :: "(string \<Rightarrow> string option) \<Rightarrow> filesys" where
  "lab_pinned_fs m = fst (writePrivate quiet_env (healthy_fs m) (knownHostsPath ''/h'') ''one'')"

lemma lab_first_dial:
  assumes "loadKnownHosts lab_hosts_unmarshal (healthy_fs m) ''/h'' = Map.empty"
  shows "DialTLS lab_hosts_marshal lab_hosts_unmarshal quiet_env False [] (\<lambda>k. Inr (self_signed [1])) (healthy_fs m) ''/h''
      lab_addr False = (Inr (self_signed [1]), lab_pinned_fs m) \<and>
    loadKnownHosts lab_hosts_unmarshal (lab_pinned_fs m) ''/h'' = [lab_addr \<mapsto> CertFingerprint [1]]"
proof -
  have w: "writePrivate quiet_env (healthy_fs m) (knownHostsPath ''/h'') ''one'' = (lab_pinned_fs m, None)"
    by (simp add: lab_pinned_fs_def writePrivate_quiet)
  have t: "temp_apart quiet_env (knownHostsPath ''/h'')"
    by (simp add: temp_apart_def quiet_env_def temp_name_def lab_hosts_path)
  have sv: "saveKnownHosts lab_hosts_marshal quiet_env (healthy_fs m) ''/h'' [lab_addr \<mapsto> CertFingerprint [1]] = (lab_pinned_fs m, None)"
    using w by (simp add: saveKnownHosts_def lab_hosts_marshal_def)
  have "ReadFile (lab_pinned_fs m) (knownHostsPath ''/h'') = Inr ''one''"
    using ReadFile_writePrivate [OF w t] by (simp add: healthy_fs_def)
  then have "loadKnownHosts lab_hosts_unmarshal (lab_pinned_fs m) ''/h'' = [lab_addr \<mapsto> CertFingerprint [1]]"
    by (simp add: loadKnownHosts_def lab_hosts_unmarshal_def)
  with sv show ?thesis
    by (simp add: DialTLS_def Let_def assms self_signed_dials self_signed_cert_error put_host_def)
qed


text \<open>A \<open>known_hosts.yaml\<close> that cannot be parsed counts as empty. A client without a terminal then
  accepts any self-signed server at a pinned address, with no sign of the pin, and the file it writes
  holds that server alone.\<close>

theorem unreadable_known_hosts_forgets_pins:
  assumes "ReadFile fs (knownHostsPath dir) = Inr d" and "unmarshal d = None"
    and "peer_certs p = c # cs" and "peer_ca p = Some err" and "isCertError err"
  shows "DialTLS marshal unmarshal env False answer (\<lambda>k. Inr p) fs dir addr False =
    (Inr p, fst (saveKnownHosts marshal env fs dir [addr \<mapsto> CertFingerprint c]))"
proof -
  have "loadKnownHosts unmarshal fs dir = Map.empty" using assms(1,2) by (simp add: loadKnownHosts_def)
  with assms(3-5) show ?thesis
    by (simp add: DialTLS_def tls_dial_def FetchFingerprint_def verify_pinned_def put_host_def split: prod.splits)
qed

theorem unreadable_known_hosts_forgets_pins_witness:
  "let m = [''/h/known_hosts.yaml'' \<mapsto> ''hosts: [''] in
   \<exists>fs'. DialTLS lab_hosts_marshal lab_hosts_unmarshal quiet_env False [] (\<lambda>k. Inr (self_signed [1])) (healthy_fs m)
       ''/h'' lab_addr False = (Inr (self_signed [1]), fs') \<and>
     loadKnownHosts lab_hosts_unmarshal fs' ''/h'' = [lab_addr \<mapsto> CertFingerprint [1]]"
proof -
  let ?m = "[''/h/known_hosts.yaml'' \<mapsto> ''hosts: ['']"
  have r: "ReadFile (healthy_fs ?m) (knownHostsPath ''/h'') = Inr ''hosts: [''"
    by (simp add: ReadFile_def healthy_fs_def lab_hosts_path)
  have u: "lab_hosts_unmarshal ''hosts: ['' = None" by (simp add: lab_hosts_unmarshal_def)
  then have e: "loadKnownHosts lab_hosts_unmarshal (healthy_fs ?m) ''/h'' = Map.empty"
    using r by (simp add: loadKnownHosts_def)
  have "DialTLS lab_hosts_marshal lab_hosts_unmarshal quiet_env False [] (\<lambda>k. Inr (self_signed [1])) (healthy_fs ?m)
      ''/h'' lab_addr False =
    (Inr (self_signed [1]), fst (saveKnownHosts lab_hosts_marshal quiet_env (healthy_fs ?m) ''/h'' [lab_addr \<mapsto> CertFingerprint [1]]))"
    by (rule unreadable_known_hosts_forgets_pins [where unmarshal = lab_hosts_unmarshal and cs = "[]"])
      (use r u self_signed_cert_error in \<open>simp_all add: self_signed_def\<close>)
  with lab_first_dial [OF e] show ?thesis by (auto simp: Let_def)
qed

end
