(* ===== verification/Hub.thy ===== *)
theory Hub
  imports HttpApi Tofu
begin

text \<open>
  \<open>internal/hub\<close>: the dashboard that manages several servers. \<open>config.go\<close> keeps the list of
  servers in \<open>hub.yaml\<close> (the YAML codec is an argument); \<open>hub.go\<close> polls their health, serves its
  own API behind the hub key, and forwards requests to a server under that server's key. One poll
  is two steps, \<open>poll_request\<close> when it starts and \<open>poll_done\<close> when its answer arrives: anything can
  happen in between. \<open>url.Parse\<close>, the servers' answers and the TLS peers are arguments; what
  \<open>net/http\<close> has decoded is part of the request.
\<close>

section \<open>Configuration\<close>

record ServerEntry =
  se_Name :: string
  se_URL :: string
  se_APIKey :: string
  se_TLSFingerprint :: string

record hub_config =
  hc_HubKey :: string
  hc_Servers :: "ServerEntry list"

datatype hub_error = HubFile os_error | HubYaml string

type_synonym hub_marshal = "hub_config \<Rightarrow> string + string"

text \<open>\<open>home\<close> is what \<open>os.UserHomeDir\<close> gives.\<close>

definition ConfigPath :: "string option \<Rightarrow> string" where
  "ConfigPath home = path_Join [case home of None \<Rightarrow> ''.'' | Some h \<Rightarrow> h, ''.auth-vpn'', ''hub.yaml'']"

definition LoadConfig ::
    "(string \<Rightarrow> string + hub_config) \<Rightarrow> filesys \<Rightarrow> string option \<Rightarrow> hub_error + hub_config" where
  "LoadConfig unmarshal fs home =
     (case ReadFile fs (ConfigPath home) of
        Inl e \<Rightarrow> if IsNotExist e then Inr \<lparr>hc_HubKey = [], hc_Servers = []\<rparr> else Inl (HubFile e)
      | Inr d \<Rightarrow> (case unmarshal d of Inl e \<Rightarrow> Inl (HubYaml e) | Inr cfg \<Rightarrow> Inr cfg))"

definition saveConfig :: "hub_marshal \<Rightarrow> filesys \<Rightarrow> string option \<Rightarrow> hub_config \<Rightarrow> filesys \<times> hub_error option" where
  "saveConfig marshal fs home cfg =
     (case MkdirAll fs (path_Dir (ConfigPath home)) of
        Some e \<Rightarrow> (fs, Some (HubFile e))
      | None \<Rightarrow>
          (case marshal cfg of
             Inl e \<Rightarrow> (fs, Some (HubYaml e))
           | Inr d \<Rightarrow> (let (fs', e) = WriteFile fs (ConfigPath home) d in (fs', map_option HubFile e))))"

section \<open>State\<close>

text \<open>\<open>ActiveClients\<close> and the byte counters are 64-bit integers; the uptime is kept as its JSON
  literal, which the code only passes on.\<close>

record serverStatus =
  st_Online :: bool
  st_ActiveClients :: "64 word"
  st_UptimeSecs :: string
  st_BytesIn :: "64 word"
  st_BytesOut :: "64 word"
  st_LastChecked :: instant
  st_Error :: string

definition zero_status :: serverStatus where
  "zero_status = \<lparr>st_Online = False, st_ActiveClients = 0, st_UptimeSecs = ''0'', st_BytesIn = 0, st_BytesOut = 0,
     st_LastChecked = zero_time, st_Error = []\<rparr>"

datatype http_client = PinnedClient string | PlainClient

record hub =
  hb_cfg :: hub_config
  hb_statuses :: "string \<Rightarrow> serverStatus option"
  hb_hcache :: "string \<Rightarrow> http_client option"
  hb_done :: bool
  hb_hubKey :: string
  hb_home :: "string option"
  hb_fs :: filesys

definition buildHTTPClient :: "ServerEntry \<Rightarrow> http_client" where
  "buildHTTPClient s = (if se_TLSFingerprint s \<noteq> [] then PinnedClient (se_TLSFingerprint s) else PlainClient)"

definition rebuildClientCache :: "hub \<Rightarrow> hub" where
  "rebuildClientCache h =
     h\<lparr>hb_hcache := foldl (\<lambda>m s. m(se_Name s \<mapsto> buildHTTPClient s)) Map.empty (hc_Servers (hb_cfg h))\<rparr>"

definition clientFor :: "hub \<Rightarrow> ServerEntry \<Rightarrow> http_client" where
  "clientFor h s = (case hb_hcache h (se_Name s) of Some c \<Rightarrow> c | None \<Rightarrow> buildHTTPClient s)"

definition New_hub :: "hub_config \<Rightarrow> string \<Rightarrow> string option \<Rightarrow> filesys \<Rightarrow> hub" where
  "New_hub cfg hubKey home fs = rebuildClientCache
     \<lparr>hb_cfg = cfg, hb_statuses = Map.empty, hb_hcache = Map.empty, hb_done = False, hb_hubKey = hubKey,
      hb_home = home, hb_fs = fs\<rparr>"

definition Stop_hub :: "hub \<Rightarrow> hub" where
  "Stop_hub h = h\<lparr>hb_done := True\<rparr>"

definition setStatus :: "string \<Rightarrow> serverStatus \<Rightarrow> hub \<Rightarrow> hub" where
  "setStatus name st h = h\<lparr>hb_statuses := (hb_statuses h)(name \<mapsto> st)\<rparr>"

definition getStatus :: "hub \<Rightarrow> string \<Rightarrow> serverStatus" where
  "getStatus h name = (case hb_statuses h name of Some st \<Rightarrow> st | None \<Rightarrow> zero_status)"

section \<open>Polling\<close>

record healthBody =
  hl_Uptime :: string
  hl_Clients :: int
  hl_BytesIn :: int
  hl_BytesOut :: int

definition dec_number :: "json \<Rightarrow> string \<Rightarrow> string \<times> bool" where
  "dec_number v old = (case v of JNum w \<Rightarrow> (w, True) | JNull \<Rightarrow> (old, True) | _ \<Rightarrow> (old, False))"

definition mem_healthBody :: "string \<Rightarrow> json \<Rightarrow> healthBody \<Rightarrow> healthBody \<times> bool" where
  "mem_healthBody k v b =
     (if key_is k ''uptime'' then (let (x, ok) = dec_number v (hl_Uptime b) in (b\<lparr>hl_Uptime := x\<rparr>, ok))
      else if key_is k ''clients'' then (let (x, ok) = dec_int v (hl_Clients b) in (b\<lparr>hl_Clients := x\<rparr>, ok))
      else if key_is k ''bytes_in'' then (let (x, ok) = dec_int v (hl_BytesIn b) in (b\<lparr>hl_BytesIn := x\<rparr>, ok))
      else if key_is k ''bytes_out'' then (let (x, ok) = dec_int v (hl_BytesOut b) in (b\<lparr>hl_BytesOut := x\<rparr>, ok))
      else (b, True))"

text \<open>The request of a poll: the client, the URL and the key that go out.\<close>

definition poll_request :: "hub \<Rightarrow> ServerEntry \<Rightarrow> http_client \<times> string \<times> string option" where
  "poll_request h s =
     (clientFor h s, se_URL s @ ''/health'',
      if se_APIKey s \<noteq> [] then Some (''Bearer '' @ se_APIKey s) else None)"

text \<open>The answer: an error, or a status and a body of which 64 KiB are read. Decoding errors are
  ignored.\<close>

definition poll_done :: "instant \<Rightarrow> ServerEntry \<Rightarrow> (string + nat \<times> string) \<Rightarrow> hub \<Rightarrow> hub" where
  "poll_done now s resp h =
     (case resp of
        Inl e \<Rightarrow> setStatus (se_Name s) (zero_status\<lparr>st_LastChecked := now, st_Error := e\<rparr>) h
      | Inr (code, body) \<Rightarrow>
          let b = fst (decode_first mem_healthBody (take 65536 body)
                     \<lparr>hl_Uptime = ''0'', hl_Clients = 0, hl_BytesIn = 0, hl_BytesOut = 0\<rparr>)
          in setStatus (se_Name s)
               \<lparr>st_Online = (code = 200), st_ActiveClients = word_of_int (hl_Clients b), st_UptimeSecs = hl_Uptime b,
                st_BytesIn = word_of_int (hl_BytesIn b), st_BytesOut = word_of_int (hl_BytesOut b),
                st_LastChecked = now, st_Error = []\<rparr> h)"

definition pollAll :: "hub \<Rightarrow> ServerEntry list" where
  "pollAll h = hc_Servers (hb_cfg h)"

section \<open>Requests and responses\<close>

record hub_request = request +
  hr_RawQuery :: string
  hr_Header :: "(string \<times> string list) list"

record url =
  u_Scheme :: string
  u_Host :: string

record serverInfo =
  si_entry :: "string \<times> string"
  si_status :: serverStatus

text \<open>What is sent to a server, and what came back.\<close>

record upstream =
  up_client :: http_client
  up_Method :: string
  up_URL :: string
  up_Header :: "(string \<times> string list) list"
  up_Body :: string

record upstream_reply =
  ur_Status :: nat
  ur_Header :: "(string \<times> string list) list"
  ur_Body :: string

datatype hub_body =
    HubNothing
  | HubError string
  | HubUI
  | HubServers "serverInfo list"
  | HubName string
  | HubRemoved string
  | HubProbe "string + string"
  | HubOverview nat nat "64 word"
  | HubRedirect string
  | HubUpstream upstream_reply

record hub_response =
  hs_Status :: nat
  hs_Body :: hub_body

text \<open>A handler gives the response, the state, the polls it starts and the requests it sends.\<close>

type_synonym hub_reply = "hub_response \<times> hub \<times> ServerEntry list \<times> upstream list"

record hub_env =
  he_parse :: "string \<Rightarrow> string + url"
  he_marshal :: hub_marshal
  he_reach :: "string \<Rightarrow> string \<Rightarrow> string option"
  he_tls :: "string \<Rightarrow> string + peer"
  he_do :: "upstream \<Rightarrow> string + upstream_reply"

definition hub_answer :: "hub \<Rightarrow> nat \<Rightarrow> hub_body \<Rightarrow> hub_reply" where
  "hub_answer h status b = (\<lparr>hs_Status = status, hs_Body = b\<rparr>, h, [], [])"

text \<open>\<open>URL.Hostname\<close> and \<open>URL.Port\<close>.\<close>

definition valid_optional_port :: "string \<Rightarrow> bool" where
  "valid_optional_port p \<longleftrightarrow> p = [] \<or> (hd p = CHR '':'' \<and> list_all is_digit (tl p))"

definition split_url_host :: "string \<Rightarrow> string \<times> string" where
  "split_url_host hp =
     (let (host, port) = (case LastIndexByte hp CHR '':'' of
              None \<Rightarrow> (hp, [])
            | Some i \<Rightarrow> if valid_optional_port (drop i hp) then (take i hp, drop (Suc i) hp) else (hp, []))
      in (if HasPrefix host ''['' \<and> host \<noteq> [] \<and> last host = CHR '']'' then butlast (tl host) else host, port))"

definition url_Hostname :: "url \<Rightarrow> string" where "url_Hostname u = fst (split_url_host (u_Host u))"
definition url_Port :: "url \<Rightarrow> string" where "url_Port u = snd (split_url_host (u_Host u))"

text \<open>\<open>url.QueryEscape\<close>.\<close>

definition upper_hex :: "nat \<Rightarrow> char" where
  "upper_hex d = (if d < 10 then char_of (48 + d) else char_of (55 + d))"

definition escape_char :: "char \<Rightarrow> string" where
  "escape_char c =
     (let n = of_char c :: nat
      in if c \<in> set ''ABCDEFGHIJKLMNOPQRSTUVWXYZabcdefghijklmnopqrstuvwxyz0123456789-_.~'' then [c]
         else if c = CHR '' '' then ''+''
         else [CHR 0x25, upper_hex (n div 16), upper_hex (n mod 16)])"

definition QueryEscape :: "string \<Rightarrow> string" where
  "QueryEscape s = concat (map escape_char s)"

text \<open>\<open>http.CanonicalHeaderKey\<close> on a key of token characters, and the headers that are not passed on.\<close>

definition upper_char :: "char \<Rightarrow> char" where
  "upper_char c = (let n = of_char c :: nat in if 97 \<le> n \<and> n \<le> 122 then char_of (n - 32) else c)"

fun canonical :: "bool \<Rightarrow> string \<Rightarrow> string" where
  "canonical upper [] = []"
| "canonical upper (c # s) = (if upper then upper_char c else lower_char c) # canonical (c = CHR ''-'') s"

definition hopByHopHeaders :: "string list" where
  "hopByHopHeaders =
     [''Connection'', ''Keep-Alive'', ''Proxy-Authenticate'', ''Proxy-Authorization'', ''Te'', ''Trailers'',
      ''Transfer-Encoding'', ''Upgrade'']"

definition isHopByHop :: "string \<Rightarrow> bool" where
  "isHopByHop k \<longleftrightarrow> canonical True k \<in> set hopByHopHeaders"

section \<open>Handlers\<close>

definition json_request_body :: "string \<Rightarrow> string" where
  "json_request_body b = take 1048576 b"

definition mem_serverBody :: "string \<Rightarrow> json \<Rightarrow> ServerEntry \<Rightarrow> ServerEntry \<times> bool" where
  "mem_serverBody k v e =
     (if key_is k ''name'' then (let (x, ok) = dec_string v (se_Name e) in (e\<lparr>se_Name := x\<rparr>, ok))
      else if key_is k ''url'' then (let (x, ok) = dec_string v (se_URL e) in (e\<lparr>se_URL := x\<rparr>, ok))
      else if key_is k ''api_key'' then (let (x, ok) = dec_string v (se_APIKey e) in (e\<lparr>se_APIKey := x\<rparr>, ok))
      else if key_is k ''tls_fingerprint'' then
        (let (x, ok) = dec_string v (se_TLSFingerprint e) in (e\<lparr>se_TLSFingerprint := x\<rparr>, ok))
      else (e, True))"

definition zero_entry :: ServerEntry where
  "zero_entry = \<lparr>se_Name = [], se_URL = [], se_APIKey = [], se_TLSFingerprint = []\<rparr>"

definition server_named :: "hub \<Rightarrow> string \<Rightarrow> ServerEntry option" where
  "server_named h name = find (\<lambda>s. se_Name s = name) (hc_Servers (hb_cfg h))"

definition save_hub :: "hub_env \<Rightarrow> hub \<Rightarrow> hub" where
  "save_hub env h = h\<lparr>hb_fs := fst (saveConfig (he_marshal env) (hb_fs h) (hb_home h) (hb_cfg h))\<rparr>"

definition set_servers :: "ServerEntry list \<Rightarrow> hub \<Rightarrow> hub" where
  "set_servers es h = h\<lparr>hb_cfg := (hb_cfg h)\<lparr>hc_Servers := es\<rparr>\<rparr>"

definition handleServers :: "hub_env \<Rightarrow> hub_request \<Rightarrow> hub \<Rightarrow> hub_reply" where
  "handleServers env r h =
     (if rq_Method r = ''GET'' then
        hub_answer h 200 (HubServers
          (map (\<lambda>s. \<lparr>si_entry = (se_Name s, se_URL s), si_status = getStatus h (se_Name s)\<rparr>) (hc_Servers (hb_cfg h))))
      else if rq_Method r = ''POST'' then
        (let (b, ok) = decode_first mem_serverBody (json_request_body (rq_Body r)) zero_entry
         in if \<not> ok then hub_answer h 400 (HubError ''invalid json'')
            else if se_Name b = [] \<or> se_URL b = [] then hub_answer h 400 (HubError ''name and url required'')
            else if (case he_parse env (se_URL b) of
                       Inl e \<Rightarrow> True | Inr u \<Rightarrow> u_Scheme u \<noteq> ''http'' \<and> u_Scheme u \<noteq> ''https'')
            then hub_answer h 400 (HubError ''url must be http:// or https://'')
            else let entry = b\<lparr>se_URL := TrimRight (se_URL b) ''/''\<rparr>
            in if server_named h (se_Name b) \<noteq> None then hub_answer h 409 (HubError ''server name already exists'')
               else let h1 = save_hub env (set_servers (hc_Servers (hb_cfg h) @ [entry]) h);
                        h2 = h1\<lparr>hb_hcache := (hb_hcache h1)(se_Name entry \<mapsto> buildHTTPClient entry)\<rparr>
                    in (\<lparr>hs_Status = 201, hs_Body = HubName (se_Name entry)\<rparr>, h2, [entry], []))
      else hub_answer h 405 HubNothing)"

definition handleServerByName :: "hub_env \<Rightarrow> hub_request \<Rightarrow> hub \<Rightarrow> hub_reply" where
  "handleServerByName env r h =
     (if rq_Method r \<noteq> ''DELETE'' then hub_answer h 405 HubNothing
      else let name = TrimPrefix (rq_Path r) ''/api/hub/servers/''
      in if name = [] \<or> name = ''probe'' then hub_answer h 400 (HubError ''name required'')
         else if server_named h name = None then hub_answer h 404 (HubError ''server not found'')
         else let h1 = save_hub env (set_servers (filter (\<lambda>s. se_Name s \<noteq> name) (hc_Servers (hb_cfg h))) h);
                  h2 = h1\<lparr>hb_statuses := map_delete name (hb_statuses h1), hb_hcache := map_delete name (hb_hcache h1)\<rparr>
              in hub_answer h2 200 (HubRemoved name))"

text \<open>The probe of a URL before it is added: over HTTP whether \<open>/health\<close> answers, over HTTPS the
  fingerprint.\<close>

definition mem_probeBody :: "string \<Rightarrow> json \<Rightarrow> string \<times> string \<Rightarrow> (string \<times> string) \<times> bool" where
  "mem_probeBody k v = (\<lambda>(x, y).
     if key_is k ''url'' then (let (s, ok) = dec_string v x in ((s, y), ok))
     else if key_is k ''api_key'' then (let (s, ok) = dec_string v y in ((x, s), ok))
     else ((x, y), True))"

definition handleProbe :: "hub_env \<Rightarrow> hub_request \<Rightarrow> hub \<Rightarrow> hub_reply" where
  "handleProbe env r h =
     (if rq_Method r \<noteq> ''POST'' then hub_answer h 405 HubNothing
      else let ((u, key), ok) = decode_first mem_probeBody (json_request_body (rq_Body r)) ([], [])
      in if \<not> ok \<or> u = [] then hub_answer h 400 (HubError ''url required'')
         else case he_parse env u of
                Inl e \<Rightarrow> hub_answer h 400 (HubError (''invalid url: '' @ e))
              | Inr parsed \<Rightarrow>
                  if u_Scheme parsed \<noteq> ''http'' \<and> u_Scheme parsed \<noteq> ''https''
                  then hub_answer h 400 (HubError ''url must be http:// or https://'')
                  else if u_Scheme parsed \<noteq> ''https'' then
                    (case he_reach env (TrimRight u ''/'' @ ''/health'') key of
                       Some e \<Rightarrow> hub_answer h 200 (HubProbe (Inl e))
                     | None \<Rightarrow> hub_answer h 200 (HubProbe (Inr [])))
                  else let port = (if url_Port parsed = [] then ''443'' else url_Port parsed)
                  in (case FetchFingerprint (he_tls env (url_Hostname parsed @ '':'' @ port)) of
                        Inl e \<Rightarrow> hub_answer h 200 (HubProbe (Inl e))
                      | Inr fp \<Rightarrow> hub_answer h 200 (HubProbe (Inr fp))))"

text \<open>The totals over \<open>h.statuses\<close>; \<open>order\<close> is the order the map is walked in.\<close>

definition handleOverview :: "string list \<Rightarrow> hub_request \<Rightarrow> hub \<Rightarrow> hub_reply" where
  "handleOverview order r h =
     (let up = filter st_Online (map (getStatus h) order)
      in hub_answer h 200 (HubOverview (length (hc_Servers (hb_cfg h))) (length up) (sum_list (map st_ActiveClients up))))"

definition handleOpen :: "hub_env \<Rightarrow> hub_request \<Rightarrow> hub \<Rightarrow> hub_reply" where
  "handleOpen env r h =
     (let name = TrimPrefix (rq_Path r) ''/hub/open/''
      in if name = [] then hub_answer h 404 HubNothing
         else case server_named h name of
                None \<Rightarrow> hub_answer h 404 (HubError (''server not found: '' @ name))
              | Some entry \<Rightarrow>
                  (case he_parse env (se_URL entry) of
                     Inl e \<Rightarrow> hub_answer h 500 (HubError ''invalid server url'')
                   | Inr base \<Rightarrow>
                       if u_Host base = [] then hub_answer h 500 (HubError ''invalid server url'')
                       else hub_answer h 302 (HubRedirect (u_Scheme base @ ''://'' @ u_Host base @ ''/ui'' @
                              (if se_APIKey entry \<noteq> [] then ''?key='' @ QueryEscape (se_APIKey entry) else [])))))"

section \<open>The proxy\<close>

definition header_del :: "string \<Rightarrow> (string \<times> string list) list \<Rightarrow> (string \<times> string list) list" where
  "header_del k hs = filter (\<lambda>(n, v). n \<noteq> k) hs"

definition header_set :: "string \<Rightarrow> string \<Rightarrow> (string \<times> string list) list \<Rightarrow> (string \<times> string list) list" where
  "header_set k v hs = header_del k hs @ [(k, [v])]"

definition passed_headers :: "(string \<times> string list) list \<Rightarrow> (string \<times> string list) list" where
  "passed_headers hs = filter (\<lambda>(n, v). \<not> isHopByHop n) hs"

text \<open>The server's name and the path on it.\<close>

definition proxy_target :: "string \<Rightarrow> string \<times> string" where
  "proxy_target path =
     (let trimmed = TrimPrefix path ''/proxy/''
      in case IndexByte trimmed CHR ''/'' of
           None \<Rightarrow> (trimmed, ''/'')
         | Some i \<Rightarrow> (take i trimmed, drop i trimmed))"

definition proxy_upstream :: "hub \<Rightarrow> hub_request \<Rightarrow> ServerEntry \<Rightarrow> string \<Rightarrow> upstream" where
  "proxy_upstream h r entry cleaned =
     (let hs = header_del ''Host'' (passed_headers (hr_Header r))
      in \<lparr>up_client = clientFor h entry, up_Method = rq_Method r,
          up_URL = se_URL entry @ cleaned @ (if hr_RawQuery r \<noteq> [] then CHR ''?'' # hr_RawQuery r else []),
          up_Header = (if se_APIKey entry \<noteq> [] then header_set ''Authorization'' (''Bearer '' @ se_APIKey entry) hs
                       else header_del ''Authorization'' hs),
          up_Body = rq_Body r\<rparr>)"

definition handleProxy :: "hub_env \<Rightarrow> hub_request \<Rightarrow> hub \<Rightarrow> hub_reply" where
  "handleProxy env r h =
     (let (name, upath) = proxy_target (rq_Path r)
      in if name = [] then hub_answer h 400 (HubError ''server name required'')
         else case server_named h name of
                None \<Rightarrow> hub_answer h 404 (HubError (''server not found: '' @ name))
              | Some entry \<Rightarrow>
                  let cleaned = Clean upath
                  in if Contains cleaned ''..'' then hub_answer h 400 (HubError ''invalid path'')
                     else let up = proxy_upstream h r entry cleaned
                     in (case he_parse env (up_URL up) of
                           Inl e \<Rightarrow> hub_answer h 500 (HubError e)
                         | Inr u \<Rightarrow>
                             (case he_do env up of
                                Inl e \<Rightarrow> (\<lparr>hs_Status = 502, hs_Body = HubError (''upstream: '' @ e)\<rparr>, h, [], [up])
                              | Inr resp \<Rightarrow>
                                  (\<lparr>hs_Status = ur_Status resp,
                                    hs_Body = HubUpstream (resp\<lparr>ur_Header := passed_headers (ur_Header resp)\<rparr>)\<rparr>,
                                   h, [], [up]))))"

section \<open>The key and the routes\<close>

definition hub_authorized :: "hub \<Rightarrow> hub_request \<Rightarrow> bool" where
  "hub_authorized h r =
     (if hb_hubKey h = [] then True
      else if TrimPrefix (rq_Authorization r) ''Bearer '' = hb_hubKey h then True
      else if query_get (request.truncate r) ''key'' = hb_hubKey h then True
      else False)"

definition hub_withAuth :: "(hub_request \<Rightarrow> hub \<Rightarrow> hub_reply) \<Rightarrow> hub_request \<Rightarrow> hub \<Rightarrow> hub_reply" where
  "hub_withAuth next r h = (if hub_authorized h r then next r h else hub_answer h 401 (HubError ''unauthorized''))"

definition hub_handleRoot :: "hub_request \<Rightarrow> hub \<Rightarrow> hub_reply" where
  "hub_handleRoot r h =
     (if rq_Path r = ''/'' then hub_answer h 302 (HubRedirect ''/hub'') else hub_answer h 404 HubNothing)"

definition hub_handleWebUI :: "hub_request \<Rightarrow> hub \<Rightarrow> hub_reply" where
  "hub_handleWebUI r h = hub_answer h 200 HubUI"

text \<open>The table of \<open>Start\<close>, longer patterns first.\<close>

definition hub_routes :: "hub_env \<Rightarrow> string list \<Rightarrow> (string \<times> (hub_request \<Rightarrow> hub \<Rightarrow> hub_reply)) list" where
  "hub_routes env order =
     [(''/api/hub/servers/probe'', hub_withAuth (handleProbe env)),
      (''/api/hub/servers/'', hub_withAuth (handleServerByName env)),
      (''/api/hub/overview'', hub_withAuth (handleOverview order)),
      (''/api/hub/servers'', hub_withAuth (handleServers env)),
      (''/hub/open/'', hub_withAuth (handleOpen env)),
      (''/proxy/'', hub_withAuth (handleProxy env)),
      (''/hub'', hub_withAuth hub_handleWebUI),
      (''/'', hub_withAuth hub_handleRoot)]"

definition hub_serve :: "hub_env \<Rightarrow> string list \<Rightarrow> hub_request \<Rightarrow> hub \<Rightarrow> hub_reply" where
  "hub_serve env order r h =
     (if rq_Method r \<noteq> ''CONNECT'' \<and> cleanPath (rq_EscapedPath r) \<noteq> rq_EscapedPath r
      then hub_answer h 301 (HubRedirect (cleanPath (rq_EscapedPath r)))
      else if rq_EscapedPath r \<in> {''/hub/open'', ''/proxy''}
      then hub_answer h 301 (HubRedirect (rq_EscapedPath r @ ''/''))
      else case find (\<lambda>(pat, f). pattern_matches pat (rq_EscapedPath r)) (hub_routes env order) of
             None \<Rightarrow> hub_answer h 404 HubNothing
           | Some (pat, f) \<Rightarrow> f r h)"

section \<open>Runs\<close>

text \<open>What happens to a hub: a request, an answer of a poll (whichever entry it was started for), the
  end.\<close>

datatype hub_event =
    HubRequest hub_env "string list" hub_request
  | PollAnswer instant ServerEntry "string + nat \<times> string"
  | HubStop

fun hub_step :: "hub_event \<Rightarrow> hub \<Rightarrow> hub" where
  "hub_step (HubRequest env order r) h = fst (snd (hub_serve env order r h))"
| "hub_step (PollAnswer now s resp) h = poll_done now s resp h"
| "hub_step HubStop h = Stop_hub h"

definition hub_run :: "hub_event list \<Rightarrow> hub \<Rightarrow> hub" where
  "hub_run es h = foldl (\<lambda>h e. hub_step e h) h es"

section \<open>Facts\<close>

lemmas hub_handlers = handleServers_def handleServerByName_def handleProbe_def handleOverview_def handleOpen_def
  handleProxy_def hub_handleRoot_def hub_handleWebUI_def

lemma hub_answer_parts [simp]:
  "fst (snd (hub_answer h c b)) = h" "snd (snd (hub_answer h c b)) = ([], [])" "fst (hub_answer h c b) = \<lparr>hs_Status = c, hs_Body = b\<rparr>"
  by (simp_all add: hub_answer_def)

text \<open>A request that is served reaches one of the handlers behind the key, or none.\<close>

lemma hub_serve_cases:
  obtains c b where "hub_serve env order r h = hub_answer h c b" and "c = 301 \<or> c = 404"
  | f where "f \<in> set (map snd (hub_routes env order))" and "hub_serve env order r h = f r h"
proof -
  consider (unclean) "rq_Method r \<noteq> ''CONNECT''" "cleanPath (rq_EscapedPath r) \<noteq> rq_EscapedPath r"
    | (subtree) "rq_Method r = ''CONNECT'' \<or> cleanPath (rq_EscapedPath r) = rq_EscapedPath r"
        "rq_EscapedPath r \<in> {''/hub/open'', ''/proxy''}"
    | (routed) "rq_Method r = ''CONNECT'' \<or> cleanPath (rq_EscapedPath r) = rq_EscapedPath r"
        "rq_EscapedPath r \<notin> {''/hub/open'', ''/proxy''}"
    by blast
  then show ?thesis
  proof cases
    case unclean
    with that(1) show ?thesis by (simp add: hub_serve_def)
  next
    case subtree
    then have "hub_serve env order r h = hub_answer h 301 (HubRedirect (rq_EscapedPath r @ ''/''))"
      unfolding hub_serve_def by auto
    with that(1) show ?thesis by blast
  next
    case routed
    then have serve: "hub_serve env order r h =
        (case find (\<lambda>(pat, f). pattern_matches pat (rq_EscapedPath r)) (hub_routes env order) of
           None \<Rightarrow> hub_answer h 404 HubNothing | Some (pat, f) \<Rightarrow> f r h)"
      unfolding hub_serve_def by auto
    show ?thesis
    proof (cases "find (\<lambda>(pat, f). pattern_matches pat (rq_EscapedPath r)) (hub_routes env order)")
      case None
      with serve that(1) show ?thesis by simp
    next
      case (Some pf)
      then have "pf \<in> set (hub_routes env order)" by (auto dest: find_SomeD)
      with serve Some that(2) [of "snd pf"] show ?thesis by (cases pf) force
    qed
  qed
qed

lemma hub_routes_guarded:
  "f \<in> set (map snd (hub_routes env order)) \<Longrightarrow> \<exists>g. f = hub_withAuth g \<and>
     g \<in> {handleProbe env, handleServerByName env, handleOverview order, handleServers env, handleOpen env,
          handleProxy env, hub_handleWebUI, hub_handleRoot}"
  by (auto simp: hub_routes_def)

text \<open>The state of a hub: names are unique, and a server's cached client is the one its entry asks
  for.\<close>

definition hub_wf :: "hub \<Rightarrow> bool" where
  "hub_wf h \<longleftrightarrow> distinct (map se_Name (hc_Servers (hb_cfg h))) \<and>
     (\<forall>s\<in>set (hc_Servers (hb_cfg h)). clientFor h s = buildHTTPClient s)"

lemma server_named_None: "server_named h name = None \<longleftrightarrow> name \<notin> se_Name ` set (hc_Servers (hb_cfg h))"
  by (auto simp: server_named_def find_None_iff2)

lemma server_named_Some: "server_named h name = Some s \<Longrightarrow> s \<in> set (hc_Servers (hb_cfg h)) \<and> se_Name s = name"
  by (auto simp: server_named_def dest: find_SomeD)

lemma save_hub_simps [simp]:
  "hb_cfg (save_hub env h) = hb_cfg h" "hb_hcache (save_hub env h) = hb_hcache h"
  "hb_statuses (save_hub env h) = hb_statuses h" "hb_hubKey (save_hub env h) = hb_hubKey h"
  by (simp_all add: save_hub_def)

lemma set_servers_simps [simp]:
  "hc_Servers (hb_cfg (set_servers es h)) = es" "hb_hcache (set_servers es h) = hb_hcache h"
  "hb_statuses (set_servers es h) = hb_statuses h" "hb_hubKey (set_servers es h) = hb_hubKey h"
  by (simp_all add: set_servers_def)

lemma hub_wf_add:
  assumes "hub_wf h" and "server_named h (se_Name e) = None"
  shows "hub_wf ((save_hub env (set_servers (hc_Servers (hb_cfg h) @ [e]) h))
    \<lparr>hb_hcache := (hb_hcache h)(se_Name e \<mapsto> buildHTTPClient e)\<rparr>)"
proof -
  have new: "se_Name e \<notin> se_Name ` set (hc_Servers (hb_cfg h))" using assms(2) by (simp add: server_named_None)
  then have "\<forall>s\<in>set (hc_Servers (hb_cfg h)). se_Name s \<noteq> se_Name e" by (metis image_eqI)
  with assms(1) new show ?thesis by (auto simp: hub_wf_def clientFor_def)
qed

lemma hub_wf_remove:
  assumes "hub_wf h"
  shows "hub_wf ((save_hub env (set_servers (filter (\<lambda>s. se_Name s \<noteq> name) (hc_Servers (hb_cfg h))) h))
    \<lparr>hb_statuses := st, hb_hcache := map_delete name (hb_hcache h)\<rparr>)"
  using assms by (auto simp: hub_wf_def clientFor_def distinct_map_filter)

lemma hub_wf_handler:
  assumes "hub_wf h" and "g \<in> {handleProbe env, handleServerByName env, handleOverview order, handleServers env,
      handleOpen env, handleProxy env, hub_handleWebUI, hub_handleRoot}"
  shows "hub_wf (fst (snd (g r h)))"
proof -
  have "hub_wf (fst (snd (handleServers env r h)))"
  proof -
    obtain b ok where "decode_first mem_serverBody (json_request_body (rq_Body r)) zero_entry = (b, ok)" by fastforce
    then show ?thesis
      using assms(1) hub_wf_add [OF assms(1), of "b\<lparr>se_URL := TrimRight (se_URL b) ''/''\<rparr>" env]
      by (simp add: handleServers_def Let_def)
  qed
  moreover have "hub_wf (fst (snd (handleServerByName env r h)))"
    using assms(1) hub_wf_remove [OF assms(1)] by (simp add: handleServerByName_def Let_def)
  moreover have "fst (snd (handleProbe env r h)) = h" "fst (snd (handleOpen env r h)) = h"
    "fst (snd (handleProxy env r h)) = h" "fst (snd (handleOverview order r h)) = h"
    "fst (snd (hub_handleWebUI r h)) = h" "fst (snd (hub_handleRoot r h)) = h"
    by (auto simp: hub_handlers Let_def split: prod.splits sum.splits option.splits if_splits)
  ultimately show ?thesis using assms by auto
qed

lemma hub_wf_serve: "hub_wf h \<Longrightarrow> hub_wf (fst (snd (hub_serve env order r h)))"
proof -
  assume wf: "hub_wf h"
  show ?thesis
  proof (cases rule: hub_serve_cases [of env order r h])
    case (1 c b)
    with wf show ?thesis by simp
  next
    case (2 f)
    from hub_routes_guarded [OF 2(1)] obtain g where "f = hub_withAuth g" and
      "g \<in> {handleProbe env, handleServerByName env, handleOverview order, handleServers env,
      handleOpen env, handleProxy env, hub_handleWebUI, hub_handleRoot}" by blast
    with hub_wf_handler [OF wf this(2), of r] wf 2(2) show ?thesis by (simp add: hub_withAuth_def)
  qed
qed

lemma hub_wf_poll: "hub_wf h \<Longrightarrow> hub_wf (poll_done now s resp h)"
  by (auto simp: hub_wf_def clientFor_def poll_done_def setStatus_def Let_def split: sum.splits prod.splits)

lemma hub_wf_step: "hub_wf h \<Longrightarrow> hub_wf (hub_step e h)"
proof -
  assume wf: "hub_wf h"
  then have "hub_wf (Stop_hub h)" by (simp add: Stop_hub_def hub_wf_def clientFor_def)
  with wf show ?thesis by (cases e) (simp_all add: hub_wf_serve hub_wf_poll)
qed

lemma rebuilt_cache:
  "distinct (map se_Name es) \<Longrightarrow> s \<in> set es \<Longrightarrow>
     foldl (\<lambda>m s. m(se_Name s \<mapsto> buildHTTPClient s)) m es (se_Name s) = Some (buildHTTPClient s)"
proof (induction es rule: rev_induct)
  case (snoc e es)
  then show ?case by (auto simp: image_iff)
qed simp

lemma hub_wf_New:
  assumes "distinct (map se_Name (hc_Servers cfg))"
  shows "hub_wf (New_hub cfg key home fs)"
  using assms rebuilt_cache [OF assms]
  by (auto simp: hub_wf_def clientFor_def New_hub_def rebuildClientCache_def)

lemma hub_wf_run: "hub_wf h \<Longrightarrow> hub_wf (hub_run es h)"
  unfolding hub_run_def by (induction es arbitrary: h) (simp_all add: hub_wf_step)

lemma passed_headers_iff: "(n, v) \<in> set (passed_headers hs) \<longleftrightarrow> (n, v) \<in> set hs \<and> \<not> isHopByHop n"
  by (auto simp: passed_headers_def)

lemma header_del_iff: "(n, v) \<in> set (header_del k hs) \<longleftrightarrow> (n, v) \<in> set hs \<and> n \<noteq> k"
  by (auto simp: header_del_def)

lemma proxied_upstream:
  assumes "handleProxy env r h = (resp, h', polls, ups)"
  shows "h' = h \<and> polls = [] \<and> (\<forall>up\<in>set ups. \<exists>name upath entry. proxy_target (rq_Path r) = (name, upath) \<and>
     server_named h name = Some entry \<and> up = proxy_upstream h r entry (Clean upath) \<and> \<not> Contains (Clean upath) ''..'')"
  using assms
  by (auto simp: handleProxy_def hub_answer_def Let_def split: prod.splits option.splits if_splits sum.splits)

section \<open>Properties\<close>

text \<open>C25: without the hub key a request changes nothing, starts no poll and reaches no server: it is answered
  with 401, or with the redirect or the 404 the router gives before any handler.\<close>

theorem hub_without_key:
  assumes "\<not> hub_authorized h r" and "hub_serve env order r h = (resp, h', polls, ups)"
  shows "h' = h \<and> polls = [] \<and> ups = [] \<and> hs_Status resp \<in> {301, 401, 404}"
proof (cases rule: hub_serve_cases [of env order r h])
  case (1 c b)
  with assms(2) show ?thesis by (auto simp: hub_answer_def)
next
  case (2 f)
  from hub_routes_guarded [OF 2(1)] obtain g where "f = hub_withAuth g" by blast
  with 2(2) assms show ?thesis by (auto simp: hub_withAuth_def hub_answer_def)
qed

definition lab_hub :: "ServerEntry list \<Rightarrow> string \<Rightarrow> hub" where
  "lab_hub es key = New_hub \<lparr>hc_HubKey = key, hc_Servers = es\<rparr> key (Some ''/h'') (healthy_fs Map.empty)"

definition lab_entry :: ServerEntry where
  "lab_entry = \<lparr>se_Name = ''prod'', se_URL = ''https://203.0.113.9:9100'', se_APIKey = ''k1'', se_TLSFingerprint = ''SHA256:x''\<rparr>"

definition lab_hub_env :: hub_env where
  "lab_hub_env = \<lparr>he_parse = (\<lambda>s. Inr \<lparr>u_Scheme = ''https'', u_Host = ''203.0.113.9:9100''\<rparr>), he_marshal = (\<lambda>c. Inr []),
     he_reach = (\<lambda>u k. None), he_tls = (\<lambda>a. Inl ''refused''),
     he_do = (\<lambda>up. Inr \<lparr>ur_Status = 200, ur_Header = [], ur_Body = []\<rparr>)\<rparr>"

definition lab_hub_request :: "string \<Rightarrow> (string \<times> string) list \<Rightarrow> string \<Rightarrow> hub_request" where
  "lab_hub_request path query raw =
     \<lparr>rq_Method = ''DELETE'', rq_EscapedPath = path, rq_Path = path, rq_Query = query, rq_Authorization = [],
      rq_Body = [], hr_RawQuery = raw, hr_Header = []\<rparr>"

lemma lab_hub_simps [simp]:
  "hb_hubKey (lab_hub es key) = key" "hc_Servers (hb_cfg (lab_hub es key)) = es" "hb_statuses (lab_hub es key) = Map.empty"
  by (simp_all add: lab_hub_def New_hub_def rebuildClientCache_def)

theorem hub_without_key_witness:
  "let r = lab_hub_request ''/api/hub/servers/prod'' [] []
   in \<exists>resp. hub_serve lab_hub_env [] r (lab_hub [lab_entry] ''secret'') = (resp, lab_hub [lab_entry] ''secret'', [], [])"
proof -
  let ?r = "lab_hub_request ''/api/hub/servers/prod'' [] []"
  obtain resp h' polls ups where s: "hub_serve lab_hub_env [] ?r (lab_hub [lab_entry] ''secret'') = (resp, h', polls, ups)"
    by (metis prod.collapse)
  have "\<not> hub_authorized (lab_hub [lab_entry] ''secret'') ?r"
    by (simp add: hub_authorized_def lab_hub_request_def query_get_def request.defs TrimPrefix_def HasPrefix_def)
  from hub_without_key [OF this s] s show ?thesis by (simp add: Let_def)
qed


lemma lab_hub_proxies:
  "handleProxy lab_hub_env (lab_hub_request ''/proxy/prod/ui'' q raw) (lab_hub [lab_entry] key) =
    (let up = proxy_upstream (lab_hub [lab_entry] key) (lab_hub_request ''/proxy/prod/ui'' q raw) lab_entry ''/ui''
     in (\<lparr>hs_Status = 200, hs_Body = HubUpstream \<lparr>ur_Status = 200, ur_Header = [], ur_Body = []\<rparr>\<rparr>,
         lab_hub [lab_entry] key, [], [up]))"
proof -
  have "proxy_target ''/proxy/prod/ui'' = (''prod'', ''/ui'')" "Clean ''/ui'' = ''/ui''" "\<not> Contains ''/ui'' ''..''"
    by code_simp+
  moreover have "server_named (lab_hub [lab_entry] key) ''prod'' = Some lab_entry"
    by (simp add: server_named_def lab_entry_def)
  ultimately show ?thesis
    by (simp add: handleProxy_def lab_hub_env_def lab_hub_request_def passed_headers_def Let_def)
qed


text \<open>A browser that authenticates with \<open>?key=\<close> hands the hub's key on: the query string is forwarded
  as it came, so every server reached through the hub receives the hub key in its URL.\<close>

theorem hub_key_reaches_servers:
  assumes "hr_RawQuery r = ''key='' @ hb_hubKey h"
    and "handleProxy env r h = (resp, h', polls, ups)" and "up \<in> set ups"
  shows "suffix (''?key='' @ hb_hubKey h) (up_URL up)"
proof -
  from proxied_upstream [OF assms(2)] assms(3) obtain entry p where up: "up = proxy_upstream h r entry p" by blast
  have "up_URL up = (se_URL entry @ p) @ ''?key='' @ hb_hubKey h"
    using assms(1) by (simp add: up proxy_upstream_def Let_def)
  then show ?thesis unfolding suffix_def by blast
qed

theorem hub_key_reaches_servers_witness:
  "let r = lab_hub_request ''/proxy/prod/ui'' [(''key'', ''secret'')] ''key=secret'';
       h = lab_hub [lab_entry] ''secret''
   in hub_authorized h r \<and>
      suffix ''?key=secret'' (up_URL (proxy_upstream h r lab_entry ''/ui''))"
proof -
  let ?r = "lab_hub_request ''/proxy/prod/ui'' [(''key'', ''secret'')] ''key=secret''"
  let ?h = "lab_hub [lab_entry] ''secret''"
  have "hub_authorized ?h ?r"
    by (simp add: hub_authorized_def lab_hub_request_def query_get_def request.defs)
  moreover have "hr_RawQuery ?r = ''key='' @ hb_hubKey ?h" by (simp add: lab_hub_request_def)
  ultimately show ?thesis
    using hub_key_reaches_servers [OF _ lab_hub_proxies [of "[(''key'', ''secret'')]" "''key=secret''" "''secret''", unfolded Let_def]]
    by (simp add: Let_def)
qed

text \<open>The answer of a poll that was started before its server was removed puts the server's status
  back, and nothing removes it again: the overview then counts more servers online than there are.\<close>

theorem removed_server_counts_as_online:
  assumes "server_named h (se_Name s) \<noteq> None" and "se_Name s \<noteq> []" and "se_Name s \<noteq> ''probe''"
    and "rq_Method r = ''DELETE''" and "rq_Path r = ''/api/hub/servers/'' @ se_Name s"
    and "handleServerByName env r h = (resp, h1, polls, ups)" and "hc_Servers (hb_cfg h) = [s]"
    and "h2 = poll_done now s (Inr (200, body)) h1"
  shows "hs_Status resp = 200 \<and> hc_Servers (hb_cfg h2) = [] \<and>
    (\<exists>n. hs_Body (fst (handleOverview [se_Name s] r' h2)) = HubOverview 0 1 n)"
proof -
  have "TrimPrefix (rq_Path r) ''/api/hub/servers/'' = se_Name s" unfolding assms(5) by (rule TrimPrefix_append)
  with assms(1-4,6,7) have "hs_Status resp = 200 \<and> hc_Servers (hb_cfg h1) = []"
    by (auto simp: handleServerByName_def hub_answer_def Let_def)
  with assms(8) show ?thesis
    by (auto simp: poll_done_def setStatus_def handleOverview_def getStatus_def Let_def)
qed

theorem removed_server_counts_as_online_witness:
  "let r = lab_hub_request ''/api/hub/servers/prod'' [] [];
       h1 = fst (snd (handleServerByName lab_hub_env r (lab_hub [lab_entry] [])));
       h2 = poll_done 0 lab_entry (Inr (200, [])) h1
   in \<exists>n. hs_Body (fst (handleOverview [''prod''] r h2)) = HubOverview 0 1 n"
proof -
  let ?r = "lab_hub_request ''/api/hub/servers/prod'' [] []"
  obtain resp h1 polls ups where d: "handleServerByName lab_hub_env ?r (lab_hub [lab_entry] []) = (resp, h1, polls, ups)"
    by (metis prod.collapse)
  from removed_server_counts_as_online [OF _ _ _ _ _ d, of lab_entry _ 0 "[]" ?r] d
  show ?thesis by (simp add: Let_def server_named_def lab_entry_def lab_hub_request_def)
qed

end
