(* ===== verification/ClientPush.thy ===== *)
theory ClientPush
  imports GoNet Protocol
begin

text \<open>
  \<open>internal/client/push.go\<close> and the part of \<open>Connect\<close> (\<open>internal/client/client.go\<close>) that decides which
  routes and DNS domains of the server a client takes over: the filters, the plan, and what is
  added to and taken from the operating system's routing table. The resolver is an argument.
\<close>

section \<open>Filters\<close>

text \<open>The loop body of \<open>safeRoutes\<close>: is the route kept?\<close>

definition safe_route :: "ip option \<Rightarrow> string \<Rightarrow> bool" where
  "safe_route srv r =
     (case ParseCIDR r of
        None \<Rightarrow> False
      | Some (a, n) \<Rightarrow>
          if To4 (net_IP n) = None then False
          else if fst (mask_Size (net_Mask n)) < 8 then False
          else if (case srv of None \<Rightarrow> False | Some s \<Rightarrow> net_Contains n s) then False
          else True)"

definition safeRoutes :: "string list \<Rightarrow> string \<Rightarrow> string list" where
  "safeRoutes routes serverIP = filter (safe_route (ParseIP serverIP)) routes"

definition label_chars :: string where
  "label_chars = ''abcdefghijklmnopqrstuvwxyz0123456789-''"

definition dns_label :: "string \<Rightarrow> bool" where
  "dns_label w \<longleftrightarrow> w \<noteq> [] \<and> list_all (\<lambda>c. c \<in> set label_chars) w"

text \<open>\<open>^[a-z0-9-]+(\.[a-z0-9-]+)+$\<close>: two labels or more.\<close>

definition validDNSDomain :: "string \<Rightarrow> bool" where
  "validDNSDomain d =
     (let parts = split_on CHR ''.'' d in 2 \<le> length parts \<and> list_all dns_label parts)"

text \<open>\<open>lookup\<close> is \<open>net.LookupIP\<close>, the empty list when it fails.\<close>

definition serverIP :: "(string \<Rightarrow> ip list) \<Rightarrow> string \<Rightarrow> string" where
  "serverIP lookup addr =
     (let host = (case SplitHostPort addr of None \<Rightarrow> addr | Some (h, p) \<Rightarrow> h)
      in case find (\<lambda>a. To4 a \<noteq> None) (lookup host) of
           Some a \<Rightarrow> ip_String a
         | None \<Rightarrow> host)"

section \<open>The plan\<close>

record options =
  opt_ServerAddr :: string
  opt_Token :: string
  opt_Background :: bool
  opt_Wait :: bool
  opt_Insecure :: bool
  opt_Reconnect :: bool
  opt_ExtraRoutes :: "string list"
  opt_NoPushRoutes :: bool
  opt_NoPushDNS :: bool
  opt_Profile :: string

text \<open>The pushed routes and the DNS domains \<open>Connect\<close> takes over.\<close>

definition pushed :: "options \<Rightarrow> string \<Rightarrow> AuthOKResponse \<Rightarrow> string list \<times> string list" where
  "pushed opts srvIP resp =
     (let pushedRoutes = (if opt_NoPushRoutes opts then [] else safeRoutes (ok_Routes resp) srvIP)
      in case ok_DNS resp of
           None \<Rightarrow> (pushedRoutes, [])
         | Some dns \<Rightarrow>
             if opt_NoPushDNS opts then (pushedRoutes, [])
             else let dnsDomains = filter validDNSDomain (slice_list (dns_Domains dns));
                      dnsRoute = safeRoutes [dns_Server dns @ ''/32''] srvIP
                  in if dnsDomains \<noteq> [] \<and> length dnsRoute = 1
                     then (pushedRoutes @ dnsRoute, dnsDomains)
                     else (pushedRoutes, []))"

text \<open>The routes added, in order, and those the deferred calls delete again, in the order they run:
  \<open>fails\<close> says which additions fail. The subnet's route is deleted in any case.\<close>

definition added_routes :: "(string \<Rightarrow> bool) \<Rightarrow> options \<Rightarrow> string \<Rightarrow> AuthOKResponse \<Rightarrow> string list" where
  "added_routes fails opts srvIP resp =
     filter (\<lambda>r. \<not> fails r) (ok_Subnet resp # opt_ExtraRoutes opts @ fst (pushed opts srvIP resp))"

definition deleted_routes :: "(string \<Rightarrow> bool) \<Rightarrow> options \<Rightarrow> string \<Rightarrow> AuthOKResponse \<Rightarrow> string list" where
  "deleted_routes fails opts srvIP resp =
     rev (filter (\<lambda>r. \<not> fails r) (opt_ExtraRoutes opts @ fst (pushed opts srvIP resp))) @ [ok_Subnet resp]"

section \<open>Facts\<close>

lemma safe_route_dotted:
  assumes b: "length b = 4" and n: "n \<le> 32" and s: "length s = 4"
  shows "safe_route (Some (v4_prefix @ s)) (dotted b @ ''/'' @ nat_string n) \<longleftrightarrow>
    8 \<le> n \<and> map2 (AND) s (CIDRMask n 32) \<noteq> map2 (AND) b (CIDRMask n 32)"
proof -
  let ?m = "CIDRMask n 32"
  have m: "length ?m = 4" by simp
  have nip: "length (map2 (AND) b ?m) = 4" using b m by simp
  have "net_Contains \<lparr>net_IP = map2 (AND) b ?m, net_Mask = ?m\<rparr> (v4_prefix @ s) \<longleftrightarrow>
      map2 (AND) s ?m = map2 (AND) b ?m"
    using net_Contains_To4 [OF To4_mapped [OF s] nip m] by (auto simp: mask_and_idem)
  moreover have "ip_Mask (v4_prefix @ b) ?m = map2 (AND) b ?m" using ip_Mask_mapped [OF b m] .
  moreover have "mask_Size ?m = (n, 32)" using n by (rule mask_Size_CIDRMask)
  moreover have "To4 (map2 (AND) b ?m) = Some (map2 (AND) b ?m)" using nip by simp
  ultimately show ?thesis
    using ParseCIDR_dotted [OF b n] unfolding safe_route_def by (auto simp: not_less)
qed

lemma validDNSDomain_iff:
  "validDNSDomain d \<longleftrightarrow> (\<exists>ws. d = join_with ''.'' ws \<and> 2 \<le> length ws \<and> (\<forall>w\<in>set ws. dns_label w))"
proof
  assume "validDNSDomain d"
  then show "\<exists>ws. d = join_with ''.'' ws \<and> 2 \<le> length ws \<and> (\<forall>w\<in>set ws. dns_label w)"
    by (intro exI [of _ "split_on CHR ''.'' d"]) (simp add: validDNSDomain_def Let_def list_all_iff)
next
  assume "\<exists>ws. d = join_with ''.'' ws \<and> 2 \<le> length ws \<and> (\<forall>w\<in>set ws. dns_label w)"
  then obtain ws where ws: "d = join_with ''.'' ws" "2 \<le> length ws" "\<forall>w\<in>set ws. dns_label w" by blast
  have "CHR ''.'' \<notin> set label_chars" by (simp add: label_chars_def)
  with ws(3) have "\<forall>w\<in>set ws. CHR ''.'' \<notin> set w" by (auto simp: dns_label_def list_all_iff)
  moreover have "ws \<noteq> []" using ws(2) by auto
  ultimately have "split_on CHR ''.'' d = ws" unfolding ws(1) by (intro split_join)
  with ws(2,3) show "validDNSDomain d" by (simp add: validDNSDomain_def list_all_iff)
qed

text \<open>A valid domain is a plain file name.\<close>

lemma validDNSDomain_no_slash: "validDNSDomain d \<Longrightarrow> CHR ''/'' \<notin> set d"
proof -
  assume v: "validDNSDomain d"
  have "CHR ''/'' \<notin> set label_chars" by (simp add: label_chars_def)
  with v have w: "\<forall>w\<in>set (split_on CHR ''.'' d). CHR ''/'' \<notin> set w"
    by (auto simp: validDNSDomain_def Let_def dns_label_def list_all_iff)
  have "set (join_with sep ws) \<subseteq> set sep \<union> (\<Union>w\<in>set ws. set w)" for sep ws
    by (induction sep ws rule: join_with.induct) auto
  from this [of "''.''" "split_on CHR ''.'' d"] w show "CHR ''/'' \<notin> set d" by auto
qed

lemma pushed_dns_routed:
  assumes "pushed opts srvIP resp = (rs, ds)" and "ds \<noteq> []"
  shows "\<exists>dns. ok_DNS resp = Some dns \<and> dns_Server dns @ ''/32'' \<in> set rs \<and>
    set ds \<subseteq> {d \<in> set (slice_list (dns_Domains dns)). validDNSDomain d}"
  using assms
  by (auto simp: pushed_def safeRoutes_def Let_def split: option.splits if_splits)

lemma pushed_routes_safe:
  "r \<in> set (fst (pushed opts srvIP resp)) \<Longrightarrow> safe_route (ParseIP srvIP) r"
  by (auto simp: pushed_def safeRoutes_def Let_def split: option.splits if_splits)

lemma added_routes_deleted:
  "set (added_routes fails opts srvIP resp) \<subseteq> set (deleted_routes fails opts srvIP resp)"
  by (auto simp: added_routes_def deleted_routes_def)

section \<open>Properties\<close>

text \<open>Of the IPv4 ranges a server pushes, the client takes exactly those with a prefix of eight
  bits or more that do not contain the server's own address.\<close>

theorem pushed_ranges_kept:
  assumes "length b = 4" and "n \<le> 32" and "length s = 4"
  shows "safeRoutes [dotted b @ ''/'' @ nat_string n] (dotted s) =
    (if 8 \<le> n \<and> map2 (AND) s (CIDRMask n 32) \<noteq> map2 (AND) b (CIDRMask n 32)
     then [dotted b @ ''/'' @ nat_string n] else [])"
  using safe_route_dotted [OF assms] ParseIP_dotted [OF assms(3)] by (simp add: safeRoutes_def)

theorem pushed_ranges_kept_witness:
  "safeRoutes [dotted [10, 96, 0, 0] @ ''/'' @ nat_string 12] (dotted [203, 0, 113, 9]) =
     [dotted [10, 96, 0, 0] @ ''/'' @ nat_string 12]"
  by (subst pushed_ranges_kept) (simp_all add: CIDRMask_def mask_byte_def upt_rec)

text \<open>DNS is redirected only for well-formed domains of two labels or more, none of which can be
  read as a path, and only together with a route that takes the DNS server through the tunnel;
  every route taken over passed the filter.\<close>

theorem pushed_dns_through_tunnel:
  assumes "pushed opts srvIP resp = (rs, ds)" and "d \<in> set ds"
  shows "(\<exists>dns. ok_DNS resp = Some dns \<and> dns_Server dns @ ''/32'' \<in> set rs) \<and>
    (\<exists>ws. d = join_with ''.'' ws \<and> 2 \<le> length ws \<and> (\<forall>w\<in>set ws. dns_label w)) \<and> CHR ''/'' \<notin> set d \<and>
    (\<forall>r\<in>set rs. safe_route (ParseIP srvIP) r)"
proof -
  have "ds \<noteq> []" using assms(2) by auto
  from pushed_dns_routed [OF assms(1) this] assms(2) have v: "validDNSDomain d" by auto
  from pushed_dns_routed [OF assms(1) \<open>ds \<noteq> []\<close>] validDNSDomain_iff [of d] v validDNSDomain_no_slash [OF v]
    pushed_routes_safe [of _ opts srvIP resp] assms(1)
  show ?thesis by auto
qed

definition push_options :: options where
  "push_options = \<lparr>opt_ServerAddr = [], opt_Token = [], opt_Background = False, opt_Wait = False,
     opt_Insecure = False, opt_Reconnect = False, opt_ExtraRoutes = [], opt_NoPushRoutes = False,
     opt_NoPushDNS = False, opt_Profile = []\<rparr>"

theorem pushed_dns_through_tunnel_witness:
  "\<exists>rs ds. pushed push_options (dotted [203, 0, 113, 9])
      \<lparr>ok_ClientIP = [], ok_ServerIP = [], ok_Subnet = [], ok_Routes = [],
       ok_DNS = Some \<lparr>dns_Server = dotted [10, 96, 0, 10], dns_Domains = Some [''cluster.local'', ''local'']\<rparr>\<rparr> = (rs, ds) \<and>
     ''cluster.local'' \<in> set ds \<and> dotted [10, 96, 0, 10] @ ''/32'' \<in> set rs \<and>
     (\<forall>r\<in>set rs. safe_route (ParseIP (dotted [203, 0, 113, 9])) r)"
proof -
  let ?dns = "\<lparr>dns_Server = dotted [10, 96, 0, 10], dns_Domains = Some [''cluster.local'', ''local'']\<rparr>"
  let ?resp = "\<lparr>ok_ClientIP = [], ok_ServerIP = [], ok_Subnet = [], ok_Routes = [], ok_DNS = Some ?dns\<rparr>"
  have n32: "nat_string 32 = ''32''" by (simp add: decimals)
  have "safe_route (Some (v4_prefix @ [203, 0, 113, 9])) (dotted [10, 96, 0, 10] @ ''/'' @ nat_string 32)"
    by (subst safe_route_dotted) (simp_all add: CIDRMask_def mask_byte_def upt_rec)
  then have "safeRoutes [dotted [10, 96, 0, 10] @ ''/32''] (dotted [203, 0, 113, 9]) = [dotted [10, 96, 0, 10] @ ''/32'']"
    by (simp add: safeRoutes_def n32)
  moreover have "validDNSDomain ''cluster.local'' \<and> \<not> validDNSDomain ''local''" by code_simp
  ultimately have p: "pushed push_options (dotted [203, 0, 113, 9]) ?resp = ([dotted [10, 96, 0, 10] @ ''/32''], [''cluster.local''])"
    by (simp add: pushed_def push_options_def slice_list_def) (simp add: safeRoutes_def)
  from pushed_dns_through_tunnel [OF p, of "''cluster.local''"] p show ?thesis by auto
qed

end
