(* ===== verification/TunnelState.thy ===== *)
theory TunnelState
  imports ClientState Protocol
begin

text \<open>
  The rest of \<open>internal/client/state.go\<close>: \<open>tunnel.json\<close>, the record of the running tunnel, who may
  remove it, how \<open>CurrentTunnel\<close> finds the running tunnel (the record, or else the output of
  \<open>ps\<close>), and how \<open>StopRunningTunnel\<close> ends it. The record's JSON codec is defined; \<open>self\<close> is
  \<open>os.Getpid\<close>, and what \<open>Signal\<close> and \<open>ps\<close> report is an argument.
\<close>

section \<open>The record\<close>

record TunnelMeta =
  mt_PID :: int
  mt_Profile :: string
  mt_Proxy :: bool
  mt_ServerAddr :: string
  mt_AssignedIP :: string
  mt_ServerIP :: string
  mt_Subnet :: string
  mt_ConnectedAt :: instant

definition zero_meta :: TunnelMeta where
  "zero_meta = \<lparr>mt_PID = 0, mt_Profile = [], mt_Proxy = False, mt_ServerAddr = [], mt_AssignedIP = [],
     mt_ServerIP = [], mt_Subnet = [], mt_ConnectedAt = zero_time\<rparr>"

text \<open>\<open>omitempty\<close> leaves out an empty profile and a false proxy flag.\<close>

definition json_TunnelMeta :: "TunnelMeta \<Rightarrow> json option" where
  "json_TunnelMeta m =
     map_option (\<lambda>t. JObj
       ([(''pid'', JNum (Itoa (mt_PID m)))] @
        (if mt_Profile m = [] then [] else [(''profile'', JStr (mt_Profile m))]) @
        (if mt_Proxy m then [(''proxy'', JBool True)] else []) @
        [(''server_addr'', JStr (mt_ServerAddr m)), (''assigned_ip'', JStr (mt_AssignedIP m)),
         (''server_ip'', JStr (mt_ServerIP m)), (''subnet'', JStr (mt_Subnet m)), (''connected_at'', t)]))
       (json_time (mt_ConnectedAt m))"

definition mem_TunnelMeta :: "string \<Rightarrow> json \<Rightarrow> TunnelMeta \<Rightarrow> TunnelMeta \<times> bool" where
  "mem_TunnelMeta k v m =
     (if key_is k ''pid'' then (let (x, ok) = dec_int v (mt_PID m) in (m\<lparr>mt_PID := x\<rparr>, ok))
      else if key_is k ''profile'' then (let (x, ok) = dec_string v (mt_Profile m) in (m\<lparr>mt_Profile := x\<rparr>, ok))
      else if key_is k ''proxy'' then (let (x, ok) = dec_bool v (mt_Proxy m) in (m\<lparr>mt_Proxy := x\<rparr>, ok))
      else if key_is k ''server_addr'' then
        (let (x, ok) = dec_string v (mt_ServerAddr m) in (m\<lparr>mt_ServerAddr := x\<rparr>, ok))
      else if key_is k ''assigned_ip'' then
        (let (x, ok) = dec_string v (mt_AssignedIP m) in (m\<lparr>mt_AssignedIP := x\<rparr>, ok))
      else if key_is k ''server_ip'' then
        (let (x, ok) = dec_string v (mt_ServerIP m) in (m\<lparr>mt_ServerIP := x\<rparr>, ok))
      else if key_is k ''subnet'' then (let (x, ok) = dec_string v (mt_Subnet m) in (m\<lparr>mt_Subnet := x\<rparr>, ok))
      else if key_is k ''connected_at'' then
        (let (x, ok) = dec_time v (mt_ConnectedAt m) in (m\<lparr>mt_ConnectedAt := x\<rparr>, ok))
      else (m, True))"

datatype meta_error = MetaFile os_error | MetaSyntax | MetaMarshal

definition metaFile :: "string \<Rightarrow> string" where
  "metaFile dir = path_Join [dir, ''tunnel.json'']"

definition WriteMeta ::
    "private_env \<Rightarrow> filesys \<Rightarrow> string \<Rightarrow> int \<Rightarrow> TunnelMeta \<Rightarrow> filesys \<times> meta_error option" where
  "WriteMeta env fs dir self m =
     (case json_TunnelMeta (m\<lparr>mt_PID := self\<rparr>) of
        None \<Rightarrow> (fs, Some MetaMarshal)
      | Some v \<Rightarrow> (let (fs', e) = writePrivate env fs (metaFile dir) (render v) in (fs', map_option MetaFile e)))"

definition ReadMeta :: "filesys \<Rightarrow> string \<Rightarrow> meta_error + TunnelMeta" where
  "ReadMeta fs dir =
     (case ReadFile fs (metaFile dir) of
        Inl e \<Rightarrow> Inl (MetaFile e)
      | Inr d \<Rightarrow> (let (m, ok) = Unmarshal mem_TunnelMeta d zero_meta in if ok then Inr m else Inl MetaSyntax))"

text \<open>\<open>os.Remove\<close>, a missing file being no error.\<close>

definition ForceClearMeta :: "os_error option \<Rightarrow> filesys \<Rightarrow> string \<Rightarrow> filesys \<times> os_error option" where
  "ForceClearMeta rm fs dir =
     (let (fs', e) = Remove_file rm fs (metaFile dir)
      in (fs', case e of None \<Rightarrow> None | Some x \<Rightarrow> if IsNotExist x then None else Some x))"

definition ClearMeta :: "os_error option \<Rightarrow> filesys \<Rightarrow> string \<Rightarrow> int \<Rightarrow> filesys \<times> os_error option" where
  "ClearMeta rm fs dir self =
     (let foreign = (case ReadMeta fs dir of Inl e \<Rightarrow> False | Inr m \<Rightarrow> mt_PID m \<noteq> 0 \<and> mt_PID m \<noteq> self)
      in if foreign then (fs, None)
         else let (fs', e) = Remove_file rm fs (metaFile dir)
              in (fs', case e of None \<Rightarrow> None | Some x \<Rightarrow> if IsNotExist x then None else Some x))"

section \<open>Processes\<close>

text \<open>What sending a signal reports.\<close>

datatype signal_result = Delivered | NotPermitted | SignalError string

definition IsProcessAlive :: "(int \<Rightarrow> signal_result) \<Rightarrow> int \<Rightarrow> bool" where
  "IsProcessAlive probe pid = (case probe pid of Delivered \<Rightarrow> True | NotPermitted \<Rightarrow> True | SignalError e \<Rightarrow> False)"

definition connect_process :: "int \<Rightarrow> string \<Rightarrow> TunnelMeta option" where
  "connect_process self line =
     (let f = Fields line
      in if length f < 3 \<or> path_Base (f ! 1) \<noteq> ''auth-vpn'' \<or> f ! 2 \<noteq> ''connect'' then None
         else case Atoi (f ! 0) of
                None \<Rightarrow> None
              | Some pid \<Rightarrow>
                  if pid = self then None
                  else Some (zero_meta\<lparr>mt_PID := pid,
                         mt_Proxy := list_ex (\<lambda>a. HasPrefix a ''--forward'') (drop 3 f),
                         mt_ServerAddr := (if 3 < length f \<and> \<not> HasPrefix (f ! 3) ''-'' then f ! 3 else [])\<rparr>))"

fun first_process :: "int \<Rightarrow> string list \<Rightarrow> TunnelMeta option" where
  "first_process self [] = None"
| "first_process self (l # ls) =
     (case connect_process self l of Some m \<Rightarrow> Some m | None \<Rightarrow> first_process self ls)"

definition findConnectProcess :: "string \<Rightarrow> int \<Rightarrow> TunnelMeta option" where
  "findConnectProcess ps self = first_process self (split_on (CHR 0x0A) ps)"

definition CurrentTunnel ::
    "(int \<Rightarrow> signal_result) \<Rightarrow> (unit + string) \<Rightarrow> filesys \<Rightarrow> string \<Rightarrow> int \<Rightarrow> TunnelMeta option" where
  "CurrentTunnel probe ps fs dir self =
     (case (case ReadMeta fs dir of
              Inl e \<Rightarrow> None
            | Inr m \<Rightarrow> if mt_PID m \<noteq> self \<and> IsProcessAlive probe (mt_PID m) then Some m else None) of
        Some m \<Rightarrow> Some m
      | None \<Rightarrow> (case ps of Inl u \<Rightarrow> None | Inr out \<Rightarrow> findConnectProcess out self))"

datatype stop_error = StopSignal int string | StillRunning int

text \<open>\<open>for i := 0; i < 100 && IsProcessAlive(pid); i++\<close>: \<open>alive k\<close> is the outcome of the \<open>k\<close>-th probe;
  the result is the number of probes made.\<close>

fun wait_exit :: "nat \<Rightarrow> (nat \<Rightarrow> bool) \<Rightarrow> nat \<Rightarrow> nat" where
  "wait_exit 0 alive k = k"
| "wait_exit (Suc n) alive k = (if alive k then wait_exit n alive (Suc k) else Suc k)"

text \<open>\<open>term\<close> is the outcome of the \<open>SIGTERM\<close>; the signals sent are part of the result.\<close>

definition StopRunningTunnel ::
    "TunnelMeta option \<Rightarrow> (int \<Rightarrow> signal_result) \<Rightarrow> (nat \<Rightarrow> bool) \<Rightarrow>
     int list \<times> (stop_error + TunnelMeta option)" where
  "StopRunningTunnel current sigterm alive =
     (case current of
        None \<Rightarrow> ([], Inr None)
      | Some m \<Rightarrow>
          if mt_Proxy m then ([], Inr None)
          else (case sigterm (mt_PID m) of
                  SignalError e \<Rightarrow> ([mt_PID m], Inl (StopSignal (mt_PID m) e))
                | NotPermitted \<Rightarrow> ([mt_PID m], Inl (StopSignal (mt_PID m) ''operation not permitted''))
                | Delivered \<Rightarrow>
                    if alive (wait_exit 100 alive 0) then ([mt_PID m], Inl (StillRunning (mt_PID m)))
                    else ([mt_PID m], Inr (Some m))))"

definition tunnelLabel :: "TunnelMeta \<Rightarrow> string" where
  "tunnelLabel m =
     (if mt_Profile m \<noteq> [] then mt_Profile m
      else if mt_ServerAddr m \<noteq> [] then mt_ServerAddr m
      else ''tunnel pid '' @ Itoa (mt_PID m))"

section \<open>Facts\<close>

definition meta_storable :: "TunnelMeta \<Rightarrow> bool" where
  "meta_storable m \<longleftrightarrow>
     list_all utf8_valid [mt_Profile m, mt_ServerAddr m, mt_AssignedIP m, mt_ServerIP m, mt_Subnet m] \<and>
     time_reads (mt_ConnectedAt m)"

lemma Unmarshal_render:
  "wf_json v \<Longrightarrow> json_depth v \<le> max_nesting \<Longrightarrow> Unmarshal upd (render v) r = dec_struct upd v r"
  by (simp add: Unmarshal_def parse_render)

lemma int_literal_Itoa [simp]: "int_literal (Itoa i)"
proof (cases "i < 0")
  case True
  then have "\<not> HasPrefix (nat_string (nat (- i))) ''-''" by simp
  with True show ?thesis using nat_string_digits nat_string_hd_0 [of "nat (- i)"]
    by (auto simp: int_literal_def Itoa_def list_all_iff)
next
  case False
  then show ?thesis using nat_string_digits nat_string_hd_0 [of "nat i"]
    by (auto simp: int_literal_def Itoa_def list_all_iff)
qed

lemma dec_int_Itoa: "- (2 ^ 63) \<le> i \<Longrightarrow> i < 2 ^ 63 \<Longrightarrow> dec_int (JNum (Itoa i)) old = (i, True)"
  by (simp add: dec_int_def Atoi_Itoa)

lemma read_written_meta:
  assumes "json_TunnelMeta m = Some v" and "meta_storable m"
    and "- (2 ^ 63) \<le> mt_PID m" and "mt_PID m < 2 ^ 63"
  shows "Unmarshal mem_TunnelMeta (render v) zero_meta = (m, True)"
proof -
  from assms(2) obtain s where s: "time_text (mt_ConnectedAt m) = Some s" "utf8_valid s"
    "parse_time s = Some (mt_ConnectedAt m)"
    by (auto simp: meta_storable_def time_reads_def split: option.splits)
  have v: "v = JObj
       ([(''pid'', JNum (Itoa (mt_PID m)))] @
        (if mt_Profile m = [] then [] else [(''profile'', JStr (mt_Profile m))]) @
        (if mt_Proxy m then [(''proxy'', JBool True)] else []) @
        [(''server_addr'', JStr (mt_ServerAddr m)), (''assigned_ip'', JStr (mt_AssignedIP m)),
         (''server_ip'', JStr (mt_ServerIP m)), (''subnet'', JStr (mt_Subnet m)), (''connected_at'', JStr s)])"
    using assms(1) s(1) by (simp add: json_TunnelMeta_def json_time_def)
  have "wf_json v"
    using assms(2) s(2) by (simp add: v meta_storable_def utf8_valid_ascii)
  moreover have "json_depth v \<le> max_nesting"
    by (simp add: v max_nesting_def)
  moreover have "dec_struct mem_TunnelMeta v zero_meta = (m, True)"
    using s(3) assms(3,4)
    by (simp add: v dec_struct_def mem_TunnelMeta_def field_keys dec_int_Itoa dec_time_def dec_bool_def zero_meta_def)
  ultimately show ?thesis by (simp add: Unmarshal_render)
qed

lemma first_process_None_iff: "first_process self ls = None \<longleftrightarrow> (\<forall>l\<in>set ls. connect_process self l = None)"
  by (induction ls) (auto split: option.splits)

lemma first_process_SomeD:
  "first_process self ls = Some m \<Longrightarrow>
     \<exists>us l vs. ls = us @ l # vs \<and> connect_process self l = Some m \<and> (\<forall>u\<in>set us. connect_process self u = None)"
proof (induction ls)
  case (Cons a ls)
  show ?case
  proof (cases "connect_process self a")
    case None
    with Cons.prems Cons.IH obtain us l vs where "ls = us @ l # vs" "connect_process self l = Some m"
      "\<forall>u\<in>set us. connect_process self u = None" by auto
    with None have "a # ls = (a # us) @ l # vs \<and> connect_process self l = Some m \<and>
        (\<forall>u\<in>set (a # us). connect_process self u = None)" by simp
    then show ?thesis by blast
  next
    case (Some x)
    with Cons.prems have "a # ls = [] @ a # ls \<and> connect_process self a = Some m \<and>
        (\<forall>u\<in>set []. connect_process self u = None)" by simp
    then show ?thesis by blast
  qed
qed simp

lemma connect_process_SomeD:
  "connect_process self l = Some m \<Longrightarrow>
     mt_PID m \<noteq> self \<and> 3 \<le> length (Fields l) \<and> path_Base (Fields l ! 1) = ''auth-vpn'' \<and> Fields l ! 2 = ''connect'' \<and>
     Atoi (Fields l ! 0) = Some (mt_PID m) \<and> mt_Proxy m = list_ex (\<lambda>a. HasPrefix a ''--forward'') (drop 3 (Fields l))"
  by (auto simp: connect_process_def Let_def split: if_splits option.splits)

lemma CurrentTunnel_other: "CurrentTunnel probe ps fs dir self = Some m \<Longrightarrow> mt_PID m \<noteq> self"
  by (auto simp: CurrentTunnel_def findConnectProcess_def split: option.splits sum.splits if_splits
      dest!: first_process_SomeD connect_process_SomeD)

text \<open>The wait ends at the first probe that finds no process, after 100 probes at the latest.\<close>

lemma wait_exit_bound: "k \<le> wait_exit n alive k \<and> wait_exit n alive k \<le> k + n"
  by (induction n arbitrary: k) (auto intro: order_trans le_SucI simp: Suc_le_eq, (metis Suc_leD Suc_leI add_Suc_right add_Suc_shift less_imp_le_nat)+)

lemma WriteMeta_reads:
  assumes "WriteMeta env fs dir self m = (fs', None)" and "temp_apart env (metaFile dir)"
    and "read_fails fs (metaFile dir) = None" and "meta_storable m"
    and "- (2 ^ 63) \<le> self" and "self < 2 ^ 63"
  shows "ReadMeta fs' dir = Inr (m\<lparr>mt_PID := self\<rparr>) \<and> files fs' (metaFile dir) \<noteq> None"
proof -
  let ?m = "m\<lparr>mt_PID := self\<rparr>"
  from assms(1) obtain v where v: "json_TunnelMeta ?m = Some v"
    and w: "writePrivate env fs (metaFile dir) (render v) = (fs', None)"
    by (auto simp: WriteMeta_def split: option.splits prod.splits)
  have "meta_storable ?m" using assms(4) by (simp add: meta_storable_def)
  from read_written_meta [OF v this] assms(5,6)
  have "Unmarshal mem_TunnelMeta (render v) zero_meta = (?m, True)" by simp
  with ReadFile_writePrivate [OF w assms(2,3)] writePrivate_atomic [OF w assms(2)]
  show ?thesis by (simp add: ReadMeta_def)
qed

section \<open>Properties\<close>

text \<open>\<open>tunnel.json\<close> belongs to the process that wrote it last. What it wrote reads back with its
  own process id; any other process that shuts down leaves the file alone, and the writer's own
  shutdown removes it.\<close>

theorem tunnel_record_has_one_owner:
  assumes "WriteMeta env fs dir q m = (fs', None)" and "temp_apart env (metaFile dir)"
    and "read_fails fs (metaFile dir) = None" and "meta_storable m" and "q \<noteq> 0"
    and "- (2 ^ 63) \<le> q" and "q < 2 ^ 63"
  shows "ReadMeta fs' dir = Inr (m\<lparr>mt_PID := q\<rparr>) \<and>
    ClearMeta rm fs' dir p = (if p \<noteq> q then (fs', None)
      else case rm of Some e \<Rightarrow> (fs', if IsNotExist e then None else Some e)
                    | None \<Rightarrow> (set_file (metaFile dir) None fs', None))"
  using WriteMeta_reads [OF assms(1-4,6,7)] assms(5)
  by (auto simp: ClearMeta_def Remove_file_def split: option.splits)

definition lab_meta :: TunnelMeta where
  "lab_meta = zero_meta\<lparr>mt_Profile := ''stage'', mt_ServerAddr := ''203.0.113.9:7777''\<rparr>"

lemma lab_meta_storable: "meta_storable lab_meta"
  by code_simp

lemma lab_metaFile: "metaFile ''/h'' = ''/h/tunnel.json''" "path_Dir ''/h/tunnel.json'' = ''/h''"
  by code_simp+

theorem tunnel_record_has_one_owner_witness:
  "\<exists>fs'. WriteMeta quiet_env (healthy_fs Map.empty) ''/h'' 4242 lab_meta = (fs', None) \<and>
     ReadMeta fs' ''/h'' = Inr (lab_meta\<lparr>mt_PID := 4242\<rparr>) \<and> ClearMeta None fs' ''/h'' 17 = (fs', None)"
proof -
  have "json_TunnelMeta (lab_meta\<lparr>mt_PID := 4242\<rparr>) \<noteq> None"
    using zero_time_json by (auto simp: json_TunnelMeta_def lab_meta_def zero_meta_def)
  then obtain fs' where w: "WriteMeta quiet_env (healthy_fs Map.empty) ''/h'' 4242 lab_meta = (fs', None)"
    by (auto simp: WriteMeta_def writePrivate_quiet)
  have "temp_apart quiet_env (metaFile ''/h'')" by (simp add: temp_apart_def quiet_env_def temp_name_def lab_metaFile)
  from tunnel_record_has_one_owner [OF w this _ lab_meta_storable, of None 17] w show ?thesis
    by (simp add: healthy_fs_def)
qed

text \<open>C30: connecting to another server stops at most the tunnel that is current, and only a TUN tunnel:
  a proxy tunnel is left alone. It is reported as stopped only when \<open>SIGTERM\<close> was delivered and a
  later probe, at most the 101st, found the process gone.\<close>

theorem switching_stops_the_current_tunnel:
  "StopRunningTunnel (CurrentTunnel probe ps fs dir self) sigterm alive = (sent, res) \<Longrightarrow>
     (sent = [] \<and> res = Inr None \<and>
        (\<forall>m. CurrentTunnel probe ps fs dir self = Some m \<longrightarrow> mt_Proxy m)) \<or>
     (\<exists>m. CurrentTunnel probe ps fs dir self = Some m \<and> \<not> mt_Proxy m \<and> sent = [mt_PID m] \<and> mt_PID m \<noteq> self \<and>
        (\<forall>x. res = Inr x \<longrightarrow> x = Some m \<and> sigterm (mt_PID m) = Delivered \<and> (\<exists>k\<le>100. \<not> alive k)))"
  using wait_exit_bound [of 0 100 alive] CurrentTunnel_other [of probe ps fs dir self]
  by (auto simp: StopRunningTunnel_def split: option.splits if_splits signal_result.splits)

theorem switching_stops_the_current_tunnel_witness:
  "let ps = ''  812 /usr/bin/auth-vpn connect stage --reconnect'';
       t = CurrentTunnel (\<lambda>pid. SignalError ''no such process'') (Inr ps) (healthy_fs Map.empty) ''/h'' 900
   in map_option mt_PID t = Some 812 \<and>
      (\<exists>m. StopRunningTunnel t (\<lambda>pid. Delivered) (\<lambda>k. k < 3) = ([812], Inr (Some m)) \<and> mt_PID m = 812)"
proof -
  let ?ps = "''  812 /usr/bin/auth-vpn connect stage --reconnect''"
  let ?t = "CurrentTunnel (\<lambda>pid. SignalError ''no such process'') (Inr ?ps) (healthy_fs Map.empty) ''/h'' 900"
  have f: "Fields ?ps = [''812'', ''/usr/bin/auth-vpn'', ''connect'', ''stage'', ''--reconnect'']"
    "path_Base ''/usr/bin/auth-vpn'' = ''auth-vpn''" "split_on (CHR 0x0A) ?ps = [?ps]" by code_simp+
  have a: "Atoi ''812'' = Some 812" by (simp add: Atoi_def digit_val_def)
  have c: "connect_process 900 ?ps = Some (zero_meta\<lparr>mt_PID := 812, mt_Proxy := False, mt_ServerAddr := ''stage''\<rparr>)"
    unfolding connect_process_def f(1) Let_def by (simp add: a f(2))
  have t: "?t = Some (zero_meta\<lparr>mt_PID := 812, mt_Proxy := False, mt_ServerAddr := ''stage''\<rparr>)"
    unfolding CurrentTunnel_def findConnectProcess_def
    by (simp add: ReadMeta_def ReadFile_def healthy_fs_def f(3) c)
  obtain sent res where s: "StopRunningTunnel ?t (\<lambda>pid. Delivered) (\<lambda>k. k < 3) = (sent, res)" by fastforce
  have "\<not> wait_exit 100 (\<lambda>k. k < 3) 0 < 3" by (simp add: eval_nat_numeral)
  then have "res = Inr ?t" using s t by (simp add: StopRunningTunnel_def)
  with switching_stops_the_current_tunnel [OF s] s t show ?thesis by (auto simp: Let_def)
qed

text \<open>Only the process id of the record is looked at. After a tunnel died without removing its record
  and the id went to another program, that program counts as the running tunnel and the next
  connection sends it \<open>SIGTERM\<close>; the search through \<open>ps\<close>, which looks at the command, is not reached.\<close>

theorem stale_record_stops_a_stranger:
  assumes "ReadMeta fs dir = Inr m" and "mt_PID m \<noteq> self" and "\<not> mt_Proxy m"
    and "probe (mt_PID m) = Delivered" and "sigterm (mt_PID m) = Delivered"
  shows "CurrentTunnel probe ps fs dir self = Some m \<and>
    fst (StopRunningTunnel (CurrentTunnel probe ps fs dir self) sigterm alive) = [mt_PID m]"
  using assms by (simp add: CurrentTunnel_def IsProcessAlive_def StopRunningTunnel_def)

theorem stale_record_stops_a_stranger_witness:
  "\<exists>fs. ReadMeta fs ''/h'' = Inr (lab_meta\<lparr>mt_PID := 4242\<rparr>) \<and>
     fst (StopRunningTunnel (CurrentTunnel (\<lambda>pid. Delivered) (Inl ()) fs ''/h'' 900) (\<lambda>pid. Delivered) (\<lambda>k. False)) = [4242]"
proof -
  have "json_TunnelMeta (lab_meta\<lparr>mt_PID := 4242\<rparr>) \<noteq> None"
    using zero_time_json by (auto simp: json_TunnelMeta_def lab_meta_def zero_meta_def)
  then obtain fs where w: "WriteMeta quiet_env (healthy_fs Map.empty) ''/h'' 4242 lab_meta = (fs, None)"
    by (auto simp: WriteMeta_def writePrivate_quiet)
  have "temp_apart quiet_env (metaFile ''/h'')" by (simp add: temp_apart_def quiet_env_def temp_name_def lab_metaFile)
  then have r: "ReadMeta fs ''/h'' = Inr (lab_meta\<lparr>mt_PID := 4242\<rparr>)"
    using WriteMeta_reads [OF w _ _ lab_meta_storable] by (simp add: healthy_fs_def)
  from stale_record_stops_a_stranger [OF r, of 900 "\<lambda>pid. Delivered" "\<lambda>pid. Delivered" "Inl ()" "\<lambda>k. False"] r
  show ?thesis by (auto simp: lab_meta_def zero_meta_def)
qed

end
