(* ===== verification/ClientConn.thy ===== *)
theory ClientConn
  imports ClientPush TunnelState Tofu Server
begin

text \<open>
  \<open>Connect\<close> of \<open>internal/client/client.go\<close>, the reconnect loops and \<open>WaitForPing\<close>; the routing
  table and the split DNS a connection sets up and takes down (\<open>AddRoute\<close> and \<open>DelRoute\<close> of
  \<open>internal/tunnel\<close>, \<open>applyDNS\<close> on Linux and macOS). A connection is a reader and a writer; the
  goroutines of a running tunnel are steps, and an event says which of them moves next. Which
  system calls fail is an argument.
\<close>

section \<open>The handshake\<close>

record link =
  lk_rd :: reader
  lk_wr :: writer
  lk_closed :: bool

definition close_link :: "link \<Rightarrow> link" where
  "close_link l = l\<lparr>lk_closed := True\<rparr>"

definition link_send :: "byte \<Rightarrow> bytes \<Rightarrow> link \<Rightarrow> link \<times> frame_error option" where
  "link_send t p l =
     (if lk_closed l then (l, Some closed_error)
      else let (w, e) = WriteFrame (lk_wr l) t p in (l\<lparr>lk_wr := w\<rparr>, e))"

definition link_recv :: "link \<Rightarrow> (frame_error + byte \<times> bytes) \<times> link" where
  "link_recv l =
     (if lk_closed l then (Inl closed_error, l)
      else let (r, rd) = ReadFrame (lk_rd l) in (r, l\<lparr>lk_rd := rd\<rparr>))"

datatype connect_error =
    DialFailed dial_error
  | SendAuth frame_error
  | ReadAuth frame_error
  | AuthFailed string
  | UnexpectedResponse byte
  | DecodeAuth
  | CreateTUN string
  | ConfigureTUN string
  | ListenLocal int string

text \<open>\<open>AUTH\<close> and the answer to it, as \<open>Connect\<close> and \<open>ConnectProxy\<close> both do it: the payload of the
  \<open>AUTH_OK\<close>, or the connection closed and the reason.\<close>

definition client_auth :: "string \<Rightarrow> string \<Rightarrow> link \<Rightarrow> (connect_error + bytes) \<times> link" where
  "client_auth token mode l =
     (case link_send TypeAuth (Encode (json_AuthRequest \<lparr>ar_Token = token, ar_Mode = mode\<rparr>)) l of
        (l1, Some e) \<Rightarrow> (Inl (SendAuth e), close_link l1)
      | (l1, None) \<Rightarrow>
          (case link_recv l1 of
             (Inl e, l2) \<Rightarrow> (Inl (ReadAuth e), close_link l2)
           | (Inr (msgType, payload), l2) \<Rightarrow>
               if msgType = TypeAuthFail then
                 (Inl (AuthFailed (case decode_AuthFailResponse payload of Inl u \<Rightarrow> [] | Inr f \<Rightarrow> af_Reason f)),
                  close_link l2)
               else if msgType = TypeAuthOK then (Inr payload, l2)
               else (Inl (UnexpectedResponse msgType), close_link l2)))"

text \<open>Up to the TUN device: \<open>tun_err\<close> and \<open>cfg_err\<close> are what \<open>NewTUN\<close> and \<open>configureTUN\<close> report.\<close>

definition connect_open ::
    "options \<Rightarrow> (dial_error + link) \<Rightarrow> string option \<Rightarrow> string option \<Rightarrow>
     connect_error + AuthOKResponse \<times> link" where
  "connect_open opts dialed tun_err cfg_err =
     (case dialed of
        Inl e \<Rightarrow> Inl (DialFailed e)
      | Inr l \<Rightarrow>
          (case client_auth (opt_Token opts) [] l of
             (Inl e, l1) \<Rightarrow> Inl e
           | (Inr payload, l1) \<Rightarrow>
               (case decode_AuthOKResponse payload of
                  Inl u \<Rightarrow> Inl DecodeAuth
                | Inr resp \<Rightarrow>
                    (case tun_err of
                       Some e \<Rightarrow> Inl (CreateTUN e)
                     | None \<Rightarrow> (case cfg_err of Some e \<Rightarrow> Inl (ConfigureTUN e) | None \<Rightarrow> Inr (resp, l1))))))"

section \<open>Routes\<close>

text \<open>The routing table maps a range to its device. \<open>ip route replace\<close> takes over the entry that
  is there, \<open>ip route del\<close> deletes it.\<close>

type_synonym routing = "string \<Rightarrow> string option"

definition AddRoute :: "(string \<Rightarrow> bool) \<Rightarrow> string \<Rightarrow> string \<Rightarrow> routing \<Rightarrow> routing" where
  "AddRoute fails dev cidr t = (if fails cidr then t else t(cidr \<mapsto> dev))"

definition DelRoute :: "string \<Rightarrow> routing \<Rightarrow> routing" where
  "DelRoute cidr t = t(cidr := None)"

definition routes_up :: "(string \<Rightarrow> bool) \<Rightarrow> string \<Rightarrow> options \<Rightarrow> string \<Rightarrow> AuthOKResponse \<Rightarrow> routing \<Rightarrow> routing" where
  "routes_up fails dev opts srvIP resp t =
     foldl (\<lambda>t r. AddRoute fails dev r t) t (ok_Subnet resp # opt_ExtraRoutes opts @ fst (pushed opts srvIP resp))"

definition routes_down :: "(string \<Rightarrow> bool) \<Rightarrow> options \<Rightarrow> string \<Rightarrow> AuthOKResponse \<Rightarrow> routing \<Rightarrow> routing" where
  "routes_down fails opts srvIP resp t =
     foldl (\<lambda>t r. DelRoute r t) t (deleted_routes fails opts srvIP resp)"

section \<open>Split DNS\<close>

text \<open>Linux: the \<open>resolvectl\<close> calls of \<open>applyDNS\<close>, and those of the function it returns.\<close>

definition applyDNS_linux ::
    "bool \<Rightarrow> (string list \<Rightarrow> bool) \<Rightarrow> string \<Rightarrow> string \<Rightarrow> string list \<Rightarrow> string list list \<times> string list list" where
  "applyDNS_linux found fails dev server domains =
     (if \<not> found then ([], [])
      else let set_dns = [''resolvectl'', ''dns'', dev, server];
               set_domains = [''resolvectl'', ''domain'', dev] @ map (\<lambda>d. CHR ''~'' # d) domains
           in if fails set_dns then ([set_dns], [])
              else ([set_dns, set_domains], [[''resolvectl'', ''revert'', dev]]))"

text \<open>macOS: one file per domain; the paths written are the ones removed later. The marker ends in
  a line feed and has a dash in UTF-8.\<close>

definition resolverMarker :: string where
  "resolverMarker =
     ''# managed by auth-vpn '' @ [CHR 0xE2, CHR 0x80, CHR 0x94] @ '' removed on disconnect'' @ [CHR 0x0A]"

definition resolver_path :: "string \<Rightarrow> string" where
  "resolver_path d = path_Join [''/etc/resolver'', d]"

definition resolver_step :: "string \<Rightarrow> filesys \<times> string list \<Rightarrow> string \<Rightarrow> filesys \<times> string list" where
  "resolver_step server = (\<lambda>(fs, written) d.
     let path = resolver_path d
     in if (case ReadFile fs path of Inl e \<Rightarrow> False | Inr b \<Rightarrow> \<not> HasPrefix b resolverMarker) then (fs, written)
        else case WriteFile fs path (resolverMarker @ ''nameserver '' @ server @ [CHR 0x0A]) of
               (fs', Some e) \<Rightarrow> (fs', written)
             | (fs', None) \<Rightarrow> (fs', written @ [path]))"

definition applyDNS_darwin :: "filesys \<Rightarrow> string \<Rightarrow> string list \<Rightarrow> filesys \<times> string list" where
  "applyDNS_darwin fs server domains =
     (case MkdirAll fs ''/etc/resolver'' of
        Some e \<Rightarrow> (fs, [])
      | None \<Rightarrow> foldl (resolver_step server) (fs, []) domains)"

definition revertDNS_darwin :: "(string \<Rightarrow> os_error option) \<Rightarrow> filesys \<Rightarrow> string list \<Rightarrow> filesys" where
  "revertDNS_darwin rm fs written = foldl (\<lambda>fs p. fst (Remove_file (rm p) fs p)) fs written"

section \<open>The running tunnel\<close>

datatype connect_result = CleanDisconnect | TunnelClosed | ConnectFailed connect_error

text \<open>\<open>ss_tun\<close>: the packets written to the device; the two flags say which forwarding goroutine is
  still running, \<open>ss_cancelled\<close> whether the context is done, \<open>ss_result\<close> what \<open>Connect\<close> returned.\<close>

record session =
  ss_link :: link
  ss_tun :: "bytes list"
  ss_up :: bool
  ss_down :: bool
  ss_cancelled :: bool
  ss_result :: "connect_result option"

datatype client_event =
    TunPacket bytes
  | TunReadError
  | ServerFrame bool
  | KeepaliveTick
  | WakeTick duration
  | ShutdownSignal
  | ContextDone

definition start_session :: "link \<Rightarrow> session" where
  "start_session l =
     \<lparr>ss_link = l, ss_tun = [], ss_up = True, ss_down = True, ss_cancelled = False, ss_result = None\<rparr>"

text \<open>Device to server; a frame that cannot be written ends the goroutine, which cancels.\<close>

definition tun_to_server :: "bytes \<Rightarrow> session \<Rightarrow> session" where
  "tun_to_server p s =
     (case link_send TypeIPPacket p (ss_link s) of
        (l, None) \<Rightarrow> s\<lparr>ss_link := l\<rparr>
      | (l, Some e) \<Rightarrow> s\<lparr>ss_link := l, ss_up := False, ss_cancelled := True\<rparr>)"

text \<open>Server to device; \<open>tun_ok\<close>: the write to the device works.\<close>

definition server_to_tun :: "bool \<Rightarrow> session \<Rightarrow> session" where
  "server_to_tun tun_ok s =
     (case link_recv (ss_link s) of
        (Inl e, l) \<Rightarrow> s\<lparr>ss_link := l, ss_down := False, ss_cancelled := True\<rparr>
      | (Inr (msgType, payload), l) \<Rightarrow>
          let s1 = s\<lparr>ss_link := l\<rparr>
          in if msgType = TypeIPPacket then
               (if tun_ok then s1\<lparr>ss_tun := ss_tun s1 @ [payload]\<rparr>
                else s1\<lparr>ss_down := False, ss_cancelled := True\<rparr>)
             else if msgType = TypePing then s1\<lparr>ss_link := fst (link_send TypePong [] l)\<rparr>
             else if msgType = TypeDisconnect then s1\<lparr>ss_down := False, ss_cancelled := True\<rparr>
             else s1)"

fun client_step :: "client_event \<Rightarrow> session \<Rightarrow> session" where
  "client_step (TunPacket p) s = (if ss_up s then tun_to_server p s else s)"
| "client_step TunReadError s = (if ss_up s then s\<lparr>ss_up := False, ss_cancelled := True\<rparr> else s)"
| "client_step (ServerFrame tun_ok) s = (if ss_down s then server_to_tun tun_ok s else s)"
| "client_step KeepaliveTick s = s\<lparr>ss_link := fst (link_send TypePing [] (ss_link s))\<rparr>"
| "client_step (WakeTick gap) s =
     (if seconds 20 < gap
      then (case link_send TypePing [] (ss_link s) of
              (l, None) \<Rightarrow> s\<lparr>ss_link := l\<rparr>
            | (l, Some e) \<Rightarrow> s\<lparr>ss_link := l, ss_cancelled := True\<rparr>)
      else s)"
| "client_step ShutdownSignal s =
     (if ss_result s = None
      then s\<lparr>ss_link := close_link (fst (link_send TypeDisconnect [] (ss_link s))), ss_result := Some CleanDisconnect\<rparr>
      else s)"
| "client_step ContextDone s =
     (if ss_result s = None \<and> ss_cancelled s
      then s\<lparr>ss_link := close_link (ss_link s), ss_result := Some TunnelClosed\<rparr>
      else s)"

definition client_run :: "client_event list \<Rightarrow> session \<Rightarrow> session" where
  "client_run es s = foldl (\<lambda>s e. client_step e s) s es"

section \<open>Reconnecting\<close>

definition reconnectInitialBackoff :: duration where "reconnectInitialBackoff = seconds 2"
definition reconnectMaxBackoff :: duration where "reconnectMaxBackoff = minutes 2"

definition next_backoff :: "duration \<Rightarrow> duration" where
  "next_backoff b = (let d = b * 2 in if reconnectMaxBackoff < d then reconnectMaxBackoff else d)"

text \<open>The loop on the results of the attempts so far: the sleeps made, and whether it returned.\<close>

fun reconnect_loop :: "duration \<Rightarrow> connect_result list \<Rightarrow> duration list \<times> bool" where
  "reconnect_loop b [] = ([], False)"
| "reconnect_loop b (r # rs) =
     (case r of
        ConnectFailed e \<Rightarrow> (let (ss, ret) = reconnect_loop (next_backoff b) rs in (b # ss, ret))
      | _ \<Rightarrow> ([], True))"

definition ConnectWithReconnect :: "connect_result list \<Rightarrow> duration list \<times> bool" where
  "ConnectWithReconnect = reconnect_loop reconnectInitialBackoff"

text \<open>\<open>WaitForPing\<close> on the rounds of its loop, each the reading of the clock and whether the dial
  worked; \<open>None\<close> while it still waits.\<close>

fun wait_rounds :: "instant \<Rightarrow> (instant \<times> bool) list \<Rightarrow> bool option" where
  "wait_rounds deadline [] = None"
| "wait_rounds deadline ((now, ok) # rs) =
     (if \<not> now < deadline then Some False else if ok then Some True else wait_rounds deadline rs)"

definition WaitForPing :: "instant \<Rightarrow> duration \<Rightarrow> (instant \<times> bool) list \<Rightarrow> bool option" where
  "WaitForPing start timeout rs = wait_rounds (start + timeout) rs"

section \<open>Facts on routes and DNS\<close>

lemma foldl_AddRoute:
  "foldl (\<lambda>t r. AddRoute fails dev r t) t rs c = (if c \<in> set rs \<and> \<not> fails c then Some dev else t c)"
  by (induction rs arbitrary: t) (auto simp: AddRoute_def)

lemma foldl_DelRoute: "foldl (\<lambda>t r. DelRoute r t) t rs c = (if c \<in> set rs then None else t c)"
  by (induction rs arbitrary: t) (auto simp: DelRoute_def)

lemma routes_up_at:
  "routes_up fails dev opts srvIP resp t c =
     (if c \<in> set (ok_Subnet resp # opt_ExtraRoutes opts @ fst (pushed opts srvIP resp)) \<and> \<not> fails c then Some dev else t c)"
  by (simp only: routes_up_def foldl_AddRoute)

lemma routes_down_at:
  "routes_down fails opts srvIP resp t c =
     (if c = ok_Subnet resp \<or> c \<in> set (opt_ExtraRoutes opts @ fst (pushed opts srvIP resp)) \<and> \<not> fails c
      then None else t c)"
proof -
  have "set (deleted_routes fails opts srvIP resp) =
      insert (ok_Subnet resp) {r \<in> set (opt_ExtraRoutes opts @ fst (pushed opts srvIP resp)). \<not> fails r}"
    by (auto simp: deleted_routes_def)
  then show ?thesis by (simp add: routes_down_def foldl_DelRoute)
qed

definition routes_taken :: "(string \<Rightarrow> bool) \<Rightarrow> options \<Rightarrow> string \<Rightarrow> AuthOKResponse \<Rightarrow> string set" where
  "routes_taken fails opts srvIP resp =
     {c \<in> set (ok_Subnet resp # opt_ExtraRoutes opts @ fst (pushed opts srvIP resp)). \<not> fails c}"

text \<open>A foreign resolver file survives a step, and is not noted as written.\<close>

definition foreign_file :: "string \<Rightarrow> string \<Rightarrow> filesys \<Rightarrow> bool" where
  "foreign_file p b fs \<longleftrightarrow> files fs p = Some b \<and> read_fails fs p = None \<and> \<not> HasPrefix b resolverMarker"

lemma resolver_step_foreign:
  assumes "foreign_file p b fs" and "p \<notin> set ws" and "resolver_step server (fs, ws) d = (fs', ws')"
  shows "foreign_file p b fs' \<and> p \<notin> set ws'"
proof (cases "resolver_path d = p")
  case True
  with assms show ?thesis by (simp add: resolver_step_def foreign_file_def ReadFile_def)
next
  case False
  with assms show ?thesis
    by (auto simp: resolver_step_def foreign_file_def Let_def WriteFile_def split: if_splits option.splits prod.splits)
qed

lemma resolver_steps_foreign:
  "foreign_file p b fs \<Longrightarrow> p \<notin> set ws \<Longrightarrow> foldl (resolver_step server) (fs, ws) ds = (fs', ws') \<Longrightarrow>
     foreign_file p b fs' \<and> p \<notin> set ws'"
proof (induction ds arbitrary: fs ws)
  case (Cons d ds)
  obtain fs1 ws1 where "resolver_step server (fs, ws) d = (fs1, ws1)" by fastforce
  with Cons.prems resolver_step_foreign [OF Cons.prems(1,2) this] Cons.IH [of fs1 ws1] show ?case by simp
qed simp

lemma revertDNS_other: "p \<notin> set ws \<Longrightarrow> files (revertDNS_darwin rm fs ws) p = files fs p"
  unfolding revertDNS_darwin_def
  by (induction ws arbitrary: fs) (auto simp: Remove_file_def split: option.splits)

section \<open>Facts on sessions\<close>

definition ip_payloads :: "(byte \<times> bytes) list \<Rightarrow> bytes list" where
  "ip_payloads fs = map snd (filter (\<lambda>f. fst f = TypeIPPacket) fs)"

definition tun_packets :: "client_event list \<Rightarrow> bytes list" where
  "tun_packets es = concat (map (\<lambda>e. case e of TunPacket p \<Rightarrow> [p] | _ \<Rightarrow> []) es)"

definition small_frames :: "(byte \<times> bytes) list \<Rightarrow> bool" where
  "small_frames fs \<longleftrightarrow> list_all (\<lambda>(t, p). length p < maxFrameSize) fs"

lemma ip_payloads_append [simp]: "ip_payloads (fs @ gs) = ip_payloads fs @ ip_payloads gs"
  by (simp add: ip_payloads_def)

lemma ip_payloads_simps [simp]:
  "ip_payloads [] = []" "ip_payloads [(TypeIPPacket, p)] = [p]"
  "t \<noteq> TypeIPPacket \<Longrightarrow> ip_payloads [(t, p)] = []"
  by (simp_all add: ip_payloads_def)

lemma small_frames_append [simp]: "small_frames (fs @ gs) \<longleftrightarrow> small_frames fs \<and> small_frames gs"
  by (simp add: small_frames_def)

lemma frames_bytes_append [simp]: "frames_bytes (fs @ gs) = frames_bytes fs @ frames_bytes gs"
  by (simp add: frames_bytes_def)

lemma link_send_cases:
  assumes "wr_fail (lk_wr l) = None"
  obtains "link_send t p l = (l\<lparr>lk_wr := (lk_wr l)\<lparr>wr_out := wr_out (lk_wr l) @ frames_bytes [(t, p)]\<rparr>\<rparr>, None)"
    and "small_frames [(t, p)]" and "\<not> lk_closed l"
  | e where "link_send t p l = (l, Some e)" and "lk_closed l \<or> maxFrameSize \<le> length p"
proof (cases "lk_closed l \<or> maxFrameSize \<le> length p")
  case True
  then show ?thesis using that(2) WriteFrame_too_large [of p "lk_wr l" t]
    by (cases "lk_closed l") (auto simp: link_send_def)
next
  case False
  then show ?thesis using that(1) WriteFrame_ok [OF assms, of p t]
    by (auto simp: link_send_def frames_bytes_def small_frames_def)
qed

text \<open>What holds throughout a session over a connection \<open>l\<close> whose writes do not fail, after the
  device delivered \<open>ps\<close>.\<close>

definition sent_inv :: "link \<Rightarrow> bytes list \<Rightarrow> session \<Rightarrow> bool" where
  "sent_inv l ps s \<longleftrightarrow> wr_fail (lk_wr (ss_link s)) = None \<and>
     (\<exists>fs. wr_out (lk_wr (ss_link s)) = wr_out (lk_wr l) @ frames_bytes fs \<and> small_frames fs \<and>
        prefix (ip_payloads fs) ps \<and> (ss_up s \<longrightarrow> ip_payloads fs = ps))"

definition got_inv :: "link \<Rightarrow> session \<Rightarrow> bool" where
  "got_inv l s \<longleftrightarrow>
     (\<exists>gs rest. rd_buf (lk_rd l) = frames_bytes gs @ rest \<and> ss_tun s = ip_payloads gs \<and>
        (ss_down s \<longrightarrow> rest = rd_buf (lk_rd (ss_link s))))"

lemma sent_inv_send:
  assumes "sent_inv l ps s" and "t \<noteq> TypeIPPacket"
  shows "sent_inv l ps (s\<lparr>ss_link := fst (link_send t p (ss_link s))\<rparr>)"
proof -
  from assms(1) obtain fs where fs: "wr_fail (lk_wr (ss_link s)) = None"
    "wr_out (lk_wr (ss_link s)) = wr_out (lk_wr l) @ frames_bytes fs" "small_frames fs"
    "prefix (ip_payloads fs) ps" "ss_up s \<longrightarrow> ip_payloads fs = ps"
    by (auto simp: sent_inv_def)
  from fs(1) show ?thesis
  proof (cases rule: link_send_cases [where t = t and p = p])
    case 1
    with fs assms(2) show ?thesis
      by (auto simp: sent_inv_def intro!: exI [of _ "fs @ [(t, p)]"])
  next
    case (2 e)
    with assms(1) show ?thesis by (simp add: sent_inv_def)
  qed
qed

lemma sent_inv_packet:
  assumes "sent_inv l ps s" and "ss_up s"
  shows "sent_inv l (ps @ [p]) (tun_to_server p s)"
proof -
  from assms obtain fs where fs: "wr_fail (lk_wr (ss_link s)) = None"
    "wr_out (lk_wr (ss_link s)) = wr_out (lk_wr l) @ frames_bytes fs" "small_frames fs" "ip_payloads fs = ps"
    by (auto simp: sent_inv_def)
  from fs(1) show ?thesis
  proof (cases rule: link_send_cases [where t = TypeIPPacket and p = p])
    case 1
    with fs show ?thesis
      by (auto simp: sent_inv_def tun_to_server_def intro!: exI [of _ "fs @ [(TypeIPPacket, p)]"])
  next
    case (2 e)
    with fs show ?thesis by (auto simp: sent_inv_def tun_to_server_def)
  qed
qed

lemma sent_inv_mono: "sent_inv l ps s \<Longrightarrow> \<not> ss_up s \<Longrightarrow> sent_inv l (ps @ qs) s"
  by (auto simp: sent_inv_def intro: prefix_order.trans)

lemma link_recv_wr [simp]: "link_recv l = (r, l') \<Longrightarrow> lk_wr l' = lk_wr l"
  by (auto simp: link_recv_def split: if_splits prod.splits)

lemma link_send_rd [simp]: "lk_rd (fst (link_send t p l)) = lk_rd l"
  by (auto simp: link_send_def split: prod.splits)

lemma sent_inv_cong:
  "sent_inv l ps s \<Longrightarrow> lk_wr (ss_link s') = lk_wr (ss_link s) \<Longrightarrow> (ss_up s' \<Longrightarrow> ss_up s) \<Longrightarrow> sent_inv l ps s'"
  by (auto simp: sent_inv_def)

lemma got_inv_cong:
  "got_inv l s \<Longrightarrow> lk_rd (ss_link s') = lk_rd (ss_link s) \<Longrightarrow> ss_tun s' = ss_tun s \<Longrightarrow> ss_down s' = ss_down s \<Longrightarrow>
     got_inv l s'"
  by (auto simp: got_inv_def)

lemma sent_inv_recv:
  assumes "sent_inv l ps s"
  shows "sent_inv l ps (server_to_tun ok s)"
proof -
  obtain r l' where r: "link_recv (ss_link s) = (r, l')" by fastforce
  have w: "lk_wr l' = lk_wr (ss_link s)" using r by simp
  have same: "sent_inv l ps (s\<lparr>ss_link := l'\<rparr>)" by (rule sent_inv_cong [OF assms]) (simp_all add: w)
  show ?thesis
  proof (cases r)
    case (Inl e)
    then show ?thesis using r by (auto simp: server_to_tun_def w intro: sent_inv_cong [OF assms])
  next
    case (Inr f)
    obtain t p where f: "f = (t, p)" by (cases f)
    show ?thesis
    proof (cases "t = TypePing")
      case True
      then have "t \<noteq> TypeIPPacket" "TypePong \<noteq> TypeIPPacket" by (simp_all add: frame_types)
      then show ?thesis using sent_inv_send [OF same, of TypePong "[]"] True
        by (simp add: server_to_tun_def r Inr f)
    next
      case False
      then show ?thesis by (auto simp: server_to_tun_def r Inr f w Let_def intro: sent_inv_cong [OF assms])
    qed
  qed
qed

lemma got_inv_recv:
  assumes "got_inv l s" and "ss_down s"
  shows "got_inv l (server_to_tun ok s)"
proof -
  from assms obtain gs where gs: "rd_buf (lk_rd l) = frames_bytes gs @ rd_buf (lk_rd (ss_link s))"
    "ss_tun s = ip_payloads gs" by (auto simp: got_inv_def)
  obtain r l' where r: "link_recv (ss_link s) = (r, l')" by fastforce
  show ?thesis
  proof (cases r)
    case (Inl e)
    with r gs show ?thesis by (auto simp: server_to_tun_def got_inv_def)
  next
    case (Inr f)
    obtain t p where f: "f = (t, p)" by (cases f)
    with r Inr have "ReadFrame (lk_rd (ss_link s)) = (Inr (t, p), lk_rd l')"
      by (auto simp: link_recv_def split: if_splits prod.splits)
    from ReadFrame_Inr [OF this] gs(1)
    have b: "rd_buf (lk_rd l) = frames_bytes (gs @ [(t, p)]) @ rd_buf (lk_rd l')" by (simp add: frames_bytes_def)
    show ?thesis
    proof (cases "t = TypeIPPacket")
      case True
      then have "got_inv l (server_to_tun True s)" using r Inr f b gs
        by (auto simp: server_to_tun_def got_inv_def intro!: exI [of _ "gs @ [(t, p)]"])
      moreover have "got_inv l (server_to_tun False s)" using True r Inr f b gs
        by (auto simp: server_to_tun_def got_inv_def intro!: exI [of _ gs])
      ultimately show ?thesis by (cases ok) simp_all
    next
      case False
      then show ?thesis using r Inr f b gs
        by (auto simp: server_to_tun_def got_inv_def Let_def intro!: exI [of _ "gs @ [(t, p)]"])
    qed
  qed
qed

lemma sent_inv_step:
  assumes "sent_inv l ps s"
  shows "sent_inv l (ps @ tun_packets [e]) (client_step e s)"
proof -
  have ping: "TypePing \<noteq> TypeIPPacket" "TypeDisconnect \<noteq> TypeIPPacket" by (simp_all add: frame_types)
  show ?thesis
  proof (cases e)
    case (TunPacket p)
    with assms show ?thesis
      using sent_inv_packet [OF assms, of p] sent_inv_mono [OF assms, of "[p]"] by (simp add: tun_packets_def)
  next
    case (WakeTick gap)
    obtain l' r where s: "link_send TypePing [] (ss_link s) = (l', r)" by fastforce
    have "sent_inv l ps (s\<lparr>ss_link := l'\<rparr>)" using sent_inv_send [OF assms ping(1), of "[]"] s by simp
    with s WakeTick show ?thesis
      by (auto simp: tun_packets_def assms split: option.splits intro: sent_inv_cong)
  next
    case ShutdownSignal
    with sent_inv_send [OF assms ping(2), of "[]"] show ?thesis
      by (auto simp: tun_packets_def assms close_link_def intro: sent_inv_cong)
  qed (use assms sent_inv_recv [OF assms] sent_inv_send [OF assms ping(1), of "[]"] in
      \<open>auto simp: tun_packets_def close_link_def intro: sent_inv_cong\<close>)
qed

lemma got_inv_step:
  assumes "got_inv l s"
  shows "got_inv l (client_step e s)"
proof (cases e)
  case (TunPacket p)
  have "lk_rd (ss_link (tun_to_server p s)) = lk_rd (ss_link s)"
    using link_send_rd [of TypeIPPacket p "ss_link s"]
    by (auto simp: tun_to_server_def simp del: link_send_rd split: prod.splits option.splits)
  with TunPacket show ?thesis
    by (auto simp: tun_to_server_def split: prod.splits option.splits intro: got_inv_cong [OF assms] assms)
next
  case (WakeTick gap)
  then show ?thesis
    using link_send_rd [of TypePing "[]" "ss_link s"]
    by (auto simp del: link_send_rd split: prod.splits option.splits intro: got_inv_cong [OF assms] assms)
qed (use assms got_inv_recv [OF assms] in \<open>auto simp: close_link_def intro: got_inv_cong [OF assms]\<close>)

lemma client_run_append: "client_run (es @ [e]) s = client_step e (client_run es s)"
  by (simp add: client_run_def)

lemma tun_packets_append: "tun_packets (es @ fs) = tun_packets es @ tun_packets fs"
  by (simp add: tun_packets_def)

lemma session_inv:
  assumes "wr_fail (lk_wr l) = None"
  shows "sent_inv l (tun_packets es) (client_run es (start_session l)) \<and> got_inv l (client_run es (start_session l))"
proof (induction es rule: rev_induct)
  case Nil
  have "sent_inv l [] (start_session l)" "got_inv l (start_session l)"
    using assms by (auto simp: sent_inv_def got_inv_def start_session_def frames_bytes_def small_frames_def
        intro: exI [of _ "[]"])
  then show ?case by (simp add: client_run_def tun_packets_def)
next
  case (snoc e es)
  then show ?case using sent_inv_step got_inv_step
    by (simp add: client_run_append tun_packets_append)
qed

text \<open>Once up, \<open>Connect\<close> returns no error.\<close>

lemma session_result:
  "ss_result (client_run es (start_session l)) \<in> {None, Some CleanDisconnect, Some TunnelClosed}"
proof (induction es rule: rev_induct)
  case (snoc e es)
  let ?s = "client_run es (start_session l)"
  have "ss_result (client_step e ?s) \<in> {ss_result ?s, Some CleanDisconnect, Some TunnelClosed}"
    by (cases e) (auto simp: tun_to_server_def server_to_tun_def Let_def split: prod.splits option.splits sum.splits)
  with snoc show ?case by (auto simp: client_run_append)
qed (simp add: client_run_def start_session_def)

lemma backoff_steps:
  assumes "r = CleanDisconnect \<or> r = TunnelClosed"
  shows "reconnect_loop b (map ConnectFailed errs @ r # rs) =
    (map (\<lambda>i. (next_backoff ^^ i) b) [0..<length errs], True)"
proof (induction errs arbitrary: b)
  case Nil
  then show ?case using assms by auto
next
  case (Cons e errs)
  then show ?case by (simp add: map_upt_Suc comp_def funpow_swap1 del: upt_Suc)
qed

lemma next_backoff_iter: "(next_backoff ^^ i) (seconds 2) = min (seconds (2 * 2 ^ i)) (minutes 2)"
  by (induction i) (auto simp: next_backoff_def reconnectMaxBackoff_def Let_def min_def)

section \<open>Properties\<close>



lemma client_auth_ok:
  fixes tok mode :: string
  defines "req \<equiv> Encode (json_AuthRequest \<lparr>ar_Token = tok, ar_Mode = mode\<rparr>)"
  assumes "wr_fail (lk_wr l) = None" and "\<not> lk_closed l" and "length req < maxFrameSize"
    and "length p < maxFrameSize" and "rd_buf (lk_rd l) = frame_bytes TypeAuthOK p @ later"
  shows "client_auth tok mode l =
    (Inr p, l\<lparr>lk_wr := (lk_wr l)\<lparr>wr_out := wr_out (lk_wr l) @ frame_bytes TypeAuth req\<rparr>,
              lk_rd := (lk_rd l)\<lparr>rd_buf := later\<rparr>\<rparr>)"
proof -
  let ?l1 = "l\<lparr>lk_wr := (lk_wr l)\<lparr>wr_out := wr_out (lk_wr l) @ frame_bytes TypeAuth req\<rparr>\<rparr>"
  have s: "link_send TypeAuth req l = (?l1, None)"
    using assms(2-4) by (simp add: link_send_def WriteFrame_ok)
  have "ReadFrame (lk_rd l) = (Inr (TypeAuthOK, p), (lk_rd l)\<lparr>rd_buf := later\<rparr>)"
    by (rule ReadFrame_frame_bytes [OF assms(5,6)])
  moreover have "\<not> lk_closed ?l1" "lk_rd ?l1 = lk_rd l" using assms(3) by simp_all
  ultimately have r: "link_recv ?l1 = (Inr (TypeAuthOK, p), ?l1\<lparr>lk_rd := (lk_rd l)\<lparr>rd_buf := later\<rparr>\<rparr>)"
    unfolding link_recv_def by simp
  have "TypeAuthOK \<noteq> TypeAuthFail" by (simp add: frame_types)
  with s r show ?thesis by (simp add: client_auth_def req_def)
qed



text \<open>C31: the reconnect loop sleeps two seconds after the first failed attempt and twice as long after
  each further one, never more than two minutes, and returns at the first attempt that does not
  fail.\<close>

theorem reconnect_backoff:
  assumes "r = CleanDisconnect \<or> r = TunnelClosed"
  shows "ConnectWithReconnect (map ConnectFailed errs @ r # rs) =
    (map (\<lambda>i. min (seconds (2 * 2 ^ i)) (minutes 2)) [0..<length errs], True)"
  unfolding ConnectWithReconnect_def reconnectInitialBackoff_def backoff_steps [OF assms] next_backoff_iter ..

theorem reconnect_backoff_witness:
  "ConnectWithReconnect (map ConnectFailed [AuthFailed [], AuthFailed []] @ CleanDisconnect # []) =
     ([seconds 2, seconds 4], True)"
  by (subst reconnect_backoff) (simp_all add: upt_rec)

text \<open>C37: a tunnel that came up and is lost, by a dead connection, a server that disconnects or a device
  that fails, ends the reconnect loop: \<open>Connect\<close> reports the loss as success, and no further
  attempt is made.\<close>

theorem lost_tunnel_is_not_retried:
  assumes "ss_result (client_run es (start_session l)) = Some r"
  shows "ConnectWithReconnect (map ConnectFailed errs @ r # rs) =
    (fst (ConnectWithReconnect (map ConnectFailed errs @ [r])), True)"
proof -
  have r: "r = CleanDisconnect \<or> r = TunnelClosed"
    using session_result [of es l] assms by auto
  show ?thesis using backoff_steps [OF r, of reconnectInitialBackoff errs rs]
      backoff_steps [OF r, of reconnectInitialBackoff errs "[]"]
    by (simp add: ConnectWithReconnect_def)
qed

theorem lost_tunnel_is_not_retried_witness:
  "let l = \<lparr>lk_rd = \<lparr>rd_buf = [], rd_end = EOF\<rparr>, lk_wr = \<lparr>wr_out = [], wr_fail = None\<rparr>, lk_closed = False\<rparr>
   in ss_result (client_run [ServerFrame True, ContextDone] (start_session l)) = Some TunnelClosed \<and>
      ConnectWithReconnect (map ConnectFailed [] @ TunnelClosed # [CleanDisconnect]) = ([], True)"
proof -
  let ?l = "\<lparr>lk_rd = \<lparr>rd_buf = [], rd_end = EOF\<rparr>, lk_wr = \<lparr>wr_out = [], wr_fail = None\<rparr>, lk_closed = False\<rparr>"
  have "ss_result (client_run [ServerFrame True, ContextDone] (start_session ?l)) = Some TunnelClosed"
    by (simp add: client_run_def start_session_def server_to_tun_def link_recv_def ReadFrame_def ReadFull_def headerSize_def)
  from lost_tunnel_is_not_retried [OF this, of "[]" "[CleanDisconnect]"] this show ?thesis
    by (simp add: ConnectWithReconnect_def)
qed

text \<open>What a connection does to the routing table. While it is up, the device has the subnet and the
  extra and pushed ranges that could be added, and no other entry changed; after it is taken down
  no entry it made is left. An entry that another device had under one of those ranges is gone for
  good: \<open>ip route replace\<close> takes it over and nothing brings it back.\<close>

theorem routes_taken_and_given_back:
  "routes_up fails dev opts srvIP resp t c = (if c \<in> routes_taken fails opts srvIP resp then Some dev else t c) \<and>
   routes_down fails opts srvIP resp (routes_up fails dev opts srvIP resp t) c =
     (if c \<in> insert (ok_Subnet resp) (routes_taken fails opts srvIP resp) then None else t c)"
  by (auto simp: routes_taken_def routes_up_at routes_down_at)

text \<open>On macOS a resolver file that auth-vpn did not write is never changed, neither when split DNS is
  set up nor when it is taken down.\<close>

theorem foreign_resolver_files_kept:
  assumes "foreign_file p b fs" and "applyDNS_darwin fs server ds = (fs', ws)"
  shows "files (revertDNS_darwin rm fs' ws) p = Some b \<and> files fs' p = Some b"
proof (cases "MkdirAll fs ''/etc/resolver''")
  case None
  with assms resolver_steps_foreign [OF assms(1), of "[]" server ds fs' ws] show ?thesis
    by (auto simp: applyDNS_darwin_def foreign_file_def revertDNS_other)
next
  case (Some e)
  with assms show ?thesis by (auto simp: applyDNS_darwin_def foreign_file_def revertDNS_darwin_def)
qed

theorem foreign_resolver_files_kept_witness:
  "let p = ''/etc/resolver/corp.example'' in
   \<exists>fs' ws. applyDNS_darwin (healthy_fs [p \<mapsto> ''nameserver 10.0.0.1'']) ''10.8.0.1'' [''corp.example''] = (fs', ws) \<and>
     files (revertDNS_darwin (\<lambda>q. None) fs' ws) p = Some ''nameserver 10.0.0.1''"
proof -
  let ?p = "''/etc/resolver/corp.example''"
  let ?fs = "healthy_fs [?p \<mapsto> ''nameserver 10.0.0.1'']"
  have "foreign_file ?p ''nameserver 10.0.0.1'' ?fs"
    by (simp add: foreign_file_def healthy_fs_def resolverMarker_def)
  moreover obtain fs' ws where "applyDNS_darwin ?fs ''10.8.0.1'' [''corp.example''] = (fs', ws)" by fastforce
  ultimately show ?thesis using foreign_resolver_files_kept [of ?p] by (auto simp: Let_def)
qed

end
