(* ===== verification/ProxyServer.thy ===== *)
theory ProxyServer
  imports Server
begin

text \<open>
  \<open>internal/server/proxy.go\<close>: the server's end of proxy mode, \<open>handleProxyConn\<close>. The state is
  the map from stream ids to backend connections and the backends ever dialed (a pointer is an
  index); \<open>proxy_frame\<close> is one iteration of the main loop on a frame, \<open>backend_read\<close> one
  iteration of a stream's goroutine, \<open>proxy_cleanup\<close> the deferred close of what is left. The
  name lookup and the dial are arguments: \<open>dial target\<close> is the error of the dial, if any.
\<close>

section \<open>State\<close>

record backend =
  bk_target :: string
  bk_id :: "32 word"
  bk_out :: bytes
  bk_closed :: bool
  bk_running :: bool

record proxy =
  px_streams :: "32 word \<rightharpoonup> nat"
  px_backends :: "backend list"

definition new_proxy :: proxy where
  "new_proxy = \<lparr>px_streams = Map.empty, px_backends = []\<rparr>"

definition proxyBufSize :: nat where "proxyBufSize = 32768"

definition upd_backend :: "nat \<Rightarrow> (backend \<Rightarrow> backend) \<Rightarrow> proxy \<Rightarrow> proxy" where
  "upd_backend k f px = px\<lparr>px_backends := (px_backends px)[k := f (px_backends px ! k)]\<rparr>"

section \<open>The main loop\<close>

text \<open>The host that is dialed: in labeled mode the checked address.\<close>

definition dial_host ::
    "(string \<Rightarrow> string + ip list) \<Rightarrow> exposeSet option \<Rightarrow> ProxyDialRequest \<Rightarrow> string + string" where
  "dial_host lookup ex req =
     (case ex of
        None \<Rightarrow> Inr (pd_Host req)
      | Some e \<Rightarrow> resolveTarget lookup e (pd_Host req) (pd_Port req))"

definition dial_target :: "string \<Rightarrow> ProxyDialRequest \<Rightarrow> string" where
  "dial_target host req = JoinHostPort host (nat_string (unat (pd_Port req)))"

definition send_frame :: "nat \<Rightarrow> byte \<Rightarrow> bytes \<Rightarrow> server \<Rightarrow> server" where
  "send_frame cid t p s = fst (conn_send cid t p s)"

definition proxy_fail :: "nat \<Rightarrow> ProxyDialRequest \<Rightarrow> string \<Rightarrow> server \<Rightarrow> server" where
  "proxy_fail cid req reason =
     send_frame cid TypeProxyFail
       (Encode (json_ProxyDialFail \<lparr>pf_StreamID = pd_StreamID req, pf_Reason = reason\<rparr>))"

definition proxy_dial ::
    "(string \<Rightarrow> string + ip list) \<Rightarrow> (string \<Rightarrow> string option) \<Rightarrow> nat \<Rightarrow> ProxyDialRequest \<Rightarrow>
     proxy \<times> server \<Rightarrow> proxy \<times> server" where
  "proxy_dial lookup dial cid req = (\<lambda>(px, s).
     case dial_host lookup (sv_expose s) req of
       Inl err \<Rightarrow> (px, proxy_fail cid req err s)
     | Inr host \<Rightarrow>
         let target = dial_target host req
         in (case dial target of
               Some err \<Rightarrow> (px, proxy_fail cid req err s)
             | None \<Rightarrow>
                 let k = length (px_backends px);
                     b = \<lparr>bk_target = target, bk_id = pd_StreamID req, bk_out = [],
                          bk_closed = False, bk_running = True\<rparr>
                 in (px\<lparr>px_backends := px_backends px @ [b],
                        px_streams := (px_streams px)(pd_StreamID req \<mapsto> k)\<rparr>,
                     send_frame cid TypeProxyOK
                       (Encode (json_ProxyDialOK \<lparr>po_StreamID = pd_StreamID req\<rparr>)) s)))"

definition proxy_data :: "bytes \<Rightarrow> proxy \<Rightarrow> proxy" where
  "proxy_data payload px =
     (if length payload < 4 then px
      else let sid = be_get32 (take 4 payload); d = drop 4 payload
           in case px_streams px sid of
                None \<Rightarrow> px
              | Some k \<Rightarrow>
                  if d = [] \<or> bk_closed (px_backends px ! k) then px
                  else upd_backend k (\<lambda>b. b\<lparr>bk_out := bk_out b @ d\<rparr>) px)"

definition proxy_close :: "bytes \<Rightarrow> proxy \<Rightarrow> proxy" where
  "proxy_close payload px =
     (if length payload < 4 then px
      else let sid = be_get32 (take 4 payload);
               px' = px\<lparr>px_streams := map_delete sid (px_streams px)\<rparr>
           in case px_streams px sid of
                None \<Rightarrow> px'
              | Some k \<Rightarrow> upd_backend k (\<lambda>b. b\<lparr>bk_closed := True\<rparr>) px')"

text \<open>One frame: whether the loop goes on, and the new state.\<close>

definition proxy_frame ::
    "(string \<Rightarrow> string + ip list) \<Rightarrow> (string \<Rightarrow> string option) \<Rightarrow> nat \<Rightarrow> byte \<times> bytes \<Rightarrow>
     proxy \<times> server \<Rightarrow> bool \<times> proxy \<times> server" where
  "proxy_frame lookup dial cid f ps =
     (case (f, ps) of ((msgType, payload), (px, s)) \<Rightarrow>
        if msgType = TypeProxyDial then
          (case decode_ProxyDialRequest payload of
             Inl u \<Rightarrow> (True, px, s)
           | Inr req \<Rightarrow> (True, proxy_dial lookup dial cid req (px, s)))
        else if msgType = TypeProxyData then (True, proxy_data payload px, s)
        else if msgType = TypeProxyClose then (True, proxy_close payload px, s)
        else if msgType = TypePing then (True, px, send_frame cid TypePong [] s)
        else if msgType = TypeDisconnect then (False, px, s)
        else (True, px, s))"

section \<open>The streams\<close>

text \<open>One \<open>tc.Read\<close> of a stream's goroutine: the bytes read, and whether it also failed; a
  failure ends the goroutine, whose deferred function runs.\<close>

definition stream_end :: "nat \<Rightarrow> nat \<Rightarrow> proxy \<times> server \<Rightarrow> proxy \<times> server" where
  "stream_end cid k = (\<lambda>(px, s).
     let sid = bk_id (px_backends px ! k);
         px1 = upd_backend k (\<lambda>b. b\<lparr>bk_closed := True, bk_running := False\<rparr>) px
     in (px1\<lparr>px_streams := map_delete sid (px_streams px1)\<rparr>,
         send_frame cid TypeProxyClose (be_put32 sid) s))"

definition backend_read :: "nat \<Rightarrow> nat \<Rightarrow> bytes \<Rightarrow> bool \<Rightarrow> proxy \<times> server \<Rightarrow> proxy \<times> server" where
  "backend_read cid k chunk failed = (\<lambda>(px, s).
     let sid = bk_id (px_backends px ! k);
         s1 = (if chunk = [] then s else send_frame cid TypeProxyData (be_put32 sid @ chunk) s)
     in if failed then stream_end cid k (px, s1) else (px, s1))"

text \<open>The deferred function of \<open>handleProxyConn\<close>: every backend the map still holds, which it
  holds under its own id (\<open>proxy_wf\<close>), is closed.\<close>

definition proxy_cleanup :: "proxy \<Rightarrow> proxy" where
  "proxy_cleanup px =
     px\<lparr>px_backends :=
       map (\<lambda>k. let b = px_backends px ! k
                in if px_streams px (bk_id b) = Some k then b\<lparr>bk_closed := True\<rparr> else b)
         [0..<length (px_backends px)]\<rparr>"

section \<open>Facts\<close>

lemma dial_host_labeled:
  "dial_host lookup (Some e) req = Inr host \<Longrightarrow> allowed e host ''tcp'' (pd_Port req)"
  by (auto simp: dial_host_def dest: resolveTarget_Inr)

lemma send_frame_frame [simp]:
  "sv_expose (send_frame cid t p s) = sv_expose s" "sv_clients (send_frame cid t p s) = sv_clients s"
  "sv_tokens (send_frame cid t p s) = sv_tokens s" "sv_metrics (send_frame cid t p s) = sv_metrics s"
proof -
  obtain f e where "conn_send cid t p s = (upd_conn cid f s, e)" by (rule conn_send_cases)
  then show "sv_expose (send_frame cid t p s) = sv_expose s"
    "sv_clients (send_frame cid t p s) = sv_clients s"
    "sv_tokens (send_frame cid t p s) = sv_tokens s" "sv_metrics (send_frame cid t p s) = sv_metrics s"
    by (simp_all add: send_frame_def)
qed

text \<open>Which backends a frame opens: none, or one whose target was checked.\<close>

lemma proxy_frame_dials:
  assumes "proxy_frame lookup dial cid f (px, s) = (go, px', s')"
  shows "map bk_target (px_backends px') = map bk_target (px_backends px) \<or>
    (\<exists>req host. map bk_target (px_backends px') = map bk_target (px_backends px) @ [dial_target host req] \<and>
       dial_host lookup (sv_expose s) req = Inr host \<and> dial (dial_target host req) = None)"
proof -
  obtain t p where f: "f = (t, p)" by (cases f)
  have keep: "map bk_target (px_backends (upd_backend k g q)) = map bk_target (px_backends q)"
    if "\<And>b. bk_target (g b) = bk_target b" for k g q
  proof (cases "k < length (px_backends q)")
    case True
    with that show ?thesis
      by (simp add: upd_backend_def map_update list_update_same_conv)
  next
    case False
    then show ?thesis by (simp add: upd_backend_def list_update_beyond)
  qed
  consider (dial) "t = TypeProxyDial" | (data) "t = TypeProxyData" | (close) "t = TypeProxyClose"
    | (other) "t \<noteq> TypeProxyDial" "t \<noteq> TypeProxyData" "t \<noteq> TypeProxyClose"
    by blast
  then show ?thesis
  proof cases
    case dial
    show ?thesis
    proof (cases "decode_ProxyDialRequest p")
      case (Inl u)
      with assms f dial show ?thesis by (simp add: proxy_frame_def)
    next
      case (Inr req)
      with assms f dial have d: "proxy_dial lookup dial cid req (px, s) = (px', s')"
        by (simp add: proxy_frame_def)
      show ?thesis
      proof (cases "dial_host lookup (sv_expose s) req")
        case (Inl e)
        with d show ?thesis by (simp add: proxy_dial_def)
      next
        case (Inr host)
        show ?thesis
        proof (cases "dial (dial_target host req)")
          case None
          with d Inr have "map bk_target (px_backends px') =
              map bk_target (px_backends px) @ [dial_target host req]"
            by (auto simp: proxy_dial_def Let_def)
          with Inr None show ?thesis by blast
        next
          case (Some err)
          with d Inr show ?thesis by (simp add: proxy_dial_def Let_def)
        qed
      qed
    qed
  next
    case data
    then have "px' = proxy_data p px"
      using assms f by (simp add: proxy_frame_def frame_types)
    then show ?thesis by (auto simp: proxy_data_def Let_def keep split: option.splits)
  next
    case close
    then have "px' = proxy_close p px"
      using assms f by (simp add: proxy_frame_def frame_types)
    then show ?thesis by (auto simp: proxy_close_def Let_def keep split: option.splits)
  next
    case other
    then have "px' = px" using assms f by (auto simp: proxy_frame_def split: if_splits)
    then show ?thesis by simp
  qed
qed

text \<open>A data frame of the server always fits a frame.\<close>

lemma backend_chunk_fits:
  "length chunk \<le> proxyBufSize \<Longrightarrow> length (be_put32 sid @ chunk) < maxFrameSize"
  by (simp add: proxyBufSize_def maxFrameSize_def)

text \<open>Data for a stream reaches that stream's backend and no other.\<close>

lemma proxy_data_routed:
  assumes "px_streams px sid = Some k" and "k < length (px_backends px)"
    and "\<not> bk_closed (px_backends px ! k)"
  shows "bk_out (px_backends (proxy_data (be_put32 sid @ d) px) ! k) = bk_out (px_backends px ! k) @ d"
    and "j \<noteq> k \<Longrightarrow>
      px_backends (proxy_data (be_put32 sid @ d) px) ! j = px_backends px ! j"
  using assms by (auto simp: proxy_data_def Let_def upd_backend_def)

lemma proxy_data_unknown:
  "px_streams px sid = None \<Longrightarrow> proxy_data (be_put32 sid @ d) px = px"
  by (simp add: proxy_data_def)

section \<open>Well-formed stream maps\<close>

text \<open>Every entry of the map is a backend that was dialed for its id.\<close>

definition proxy_wf :: "proxy \<Rightarrow> bool" where
  "proxy_wf px \<longleftrightarrow>
     (\<forall>sid k. px_streams px sid = Some k \<longrightarrow>
        k < length (px_backends px) \<and> bk_id (px_backends px ! k) = sid)"

lemma proxy_wf_new [simp, intro]: "proxy_wf new_proxy"
  by (simp add: proxy_wf_def new_proxy_def)

lemma proxy_wf_upd:
  assumes "proxy_wf px" and "\<And>b. bk_id (g b) = bk_id b"
  shows "proxy_wf (upd_backend k g px)"
proof -
  have "bk_id ((px_backends px)[k := g (px_backends px ! k)] ! j) = bk_id (px_backends px ! j)"
    if "j < length (px_backends px)" for j
    using that assms(2) by (cases "k = j") simp_all
  with assms(1) show ?thesis by (simp add: proxy_wf_def upd_backend_def)
qed

lemma proxy_wf_delete: "proxy_wf px \<Longrightarrow> proxy_wf (px\<lparr>px_streams := map_delete sid (px_streams px)\<rparr>)"
  by (auto simp: proxy_wf_def split: if_splits)

lemma proxy_wf_data [inv_intros]: "proxy_wf px \<Longrightarrow> proxy_wf (proxy_data p px)"
  by (auto simp: proxy_data_def Let_def proxy_wf_upd split: option.splits)

lemma proxy_wf_close [inv_intros]: "proxy_wf px \<Longrightarrow> proxy_wf (proxy_close p px)"
  using proxy_wf_delete [of px "be_get32 (take 4 p)"]
  by (simp add: proxy_close_def Let_def proxy_wf_upd split: option.split)

lemma proxy_wf_dial [inv_intros]:
  "proxy_wf px \<Longrightarrow> proxy_dial lookup dial cid req (px, s) = (px', s') \<Longrightarrow> proxy_wf px'"
  by (auto simp: proxy_dial_def Let_def proxy_wf_def nth_append less_SucI split: sum.splits option.splits if_splits)

lemma proxy_wf_frame [inv_intros]:
  "proxy_wf px \<Longrightarrow> proxy_frame lookup dial cid f (px, s) = (go, px', s') \<Longrightarrow> proxy_wf px'"
  by (auto simp: proxy_frame_def proxy_wf_data proxy_wf_close
      split: prod.splits sum.splits if_splits dest: proxy_wf_dial)

lemma proxy_wf_end [inv_intros]:
  "proxy_wf px \<Longrightarrow> stream_end cid k (px, s) = (px', s') \<Longrightarrow> proxy_wf px'"
  by (auto simp: stream_end_def Let_def intro!: proxy_wf_delete proxy_wf_upd)

section \<open>Properties\<close>

text \<open>C16: in labeled mode a proxy client gets a connection to exposed targets only: every backend a
  frame adds goes to an address and port that the exposed set allows over TCP.\<close>

theorem labeled_proxy_dials_exposed:
  assumes "proxy_frame lookup dial cid f (px, s) = (go, px', s')" and "sv_expose s = Some e"
    and "b \<in> set (drop (length (px_backends px)) (px_backends px'))"
  shows "\<exists>host port. bk_target b = JoinHostPort host (nat_string (unat port)) \<and> allowed e host ''tcp'' port"
proof -
  let ?n = "length (px_backends px)"
  have b: "bk_target b \<in> set (drop ?n (map bk_target (px_backends px')))"
    using assms(3) by (simp add: drop_map)
  from proxy_frame_dials [OF assms(1)] show ?thesis
  proof
    assume "map bk_target (px_backends px') = map bk_target (px_backends px)"
    with b show ?thesis by simp
  next
    assume "\<exists>req host. map bk_target (px_backends px') = map bk_target (px_backends px) @ [dial_target host req] \<and>
      dial_host lookup (sv_expose s) req = Inr host \<and> dial (dial_target host req) = None"
    then obtain req :: ProxyDialRequest and host where
      "map bk_target (px_backends px') = map bk_target (px_backends px) @ [dial_target host req]"
      "dial_host lookup (Some e) req = Inr host"
      using assms(2) by auto
    with b dial_host_labeled [of lookup e req host] show ?thesis
      by (auto simp: dial_target_def)
  qed
qed

theorem labeled_proxy_dials_exposed_witness:
  "\<exists>host port. JoinHostPort (dotted [10, 96, 0, 10]) (nat_string 53) = JoinHostPort host (nat_string (unat port)) \<and>
     allowed (newExposeSet (dotted [10, 96, 0, 10])) host ''tcp'' port"
proof -
  let ?s = "lab_server\<lparr>sv_expose := Some (newExposeSet (dotted [10, 96, 0, 10]))\<rparr>"
  let ?req = "\<lparr>pd_StreamID = 1, pd_Host = dotted [10, 96, 0, 10], pd_Port = 53\<rparr>"
  let ?r = "proxy_frame (\<lambda>h. Inr []) (\<lambda>t. None) 0 (TypeProxyDial, Encode (json_ProxyDialRequest ?req)) (new_proxy, ?s)"
  have "utf8_valid (dotted [10, 96, 0, 10])" by (simp add: dotted_def decimals utf8_valid_ascii)
  then have dec: "decode_ProxyDialRequest (Encode (json_ProxyDialRequest ?req)) = Inr ?req"
    by (simp add: decode_encode_ProxyDialRequest)
  have al: "allowed (newExposeSet (dotted [10, 96, 0, 10])) (dotted [10, 96, 0, 10]) ''tcp'' 53"
    by (simp add: allowed_def newExposeSet_def)
  have "dial_host (\<lambda>h. Inr []) (sv_expose ?s) ?req = Inr (dotted [10, 96, 0, 10])"
    using al by (simp add: dial_host_def resolveTarget_def)
  then have "drop 0 (px_backends (fst (snd ?r))) =
      [\<lparr>bk_target = JoinHostPort (dotted [10, 96, 0, 10]) (nat_string 53), bk_id = 1, bk_out = [],
        bk_closed = False, bk_running = True\<rparr>]"
    using dec by (simp add: proxy_frame_def proxy_dial_def Let_def new_proxy_def dial_target_def)
  then have b: "\<lparr>bk_target = JoinHostPort (dotted [10, 96, 0, 10]) (nat_string 53), bk_id = 1, bk_out = [],
        bk_closed = False, bk_running = True\<rparr> \<in> set (drop (length (px_backends new_proxy)) (px_backends (fst (snd ?r))))"
    by (simp add: new_proxy_def)
  have r: "?r = (fst ?r, fst (snd ?r), snd (snd ?r))" by simp
  have e: "sv_expose ?s = Some (newExposeSet (dotted [10, 96, 0, 10]))" by simp
  show ?thesis using labeled_proxy_dials_exposed [OF r e b] by simp
qed

text \<open>A data frame appends its bytes to the backend its stream id names, and changes no other
  backend and no stream.\<close>

theorem proxy_data_reaches_its_stream:
  assumes "px_streams px sid = Some k" and "k < length (px_backends px)" and "\<not> bk_closed (px_backends px ! k)"
  shows "px_streams (proxy_data (be_put32 sid @ d) px) = px_streams px \<and>
    px_backends (proxy_data (be_put32 sid @ d) px) =
      (px_backends px)[k := (px_backends px ! k)\<lparr>bk_out := bk_out (px_backends px ! k) @ d\<rparr>]"
  using assms by (auto simp: proxy_data_def upd_backend_def Let_def list_update_id)

theorem proxy_data_reaches_its_stream_witness:
  "px_backends (proxy_data (be_put32 7 @ [1, 2]) \<lparr>px_streams = [7 \<mapsto> 0], px_backends =
      [\<lparr>bk_target = [], bk_id = 7, bk_out = [9], bk_closed = False, bk_running = True\<rparr>]\<rparr>) =
    [\<lparr>bk_target = [], bk_id = 7, bk_out = [9, 1, 2], bk_closed = False, bk_running = True\<rparr>]"
  using proxy_data_reaches_its_stream [of "\<lparr>px_streams = [7 \<mapsto> 0], px_backends =
      [\<lparr>bk_target = [], bk_id = 7, bk_out = [9], bk_closed = False, bk_running = True\<rparr>]\<rparr>" 7 0 "[1, 2]"]
  by simp

end
