(* ===== verification/ProxyMux.thy ===== *)
theory ProxyMux
  imports ClientConn ProxyServer
begin

text \<open>
  \<open>internal/client/proxy.go\<close>: the client's end of proxy mode. The multiplexer's state is the
  connection to the server, the dials that wait for an answer, the streams, the counter of ids and
  the local connections ever accepted (a pointer is an index). Each \<open>handleLocalConn\<close> goroutine is
  a phase of its local connection, the read loop a flag; the steps are the stretches of code
  between two points where a goroutine waits, so every interleaving of the goroutines is a list of
  events. What the local applications send is part of the events.
\<close>

section \<open>State\<close>

record ForwardRule =
  fr_LocalPort :: int
  fr_RemoteHost :: string
  fr_RemotePort :: int

text \<open>What a dial's channel holds.\<close>

datatype dial_answer = DialOK | DialRefused string

datatype local_phase = Dialing "dial_answer option" | Streaming | Finished

record local_conn =
  lc_id :: "32 word"
  lc_phase :: local_phase
  lc_out :: bytes
  lc_closed :: bool

record mux =
  mx_link :: link
  mx_pending :: "32 word \<Rightarrow> nat option"
  mx_streams :: "32 word \<Rightarrow> nat option"
  mx_nextID :: "32 word"
  mx_locals :: "local_conn list"
  mx_reading :: bool
  mx_cancelled :: bool

definition newProxyMux :: "link \<Rightarrow> mux" where
  "newProxyMux l =
     \<lparr>mx_link = l, mx_pending = Map.empty, mx_streams = Map.empty, mx_nextID = 0, mx_locals = [],
      mx_reading = True, mx_cancelled = False\<rparr>"

definition upd_local :: "nat \<Rightarrow> (local_conn \<Rightarrow> local_conn) \<Rightarrow> mux \<Rightarrow> mux" where
  "upd_local k f m = m\<lparr>mx_locals := (mx_locals m)[k := f (mx_locals m ! k)]\<rparr>"

definition mux_writeFrame :: "byte \<Rightarrow> bytes \<Rightarrow> mux \<Rightarrow> mux \<times> frame_error option" where
  "mux_writeFrame t p m = (let (l, e) = link_send t p (mx_link m) in (m\<lparr>mx_link := l\<rparr>, e))"

text \<open>The deferred \<open>localConn.Close()\<close> and the end of the goroutine.\<close>

definition finish_local :: "nat \<Rightarrow> mux \<Rightarrow> mux" where
  "finish_local k = upd_local k (\<lambda>c. c\<lparr>lc_phase := Finished, lc_closed := True\<rparr>)"

section \<open>Dialing\<close>

text \<open>A local connection is accepted: \<open>handleLocalConn\<close> and \<open>dialRemote\<close> up to its \<open>select\<close>.\<close>

definition accept_local :: "ForwardRule \<Rightarrow> mux \<Rightarrow> mux" where
  "accept_local rule m =
     (let sid = mx_nextID m + 1;
          k = length (mx_locals m);
          c = \<lparr>lc_id = sid, lc_phase = Dialing None, lc_out = [], lc_closed = False\<rparr>;
          req = \<lparr>pd_StreamID = sid, pd_Host = fr_RemoteHost rule, pd_Port = word_of_int (fr_RemotePort rule)\<rparr>;
          m1 = m\<lparr>mx_nextID := sid, mx_locals := mx_locals m @ [c], mx_pending := (mx_pending m)(sid \<mapsto> k)\<rparr>
      in case mux_writeFrame TypeProxyDial (Encode (json_ProxyDialRequest req)) m1 of
           (m2, None) \<Rightarrow> m2
         | (m2, Some e) \<Rightarrow> finish_local k (m2\<lparr>mx_pending := map_delete sid (mx_pending m2)\<rparr>))"

text \<open>The three cases of the \<open>select\<close>: the answer (on success the stream is registered), the
  timeout, the end of the connection.\<close>

definition dial_answered :: "nat \<Rightarrow> mux \<Rightarrow> mux" where
  "dial_answered k m =
     (case lc_phase (mx_locals m ! k) of
        Dialing (Some DialOK) \<Rightarrow>
          (upd_local k (\<lambda>c. c\<lparr>lc_phase := Streaming\<rparr>) m)
            \<lparr>mx_streams := (mx_streams m)(lc_id (mx_locals m ! k) \<mapsto> k)\<rparr>
      | Dialing (Some (DialRefused e)) \<Rightarrow> finish_local k m
      | _ \<Rightarrow> m)"

definition dial_timeout :: "nat \<Rightarrow> mux \<Rightarrow> mux" where
  "dial_timeout k m =
     (case lc_phase (mx_locals m ! k) of
        Dialing a \<Rightarrow>
          (let sid = lc_id (mx_locals m ! k);
               m1 = m\<lparr>mx_pending := map_delete sid (mx_pending m)\<rparr>
           in finish_local k (fst (mux_writeFrame TypeProxyClose (be_put32 sid) m1)))
      | _ \<Rightarrow> m)"

definition dial_cancelled :: "nat \<Rightarrow> mux \<Rightarrow> mux" where
  "dial_cancelled k m =
     (case lc_phase (mx_locals m ! k) of
        Dialing a \<Rightarrow> if mx_cancelled m then finish_local k m else m
      | _ \<Rightarrow> m)"

section \<open>The read loop\<close>

definition answer_dial :: "32 word \<Rightarrow> dial_answer \<Rightarrow> mux \<Rightarrow> mux" where
  "answer_dial sid a m =
     (let m1 = m\<lparr>mx_pending := map_delete sid (mx_pending m)\<rparr>
      in case mx_pending m sid of
           None \<Rightarrow> m1
         | Some k \<Rightarrow>
             upd_local k (\<lambda>c. case lc_phase c of Dialing x \<Rightarrow> c\<lparr>lc_phase := Dialing (Some a)\<rparr> | _ \<Rightarrow> c) m1)"

definition mux_data :: "bytes \<Rightarrow> mux \<Rightarrow> mux" where
  "mux_data payload m =
     (if length payload < 4 then m
      else case mx_streams m (be_get32 (take 4 payload)) of
             None \<Rightarrow> m
           | Some k \<Rightarrow>
               if drop 4 payload = [] \<or> lc_closed (mx_locals m ! k) then m
               else upd_local k (\<lambda>c. c\<lparr>lc_out := lc_out c @ drop 4 payload\<rparr>) m)"

definition mux_close :: "bytes \<Rightarrow> mux \<Rightarrow> mux" where
  "mux_close payload m =
     (if length payload < 4 then m
      else let sid = be_get32 (take 4 payload);
               m1 = m\<lparr>mx_streams := map_delete sid (mx_streams m)\<rparr>
           in case mx_streams m sid of
                None \<Rightarrow> m1
              | Some k \<Rightarrow> upd_local k (\<lambda>c. c\<lparr>lc_closed := True\<rparr>) m1)"

definition stop_reading :: "mux \<Rightarrow> mux" where
  "stop_reading m = m\<lparr>mx_reading := False, mx_cancelled := True\<rparr>"

definition mux_frame :: "byte \<times> bytes \<Rightarrow> mux \<Rightarrow> mux" where
  "mux_frame f m =
     (case f of (msgType, payload) \<Rightarrow>
        if msgType = TypeProxyOK then
          (case decode_ProxyDialOK payload of Inl u \<Rightarrow> m | Inr ok \<Rightarrow> answer_dial (po_StreamID ok) DialOK m)
        else if msgType = TypeProxyFail then
          (case decode_ProxyDialFail payload of
             Inl u \<Rightarrow> m | Inr fail \<Rightarrow> answer_dial (pf_StreamID fail) (DialRefused (pf_Reason fail)) m)
        else if msgType = TypeProxyData then mux_data payload m
        else if msgType = TypeProxyClose then mux_close payload m
        else if msgType = TypePing then fst (mux_writeFrame TypePong [] m)
        else if msgType = TypeDisconnect then stop_reading m
        else m)"

definition readLoop_step :: "mux \<Rightarrow> mux" where
  "readLoop_step m =
     (if \<not> mx_reading m then m
      else case link_recv (mx_link m) of
             (Inl e, l) \<Rightarrow> stop_reading (m\<lparr>mx_link := l\<rparr>)
           | (Inr f, l) \<Rightarrow> mux_frame f (m\<lparr>mx_link := l\<rparr>))"

section \<open>Streaming\<close>

text \<open>The deferred function of a stream, and one \<open>Read\<close> of its local connection: the bytes read and
  whether it also failed. A connection that was closed only fails.\<close>

definition stream_done :: "nat \<Rightarrow> mux \<Rightarrow> mux" where
  "stream_done k m =
     (let sid = lc_id (mx_locals m ! k);
          m1 = m\<lparr>mx_streams := map_delete sid (mx_streams m)\<rparr>
      in finish_local k (fst (mux_writeFrame TypeProxyClose (be_put32 sid) m1)))"

definition local_read :: "nat \<Rightarrow> bytes \<Rightarrow> bool \<Rightarrow> mux \<Rightarrow> mux" where
  "local_read k chunk failed m =
     (case lc_phase (mx_locals m ! k) of
        Streaming \<Rightarrow>
          if lc_closed (mx_locals m ! k) \<or> chunk = [] then
            (if failed \<or> lc_closed (mx_locals m ! k) then stream_done k m else m)
          else (case mux_writeFrame TypeProxyData (be_put32 (lc_id (mx_locals m ! k)) @ chunk) m of
                  (m1, Some e) \<Rightarrow> stream_done k m1
                | (m1, None) \<Rightarrow> if failed then stream_done k m1 else m1)
      | _ \<Rightarrow> m)"

section \<open>Runs\<close>

datatype mux_event =
    AcceptLocal ForwardRule
  | DialAnswered nat
  | DialTimeout nat
  | DialCancelled nat
  | ReadFrameEvent
  | LocalRead nat bytes bool
  | PingTick
  | ProbeTick duration

fun mux_step :: "mux_event \<Rightarrow> mux \<Rightarrow> mux" where
  "mux_step (AcceptLocal rule) m = accept_local rule m"
| "mux_step (DialAnswered k) m = (if k < length (mx_locals m) then dial_answered k m else m)"
| "mux_step (DialTimeout k) m = (if k < length (mx_locals m) then dial_timeout k m else m)"
| "mux_step (DialCancelled k) m = (if k < length (mx_locals m) then dial_cancelled k m else m)"
| "mux_step ReadFrameEvent m = readLoop_step m"
| "mux_step (LocalRead k chunk failed) m = (if k < length (mx_locals m) then local_read k chunk failed m else m)"
| "mux_step PingTick m = fst (mux_writeFrame TypePing [] m)"
| "mux_step (ProbeTick gap) m =
     (if seconds 20 < gap
      then (case mux_writeFrame TypePing [] m of (m1, None) \<Rightarrow> m1 | (m1, Some e) \<Rightarrow> m1\<lparr>mx_cancelled := True\<rparr>)
      else m)"

definition mux_run :: "mux_event list \<Rightarrow> mux \<Rightarrow> mux" where
  "mux_run es m = foldl (\<lambda>m e. mux_step e m) m es"

text \<open>The local listeners of \<open>ConnectProxy\<close>, opened in order; \<open>bind\<close> is the error of a port. When one
  fails the ones opened before are closed.\<close>

fun open_listeners :: "(int \<Rightarrow> string option) \<Rightarrow> ForwardRule list \<Rightarrow> int list \<Rightarrow> connect_error + int list" where
  "open_listeners bind [] opened = Inr opened"
| "open_listeners bind (r # rs) opened =
     (case bind (fr_LocalPort r) of
        Some e \<Rightarrow> Inl (ListenLocal (fr_LocalPort r) e)
      | None \<Rightarrow> open_listeners bind rs (opened @ [fr_LocalPort r]))"

definition ConnectProxy_open ::
    "options \<Rightarrow> ForwardRule list \<Rightarrow> (dial_error + link) \<Rightarrow> (int \<Rightarrow> string option) \<Rightarrow> connect_error + mux" where
  "ConnectProxy_open opts rules dialed bind =
     (case dialed of
        Inl e \<Rightarrow> Inl (DialFailed e)
      | Inr l \<Rightarrow>
          (case client_auth (opt_Token opts) ''proxy'' l of
             (Inl e, l1) \<Rightarrow> Inl e
           | (Inr payload, l1) \<Rightarrow>
               (case open_listeners bind rules [] of
                  Inl e \<Rightarrow> Inl e
                | Inr ports \<Rightarrow> Inr (newProxyMux l1))))"

section \<open>Facts\<close>

lemma upd_local_simps [simp]:
  "mx_link (upd_local k f m) = mx_link m" "mx_pending (upd_local k f m) = mx_pending m"
  "mx_streams (upd_local k f m) = mx_streams m" "mx_nextID (upd_local k f m) = mx_nextID m"
  "mx_reading (upd_local k f m) = mx_reading m" "mx_cancelled (upd_local k f m) = mx_cancelled m"
  "length (mx_locals (upd_local k f m)) = length (mx_locals m)"
  by (simp_all add: upd_local_def)

lemma upd_local_at:
  "j < length (mx_locals m) \<Longrightarrow>
     mx_locals (upd_local k f m) ! j = (if j = k then f (mx_locals m ! j) else mx_locals m ! j)"
  by (simp add: upd_local_def nth_list_update)

lemma finish_local_simps [simp]:
  "mx_link (finish_local k m) = mx_link m" "mx_pending (finish_local k m) = mx_pending m"
  "mx_streams (finish_local k m) = mx_streams m" "mx_nextID (finish_local k m) = mx_nextID m"
  "length (mx_locals (finish_local k m)) = length (mx_locals m)"
  by (simp_all add: finish_local_def)

lemma mux_writeFrame_frame:
  "mux_writeFrame t p m = (m', e) \<Longrightarrow> \<exists>l. m' = m\<lparr>mx_link := l\<rparr>"
  by (auto simp: mux_writeFrame_def split: prod.splits)

lemma mux_writeFrame_fst: "\<exists>l. fst (mux_writeFrame t p m) = m\<lparr>mx_link := l\<rparr>"
  by (cases "mux_writeFrame t p m") (auto dest: mux_writeFrame_frame)

text \<open>The well-formed states: the \<open>k\<close>-th connection has id \<open>k + 1\<close>, and an id leads to a connection
  that carries it; a registered stream is streaming.\<close>

definition stream_id :: "nat \<Rightarrow> 32 word" where
  "stream_id k = word_of_nat (Suc k)"

definition mux_wf :: "mux \<Rightarrow> bool" where
  "mux_wf m \<longleftrightarrow>
     mx_nextID m = word_of_nat (length (mx_locals m)) \<and>
     (\<forall>k<length (mx_locals m). lc_id (mx_locals m ! k) = stream_id k) \<and>
     (\<forall>sid k. mx_pending m sid = Some k \<longrightarrow> k < length (mx_locals m) \<and> lc_id (mx_locals m ! k) = sid) \<and>
     (\<forall>sid k. mx_streams m sid = Some k \<longrightarrow>
        k < length (mx_locals m) \<and> lc_id (mx_locals m ! k) = sid \<and> lc_phase (mx_locals m ! k) = Streaming)"

lemma mux_wfD:
  assumes "mux_wf m"
  shows "mx_nextID m = word_of_nat (length (mx_locals m))"
    and "k < length (mx_locals m) \<Longrightarrow> lc_id (mx_locals m ! k) = stream_id k"
    and "mx_pending m sid = Some k \<Longrightarrow> k < length (mx_locals m) \<and> lc_id (mx_locals m ! k) = sid"
    and "mx_streams m sid = Some k \<Longrightarrow>
      k < length (mx_locals m) \<and> lc_id (mx_locals m ! k) = sid \<and> lc_phase (mx_locals m ! k) = Streaming"
  using assms unfolding mux_wf_def by blast+

text \<open>Two steps keep the invariant whatever they do to the rest: a change of the link and the flags,
  and a change of one connection that keeps its id and does not stop a registered stream.\<close>

lemma mux_wf_cong:
  "mux_wf m \<Longrightarrow> mx_nextID m' = mx_nextID m \<Longrightarrow> mx_locals m' = mx_locals m \<Longrightarrow>
     mx_pending m' \<subseteq>\<^sub>m mx_pending m \<Longrightarrow> mx_streams m' \<subseteq>\<^sub>m mx_streams m \<Longrightarrow> mux_wf m'"
  unfolding mux_wf_def map_le_def dom_def by (simp, metis)

lemma mux_wf_local:
  assumes "mux_wf m" and "lc_id (f (mx_locals m ! k)) = lc_id (mx_locals m ! k)"
    and "\<And>sid. mx_streams m sid = Some k \<Longrightarrow> lc_phase (f (mx_locals m ! k)) = Streaming"
  shows "mux_wf (upd_local k f m)"
proof (cases "k < length (mx_locals m)")
  case True
  show ?thesis
    unfolding mux_wf_def
  proof (intro conjI allI impI)
    show "mx_nextID (upd_local k f m) = word_of_nat (length (mx_locals (upd_local k f m)))"
      using mux_wfD(1) [OF assms(1)] by simp
  next
    fix j assume "j < length (mx_locals (upd_local k f m))"
    then show "lc_id (mx_locals (upd_local k f m) ! j) = stream_id j"
      using mux_wfD(2) [OF assms(1), of j] assms(2) by (cases "j = k") (simp_all add: upd_local_at)
  next
    fix sid j assume "mx_pending (upd_local k f m) sid = Some j"
    then show "j < length (mx_locals (upd_local k f m))" "lc_id (mx_locals (upd_local k f m) ! j) = sid"
      using mux_wfD(3) [OF assms(1), of sid j] assms(2) by (auto simp: upd_local_at)
  next
    fix sid j assume s: "mx_streams (upd_local k f m) sid = Some j"
    then show "j < length (mx_locals (upd_local k f m))" "lc_id (mx_locals (upd_local k f m) ! j) = sid"
      "lc_phase (mx_locals (upd_local k f m) ! j) = Streaming"
      using mux_wfD(4) [OF assms(1), of sid j] assms(2,3) by (auto simp: upd_local_at)
  qed
next
  case False
  then have "upd_local k f m = m" by (simp add: upd_local_def list_update_beyond)
  with assms(1) show ?thesis by simp
qed

lemma mux_wf_finish:
  "mux_wf m \<Longrightarrow> (\<And>sid. mx_streams m sid \<noteq> Some k) \<Longrightarrow> mux_wf (finish_local k m)"
  unfolding finish_local_def by (rule mux_wf_local) auto

lemma mux_wf_write:
  assumes "mux_wf m"
  shows "mux_wf (fst (mux_writeFrame t p m))"
proof -
  obtain l where "fst (mux_writeFrame t p m) = m\<lparr>mx_link := l\<rparr>" using mux_writeFrame_fst by blast
  then show ?thesis by (intro mux_wf_cong [OF assms]) simp_all
qed

lemma map_delete_le [simp]: "map_delete k f \<subseteq>\<^sub>m f"
  by (simp add: map_le_def)

lemma mux_wf_accept:
  assumes "mux_wf m"
  shows "mux_wf (accept_local rule m)"
proof -
  let ?n = "length (mx_locals m)"
  let ?sid = "mx_nextID m + 1"
  let ?c = "\<lparr>lc_id = ?sid, lc_phase = Dialing None, lc_out = [], lc_closed = False\<rparr>"
  let ?m1 = "m\<lparr>mx_nextID := ?sid, mx_locals := mx_locals m @ [?c], mx_pending := (mx_pending m)(?sid \<mapsto> ?n)\<rparr>"
  have m1: "mux_wf ?m1"
    unfolding mux_wf_def
  proof (intro conjI allI impI)
    show "mx_nextID ?m1 = word_of_nat (length (mx_locals ?m1))" by (simp add: mux_wfD(1) [OF assms])
  next
    fix j assume "j < length (mx_locals ?m1)"
    then show "lc_id (mx_locals ?m1 ! j) = stream_id j"
      using mux_wfD(2) [OF assms, of j] mux_wfD(1) [OF assms]
      by (auto simp: nth_append less_Suc_eq stream_id_def)
  next
    fix sid j assume "mx_pending ?m1 sid = Some j"
    then show "j < length (mx_locals ?m1)" "lc_id (mx_locals ?m1 ! j) = sid"
      using mux_wfD(3) [OF assms, of sid j] by (auto simp: nth_append split: if_splits)
  next
    fix sid j assume "mx_streams ?m1 sid = Some j"
    then show "j < length (mx_locals ?m1)" "lc_id (mx_locals ?m1 ! j) = sid"
      "lc_phase (mx_locals ?m1 ! j) = Streaming"
      using mux_wfD(4) [OF assms, of sid j] by (auto simp: nth_append)
  qed
  have new: "mx_streams ?m1 sid \<noteq> Some ?n" for sid using mux_wfD(4) [OF assms, of sid ?n] by auto
  obtain m2 e where w: "mux_writeFrame TypeProxyDial
      (Encode (json_ProxyDialRequest \<lparr>pd_StreamID = ?sid, pd_Host = fr_RemoteHost rule,
         pd_Port = word_of_int (fr_RemotePort rule)\<rparr>)) ?m1 = (m2, e)" by fastforce
  then obtain l where m2: "m2 = ?m1\<lparr>mx_link := l\<rparr>" using mux_writeFrame_frame by blast
  have wf2: "mux_wf m2" by (rule mux_wf_cong [OF m1]) (simp_all add: m2)
  have "mux_wf (m2\<lparr>mx_pending := map_delete ?sid (mx_pending m2)\<rparr>)"
    by (rule mux_wf_cong [OF wf2]) simp_all
  then have "mux_wf (finish_local ?n (m2\<lparr>mx_pending := map_delete ?sid (mx_pending m2)\<rparr>))"
    by (rule mux_wf_finish) (use new m2 in simp)
  with w wf2 show ?thesis by (simp add: accept_local_def Let_def split: option.splits)
qed

lemma mux_wf_stream_done:
  assumes "mux_wf m" and "k < length (mx_locals m)"
  shows "mux_wf (stream_done k m)"
proof -
  let ?sid = "lc_id (mx_locals m ! k)"
  let ?m1 = "m\<lparr>mx_streams := map_delete ?sid (mx_streams m)\<rparr>"
  have "mux_wf ?m1" by (rule mux_wf_cong [OF assms(1)]) simp_all
  then have "mux_wf (fst (mux_writeFrame TypeProxyClose (be_put32 ?sid) ?m1))" by (rule mux_wf_write)
  moreover obtain l where "fst (mux_writeFrame TypeProxyClose (be_put32 ?sid) ?m1) = ?m1\<lparr>mx_link := l\<rparr>"
    using mux_writeFrame_fst by blast
  moreover have "mx_streams ?m1 s \<noteq> Some k" for s
    using mux_wfD(4) [OF assms(1), of s k] by auto
  ultimately show ?thesis by (simp add: stream_done_def mux_wf_finish)
qed

lemma streaming_only:
  "mux_wf m \<Longrightarrow> lc_phase (mx_locals m ! k) \<noteq> Streaming \<Longrightarrow> mx_streams m sid \<noteq> Some k"
  using mux_wfD(4) [of m sid k] by auto

lemma mux_wf_answered:
  assumes "mux_wf m" and k: "k < length (mx_locals m)"
  shows "mux_wf (dial_answered k m)"
proof (cases "lc_phase (mx_locals m ! k)")
  case (Dialing a)
  with streaming_only [OF assms(1), of k] have free: "\<And>sid. mx_streams m sid \<noteq> Some k" by simp
  then have fin: "mux_wf (finish_local k m)" by (rule mux_wf_finish [OF assms(1)])
  let ?m1 = "upd_local k (\<lambda>c. c\<lparr>lc_phase := Streaming\<rparr>) m"
  let ?m2 = "?m1\<lparr>mx_streams := (mx_streams m)(lc_id (mx_locals m ! k) \<mapsto> k)\<rparr>"
  have m1: "mux_wf ?m1" by (rule mux_wf_local [OF assms(1)]) simp_all
  have "mux_wf ?m2"
    unfolding mux_wf_def
  proof (intro conjI allI impI)
    fix sid j assume s: "mx_streams ?m2 sid = Some j"
    then show "j < length (mx_locals ?m2)" "lc_id (mx_locals ?m2 ! j) = sid" "lc_phase (mx_locals ?m2 ! j) = Streaming"
      using mux_wfD(4) [OF m1, of sid j] k by (auto simp: upd_local_at split: if_splits)
  next
    fix sid j assume "mx_pending ?m2 sid = Some j"
    then show "j < length (mx_locals ?m2)" "lc_id (mx_locals ?m2 ! j) = sid"
      using mux_wfD(3) [OF m1, of sid j] by simp_all
  next
    fix j assume "j < length (mx_locals ?m2)"
    then show "lc_id (mx_locals ?m2 ! j) = stream_id j" using mux_wfD(2) [OF m1, of j] by simp
  qed (use mux_wfD(1) [OF m1] in simp)
  with assms(1) fin Dialing show ?thesis
    by (auto simp: dial_answered_def split: option.splits dial_answer.splits)
qed (use assms in \<open>simp_all add: dial_answered_def\<close>)

lemma mux_wf_timeout:
  assumes "mux_wf m"
  shows "mux_wf (dial_timeout k m)"
proof (cases "lc_phase (mx_locals m ! k)")
  case (Dialing a)
  let ?sid = "lc_id (mx_locals m ! k)"
  let ?m1 = "m\<lparr>mx_pending := map_delete ?sid (mx_pending m)\<rparr>"
  have "mux_wf ?m1" by (rule mux_wf_cong [OF assms]) simp_all
  from mux_wf_write [OF this] have "mux_wf (fst (mux_writeFrame TypeProxyClose (be_put32 ?sid) ?m1))" .
  moreover obtain l where "fst (mux_writeFrame TypeProxyClose (be_put32 ?sid) ?m1) = ?m1\<lparr>mx_link := l\<rparr>"
    using mux_writeFrame_fst by blast
  ultimately show ?thesis
    using Dialing streaming_only [OF assms, of k] by (simp add: dial_timeout_def mux_wf_finish)
qed (use assms in \<open>simp_all add: dial_timeout_def\<close>)

lemma mux_wf_cancelled: "mux_wf m \<Longrightarrow> mux_wf (dial_cancelled k m)"
  using streaming_only [of m k] by (auto simp: dial_cancelled_def mux_wf_finish split: local_phase.splits)

lemma mux_wf_answer:
  assumes "mux_wf m"
  shows "mux_wf (answer_dial sid a m)"
proof -
  let ?m1 = "m\<lparr>mx_pending := map_delete sid (mx_pending m)\<rparr>"
  have m1: "mux_wf ?m1" by (rule mux_wf_cong [OF assms]) simp_all
  have "mux_wf (upd_local k (\<lambda>c. case lc_phase c of Dialing x \<Rightarrow> c\<lparr>lc_phase := Dialing (Some a)\<rparr> | _ \<Rightarrow> c) ?m1)" for k
    using mux_wfD(4) [OF assms, of _ k] by (intro mux_wf_local [OF m1]) (auto split: local_phase.splits)
  with m1 show ?thesis by (cases "mx_pending m sid") (simp_all only: answer_dial_def Let_def option.case)
qed

lemma mux_wf_data: "mux_wf m \<Longrightarrow> mux_wf (mux_data payload m)"
  using mux_wfD(4) [of m] by (auto simp: mux_data_def split: option.splits intro!: mux_wf_local)

lemma mux_wf_close:
  assumes "mux_wf m"
  shows "mux_wf (mux_close payload m)"
proof -
  have m1: "mux_wf (m\<lparr>mx_streams := map_delete sid (mx_streams m)\<rparr>)" for sid
    by (rule mux_wf_cong [OF assms]) simp_all
  have "mux_wf (upd_local k (\<lambda>c. c\<lparr>lc_closed := True\<rparr>) (m\<lparr>mx_streams := map_delete sid (mx_streams m)\<rparr>))" for k sid
    using mux_wfD(4) [OF assms, of _ k] by (intro mux_wf_local [OF m1]) (auto split: if_splits)
  with assms m1 show ?thesis by (simp add: mux_close_def Let_def split: option.splits)
qed

lemma mux_wf_stop: "mux_wf m \<Longrightarrow> mux_wf (stop_reading m)"
  unfolding stop_reading_def by (rule mux_wf_cong [of m]) simp_all

lemma mux_wf_frame: "mux_wf m \<Longrightarrow> mux_wf (mux_frame f m)"
  by (cases f) (simp add: mux_frame_def mux_wf_answer mux_wf_data mux_wf_close mux_wf_write mux_wf_stop split: sum.splits)

lemma mux_wf_readLoop:
  assumes "mux_wf m"
  shows "mux_wf (readLoop_step m)"
proof -
  have "mux_wf (m\<lparr>mx_link := l\<rparr>)" for l by (rule mux_wf_cong [OF assms]) simp_all
  with assms show ?thesis
    by (auto simp: readLoop_step_def mux_wf_stop mux_wf_frame split: prod.splits sum.splits)
qed

lemma mux_wf_read:
  assumes "mux_wf m" and "k < length (mx_locals m)"
  shows "mux_wf (local_read k chunk failed m)"
proof -
  let ?p = "be_put32 (lc_id (mx_locals m ! k)) @ chunk"
  obtain m1 e where w: "mux_writeFrame TypeProxyData ?p m = (m1, e)" by fastforce
  have "mux_wf m1" using mux_wf_write [OF assms(1), of TypeProxyData ?p] w by simp
  moreover have "length (mx_locals m1) = length (mx_locals m)" using mux_writeFrame_frame [OF w] by auto
  ultimately show ?thesis using assms w
    by (simp add: local_read_def mux_wf_stream_done split: local_phase.splits option.splits)
qed

lemma mux_wf_step:
  assumes "mux_wf m"
  shows "mux_wf (mux_step e m)"
proof (cases e)
  case (ProbeTick gap)
  obtain m1 x where w: "mux_writeFrame TypePing [] m = (m1, x)" by fastforce
  have m1: "mux_wf m1" using mux_wf_write [OF assms, of TypePing "[]"] w by simp
  then have "mux_wf (m1\<lparr>mx_cancelled := True\<rparr>)" by (rule mux_wf_cong) simp_all
  with assms m1 w ProbeTick show ?thesis by (simp split: option.splits)
qed (use assms in \<open>simp_all add: mux_wf_accept mux_wf_answered mux_wf_timeout mux_wf_cancelled mux_wf_readLoop
  mux_wf_read mux_wf_write\<close>)

lemma mux_wf_run: "mux_wf (mux_run es (newProxyMux l))"
proof (induction es rule: rev_induct)
  case Nil
  show ?case by (simp add: mux_run_def newProxyMux_def mux_wf_def)
next
  case (snoc e es)
  then show ?case using mux_wf_step by (simp add: mux_run_def)
qed

lemma stream_id_inject:
  assumes "j < 2 ^ 32 - 1" and "k < 2 ^ 32 - 1"
  shows "stream_id j = stream_id k \<longleftrightarrow> j = k"
proof -
  have "unat (stream_id i) = Suc i" if "i < 2 ^ 32 - 1" for i
    using that unfolding stream_id_def unsigned_of_nat take_bit_eq_mod by simp
  with assms show ?thesis by (metis Suc_inject)
qed

lemma local_read_sends:
  assumes "lc_phase (mx_locals m ! k) = Streaming" and "\<not> lc_closed (mx_locals m ! k)" and "chunk \<noteq> []"
    and "wr_fail (lk_wr (mx_link m)) = None" and "\<not> lk_closed (mx_link m)" and "length chunk \<le> proxyBufSize"
  shows "wr_out (lk_wr (mx_link (local_read k chunk False m))) = wr_out (lk_wr (mx_link m)) @
    frame_bytes TypeProxyData (be_put32 (lc_id (mx_locals m ! k)) @ chunk)"
proof -
  let ?p = "be_put32 (lc_id (mx_locals m ! k)) @ chunk"
  have "length ?p < maxFrameSize" using assms(6) by (simp add: proxyBufSize_def maxFrameSize_def)
  from WriteFrame_ok [OF assms(4) this, of TypeProxyData] assms(1-3,5) show ?thesis
    by (simp add: local_read_def mux_writeFrame_def link_send_def)
qed

section \<open>Properties\<close>

text \<open>C12: streams are kept apart. In every run with fewer than \<open>2 ^ 32 - 1\<close> local connections the ids are
  distinct, and a data frame adds its bytes to the local connection whose id it carries, if that one
  is streaming, and changes no other connection's output.\<close>

theorem proxy_streams_are_separate:
  assumes "m = mux_run es (newProxyMux l)" and "length (mx_locals m) < 2 ^ 32 - 1"
    and "j < length (mx_locals m)" and "k < length (mx_locals m)"
  shows "(lc_id (mx_locals m ! j) = lc_id (mx_locals m ! k) \<longleftrightarrow> j = k) \<and>
    lc_out (mx_locals (mux_data (be_put32 (lc_id (mx_locals m ! j)) @ d) m) ! k) =
      lc_out (mx_locals m ! k) @
      (if k = j \<and> mx_streams m (lc_id (mx_locals m ! j)) = Some j \<and> \<not> lc_closed (mx_locals m ! j) then d else [])"
proof -
  have wf: "mux_wf m" using assms(1) mux_wf_run by simp
  have ids: "lc_id (mx_locals m ! j) = lc_id (mx_locals m ! k) \<longleftrightarrow> j = k"
    using mux_wfD(2) [OF wf, of j] mux_wfD(2) [OF wf, of k] stream_id_inject [of j k] assms(2-4) by simp
  moreover have "i = j" if "mx_streams m (lc_id (mx_locals m ! j)) = Some i" for i
  proof -
    from mux_wfD(4) [OF wf that] have "i < length (mx_locals m)" "lc_id (mx_locals m ! i) = lc_id (mx_locals m ! j)" by auto
    then show ?thesis
      using mux_wfD(2) [OF wf, of i] mux_wfD(2) [OF wf, of j] stream_id_inject [of i j] assms(2,3) by simp
  qed
  ultimately show ?thesis
    using assms(3,4) by (auto simp: mux_data_def upd_local_at split: option.splits)
qed

definition lab_mux_link :: "bytes \<Rightarrow> link" where
  "lab_mux_link b = \<lparr>lk_rd = \<lparr>rd_buf = b, rd_end = EOF\<rparr>, lk_wr = \<lparr>wr_out = [], wr_fail = None\<rparr>, lk_closed = False\<rparr>"

definition lab_rule :: ForwardRule where
  "lab_rule = \<lparr>fr_LocalPort = 15432, fr_RemoteHost = ''10.8.0.1'', fr_RemotePort = 5432\<rparr>"

definition lab_dialing :: "link \<Rightarrow> mux" where
  "lab_dialing l =
     \<lparr>mx_link = l, mx_pending = [1 \<mapsto> 0], mx_streams = Map.empty, mx_nextID = 1,
      mx_locals = [\<lparr>lc_id = 1, lc_phase = Dialing None, lc_out = [], lc_closed = False\<rparr>],
      mx_reading = True, mx_cancelled = False\<rparr>"

lemma lab_accept: "\<exists>l. mux_run [AcceptLocal lab_rule] (newProxyMux (lab_mux_link b)) = lab_dialing l \<and>
    lk_rd l = \<lparr>rd_buf = b, rd_end = EOF\<rparr> \<and> \<not> lk_closed l"
proof -
  let ?req = "Encode (json_ProxyDialRequest \<lparr>pd_StreamID = 1, pd_Host = ''10.8.0.1'', pd_Port = word_of_int 5432\<rparr>)"
  have "json_ProxyDialRequest \<lparr>pd_StreamID = 1, pd_Host = ''10.8.0.1'', pd_Port = word_of_int 5432\<rparr> =
      JObj [(''stream_id'', JNum ''1''), (''host'', JStr ''10.8.0.1''), (''port'', JNum ''5432'')]"
    by (simp add: json_ProxyDialRequest_def json_word_def decimals)
  moreover have "length (Encode (JObj [(''stream_id'', JNum ''1''), (''host'', JStr ''10.8.0.1''), (''port'', JNum ''5432'')])) < 200"
    by code_simp
  ultimately have "length ?req < 200" by simp
  then have "length ?req < maxFrameSize" by (simp add: maxFrameSize_def)
  then obtain l where "link_send TypeProxyDial ?req (lab_mux_link b) = (l, None)"
    and "lk_rd l = \<lparr>rd_buf = b, rd_end = EOF\<rparr>" "\<not> lk_closed l"
    by (simp add: link_send_def lab_mux_link_def WriteFrame_ok)
  then show ?thesis
    by (auto simp: mux_run_def accept_local_def mux_writeFrame_def newProxyMux_def lab_rule_def lab_dialing_def)
qed

lemma accept_local_length: "length (mx_locals (accept_local rule m)) = Suc (length (mx_locals m))"
  by (auto simp: accept_local_def Let_def split: prod.splits option.splits dest!: mux_writeFrame_frame)

theorem proxy_streams_are_separate_witness:
  "let m = mux_run [AcceptLocal lab_rule, AcceptLocal lab_rule] (newProxyMux (lab_mux_link []))
   in lc_id (mx_locals m ! 0) \<noteq> lc_id (mx_locals m ! 1) \<and>
      lc_out (mx_locals (mux_data (be_put32 (lc_id (mx_locals m ! 0)) @ [1, 2]) m) ! 1) = lc_out (mx_locals m ! 1)"
proof -
  let ?es = "[AcceptLocal lab_rule, AcceptLocal lab_rule]"
  let ?l = "lab_mux_link []"
  have "length (mx_locals (mux_run ?es (newProxyMux ?l))) = 2"
    by (simp add: mux_run_def accept_local_length) (simp add: newProxyMux_def)
  then show ?thesis using proxy_streams_are_separate [OF refl, of ?es ?l 0 1 "[1, 2]"] by (simp add: Let_def)
qed



text \<open>Bytes a server sends right after it opened a stream can be lost: the read loop handles the
  \<open>PROXY_OK\<close> and the data frame behind it before the goroutine of the local connection has
  registered the stream. The stream then comes up without them.\<close>

theorem early_proxy_data_is_lost:
  assumes "mx_reading m" and "\<not> lk_closed (mx_link m)"
    and "mx_pending m sid = Some k" and "k < length (mx_locals m)" and "mx_streams m sid = None"
    and "lc_phase (mx_locals m ! k) = Dialing None" and "lc_id (mx_locals m ! k) = sid"
    and "rd_buf (lk_rd (mx_link m)) =
      frame_bytes TypeProxyOK (Encode (json_ProxyDialOK \<lparr>po_StreamID = sid\<rparr>)) @
      frame_bytes TypeProxyData (be_put32 sid @ d) @ rest"
    and "length d \<le> proxyBufSize" and "length (Encode (json_ProxyDialOK \<lparr>po_StreamID = sid\<rparr>)) < maxFrameSize"
  shows "let m' = mux_run [ReadFrameEvent, ReadFrameEvent, DialAnswered k] m
    in mx_streams m' sid = Some k \<and> lc_phase (mx_locals m' ! k) = Streaming \<and>
       lc_out (mx_locals m' ! k) = lc_out (mx_locals m ! k) \<and> rd_buf (lk_rd (mx_link m')) = rest"
proof -
  let ?ok = "Encode (json_ProxyDialOK \<lparr>po_StreamID = sid\<rparr>)"
  let ?d = "be_put32 sid @ d"
  let ?l1 = "(mx_link m)\<lparr>lk_rd := (lk_rd (mx_link m))\<lparr>rd_buf := frame_bytes TypeProxyData ?d @ rest\<rparr>\<rparr>"
  let ?l2 = "?l1\<lparr>lk_rd := (lk_rd ?l1)\<lparr>rd_buf := rest\<rparr>\<rparr>"
  let ?f = "\<lambda>c. case lc_phase c of Dialing x \<Rightarrow> c\<lparr>lc_phase := Dialing (Some DialOK)\<rparr> | _ \<Rightarrow> c"
  let ?m1 = "upd_local k ?f (m\<lparr>mx_link := ?l1, mx_pending := map_delete sid (mx_pending m)\<rparr>)"
  have t: "TypeProxyData \<noteq> TypeProxyOK" "TypeProxyData \<noteq> TypeProxyFail" by (simp_all add: frame_types)
  have "ReadFrame (lk_rd (mx_link m)) = (Inr (TypeProxyOK, ?ok), lk_rd ?l1)"
    using ReadFrame_frame_bytes [OF assms(10) assms(8)] by simp
  then have "link_recv (mx_link m) = (Inr (TypeProxyOK, ?ok), ?l1)" using assms(2) by (simp add: link_recv_def)
  then have s1: "readLoop_step m = ?m1"
    using assms(1,3) by (simp add: readLoop_step_def mux_frame_def decode_encode_ProxyDialOK answer_dial_def)
  have "length ?d < maxFrameSize" using assms(9) by (simp add: proxyBufSize_def maxFrameSize_def)
  from ReadFrame_frame_bytes [OF this, of "lk_rd ?l1"] have "ReadFrame (lk_rd ?l1) = (Inr (TypeProxyData, ?d), lk_rd ?l2)"
    by simp
  then have "link_recv ?l1 = (Inr (TypeProxyData, ?d), ?l2)" using assms(2) by (simp add: link_recv_def)
  then have s2: "readLoop_step ?m1 = ?m1\<lparr>mx_link := ?l2\<rparr>"
    using assms(1,5) t by (simp add: readLoop_step_def mux_frame_def mux_data_def)
  have run: "mux_run [ReadFrameEvent, ReadFrameEvent, DialAnswered k] m = dial_answered k (?m1\<lparr>mx_link := ?l2\<rparr>)"
    using assms(4) by (simp add: mux_run_def s1 s2)
  from assms(4,6,7) show ?thesis
    by (simp add: run dial_answered_def upd_local_def Let_def)
qed

theorem early_proxy_data_is_lost_witness:
  "let ok = frame_bytes TypeProxyOK (Encode (json_ProxyDialOK \<lparr>po_StreamID = 1\<rparr>));
       m = mux_run [AcceptLocal lab_rule] (newProxyMux (lab_mux_link (ok @ frame_bytes TypeProxyData (be_put32 1 @ [72, 105]))));
       m' = mux_run [ReadFrameEvent, ReadFrameEvent, DialAnswered 0] m
   in mx_streams m' 1 = Some 0 \<and> lc_out (mx_locals m' ! 0) = []"
proof -
  let ?ok = "Encode (json_ProxyDialOK \<lparr>po_StreamID = 1\<rparr>)"
  let ?b = "frame_bytes TypeProxyOK ?ok @ frame_bytes TypeProxyData (be_put32 1 @ [72, 105])"
  from lab_accept [of ?b] obtain l where run: "mux_run [AcceptLocal lab_rule] (newProxyMux (lab_mux_link ?b)) = lab_dialing l"
    and l: "lk_rd l = \<lparr>rd_buf = ?b, rd_end = EOF\<rparr>" "\<not> lk_closed l" by blast
  have "json_ProxyDialOK \<lparr>po_StreamID = 1\<rparr> = JObj [(''stream_id'', JNum ''1'')]"
    by (simp add: json_ProxyDialOK_def json_word_def decimals)
  moreover have "length (Encode (JObj [(''stream_id'', JNum ''1'')])) < 200" by code_simp
  ultimately have fits: "length ?ok < maxFrameSize" by (simp add: maxFrameSize_def)
  have buf: "rd_buf (lk_rd (mx_link (lab_dialing l))) =
      frame_bytes TypeProxyOK ?ok @ frame_bytes TypeProxyData (be_put32 1 @ [72, 105]) @ []"
    using l(1) by (simp add: lab_dialing_def)
  have m: "mx_reading (lab_dialing l)" "\<not> lk_closed (mx_link (lab_dialing l))" "mx_pending (lab_dialing l) 1 = Some 0"
    "0 < length (mx_locals (lab_dialing l))" "mx_streams (lab_dialing l) 1 = None"
    "lc_phase (mx_locals (lab_dialing l) ! 0) = Dialing None" "lc_id (mx_locals (lab_dialing l) ! 0) = 1"
    "length [72::byte, 105] \<le> proxyBufSize" "lc_out (mx_locals (lab_dialing l) ! 0) = []"
    using l(2) by (simp_all add: lab_dialing_def proxyBufSize_def)
  from early_proxy_data_is_lost [OF m(1-7) buf m(8) fits] m(9)
  show ?thesis unfolding Let_def run by simp
qed

end
