(* ===== verification/Install.thy ===== *)
theory Install
  imports Server Tofu
begin

text \<open>
  Setting up a server: \<open>internal/server/install.go\<close>. \<open>Install\<close> is the sequence of its steps over the
  file system; what the crypto library makes (a key, a serial number, the certificate for a
  template), the addresses the web services report, the random bytes and the environment are
  arguments, and so are the two YAML codecs. The PEM text of a certificate is computed.
\<close>

section \<open>Files\<close>

definition ConfigDir :: string where "ConfigDir = ''/etc/auth-vpn''"
definition TLSDir :: string where "TLSDir = ''/etc/auth-vpn/tls''"
definition CertFile :: string where "CertFile = ''/etc/auth-vpn/tls/cert.pem''"
definition KeyFile :: string where "KeyFile = ''/etc/auth-vpn/tls/key.pem''"
definition saDir :: string where "saDir = ''/var/run/secrets/kubernetes.io/serviceaccount''"
definition ServiceFile :: string where "ServiceFile = ''/etc/systemd/system/auth-vpn.service''"

lemmas file_names = CertFile_def KeyFile_def ServiceFile_def TokensFile_def ServerConfigFile_def ACLFile_def

text \<open>\<open>os.Stat\<close>: \<open>None\<close> when the file is there; \<open>stat_fails\<close> are the failures other than its absence.\<close>

definition Stat :: "(string \<Rightarrow> os_error option) \<Rightarrow> filesys \<Rightarrow> string \<Rightarrow> os_error option" where
  "Stat stat_fails fs p =
     (case stat_fails p of
        Some e \<Rightarrow> Some e
      | None \<Rightarrow> if files fs p = None then Some ErrNotExist else None)"

definition nl :: char where "nl = CHR 0x0A"

definition unlines :: "string list \<Rightarrow> string" where
  "unlines ls = concat (map (\<lambda>l. l @ [nl]) ls)"

section \<open>The certificate\<close>

fun chunks64 :: "string \<Rightarrow> string list" where
  "chunks64 s = (if s = [] then [] else take 64 s # chunks64 (drop 64 s))"

declare chunks64.simps [simp del]

definition pem_text :: "string \<Rightarrow> bytes \<Rightarrow> string" where
  "pem_text kind der =
     unlines ((''-----BEGIN '' @ kind @ ''-----'') # chunks64 (base64 der) @ [''-----END '' @ kind @ ''-----''])"

record cert_template =
  ct_SerialNumber :: nat
  ct_Organization :: "string list"
  ct_NotBefore :: instant
  ct_NotAfter :: instant
  ct_IPAddresses :: "ip list"
  ct_DNSNames :: "string list"

text \<open>What \<open>crypto\<close> delivers: a key, a serial number, the certificate of a template, the encoding of
  the key.\<close>

record cert_env =
  ck_now :: instant
  ck_key :: "string + string"
  ck_serial :: "string + nat"
  ck_create :: "cert_template \<Rightarrow> string \<Rightarrow> string + bytes"
  ck_keyDER :: "string \<Rightarrow> string + bytes"

definition hours :: "int \<Rightarrow> duration" where "hours n = n * 3600 * 1000000000"

definition cert_template_for :: "instant \<Rightarrow> nat \<Rightarrow> string \<Rightarrow> cert_template" where
  "cert_template_for now serial host =
     \<lparr>ct_SerialNumber = serial, ct_Organization = [''auth-vpn''], ct_NotBefore = now - hours 1,
      ct_NotAfter = now + hours (10 * 365 * 24),
      ct_IPAddresses = (case ParseIP host of Some a \<Rightarrow> [a] | None \<Rightarrow> []),
      ct_DNSNames = (case ParseIP host of Some a \<Rightarrow> [] | None \<Rightarrow> [host])\<rparr>"

datatype cert_error = CertCrypto string | CertFileError os_error

definition generateSelfSignedCert ::
    "cert_env \<Rightarrow> filesys \<Rightarrow> string \<Rightarrow> string \<Rightarrow> string \<Rightarrow> filesys \<times> cert_error option" where
  "generateSelfSignedCert env fs host certPath keyPath =
     (case ck_key env of
        Inl e \<Rightarrow> (fs, Some (CertCrypto e))
      | Inr priv \<Rightarrow>
          (case ck_serial env of
             Inl e \<Rightarrow> (fs, Some (CertCrypto e))
           | Inr serial \<Rightarrow>
               (case ck_create env (cert_template_for (ck_now env) serial host) priv of
                  Inl e \<Rightarrow> (fs, Some (CertCrypto e))
                | Inr certDER \<Rightarrow>
                    (case MkdirAll fs (path_Dir certPath) of
                       Some e \<Rightarrow> (fs, Some (CertFileError e))
                     | None \<Rightarrow>
                         (case WriteFile fs certPath (pem_text ''CERTIFICATE'' certDER) of
                            (fs1, Some e) \<Rightarrow> (fs1, Some (CertFileError e))
                          | (fs1, None) \<Rightarrow>
                              (case ck_keyDER env priv of
                                 Inl e \<Rightarrow> (fs1, Some (CertCrypto e))
                               | Inr keyDER \<Rightarrow>
                                   (let (fs2, e) = WriteFile fs1 keyPath (pem_text ''EC PRIVATE KEY'' keyDER)
                                    in (fs2, map_option CertFileError e))))))))"

section \<open>The other steps\<close>

definition ip_endpoints :: "string list" where
  "ip_endpoints = [''https://api.ipify.org'', ''https://checkip.amazonaws.com'', ''https://icanhazip.com'']"

text \<open>\<open>get\<close>: what the service answers, \<open>None\<close> when the request fails.\<close>

fun first_address :: "(string \<Rightarrow> string option) \<Rightarrow> string list \<Rightarrow> string option" where
  "first_address get [] = None"
| "first_address get (ep # eps) =
     (case get ep of
        None \<Rightarrow> first_address get eps
      | Some body \<Rightarrow> if ParseIP (TrimSpace body) \<noteq> None then Some (TrimSpace body) else first_address get eps)"

definition detectPublicIP :: "(string \<Rightarrow> string option) \<Rightarrow> string option" where
  "detectPublicIP get = first_address get ip_endpoints"

definition generateAPIKey :: "(string + bytes) \<Rightarrow> string + string" where
  "generateAPIKey rnd = (case rnd of Inl e \<Rightarrow> Inl e | Inr b \<Rightarrow> Inr (EncodeToString b))"

definition default_acl :: string where
  "default_acl = unlines [''# auth-vpn ACL rules'', ''# default_policy: allow | deny'', ''default_policy: allow'', [],
     ''# rules:'', ''#   - device: device-name'', ''#     allow:'', ''#       - proto: tcp'', ''#         port: 5432'',
     ''#     deny: []'', ''rules: []'']"

definition writeDefaultACL ::
    "(string \<Rightarrow> os_error option) \<Rightarrow> filesys \<Rightarrow> string \<Rightarrow> filesys \<times> os_error option" where
  "writeDefaultACL stat_fails fs path =
     (if Stat stat_fails fs path = None then (fs, None) else WriteFile fs path default_acl)"

definition systemd_unit :: "string \<Rightarrow> int \<Rightarrow> string" where
  "systemd_unit exe port = unlines [''[Unit]'', ''Description=auth-vpn tunnel server'', ''After=network.target'', [],
     ''[Service]'', ''ExecStart='' @ exe @ '' server start --port '' @ Itoa port, ''Restart=always'', ''RestartSec=5'',
     ''User=root'', [], ''[Install]'', ''WantedBy=multi-user.target'']"

definition WriteSystemdService :: "string \<Rightarrow> filesys \<Rightarrow> int \<Rightarrow> filesys \<times> os_error option" where
  "WriteSystemdService exe fs port = WriteFile fs ServiceFile (systemd_unit exe port)"

record installEnv =
  ie_container :: bool
  ie_k8sNamespace :: string

definition detectInstallEnv ::
    "(string \<Rightarrow> os_error option) \<Rightarrow> (string \<Rightarrow> string) \<Rightarrow> filesys \<Rightarrow> installEnv" where
  "detectInstallEnv stat_fails getenv fs =
     (let marked = list_ex (\<lambda>f. Stat stat_fails fs f = None) [''/.dockerenv'', ''/run/.containerenv'']
      in if getenv ''KUBERNETES_SERVICE_HOST'' = [] then \<lparr>ie_container = marked, ie_k8sNamespace = []\<rparr>
         else \<lparr>ie_container = True,
               ie_k8sNamespace = (case ReadFile fs (saDir @ ''/namespace'') of
                                    Inl e \<Rightarrow> ''default'' | Inr b \<Rightarrow> TrimSpace b)\<rparr>)"

section \<open>Install\<close>

datatype install_error =
    MkdirFailed string os_error
  | CertFailed cert_error
  | TokenManagerFailed token_error
  | InitialTokenFailed token_error
  | APIKeyFailed string

text \<open>What an installation is given; \<open>si_*\<close> are the codecs and the environment.\<close>

record install_env =
  si_stat_fails :: "string \<Rightarrow> os_error option"
  si_get :: "string \<Rightarrow> string option"
  si_cert :: cert_env
  si_token_rnd :: "string + bytes"
  si_key_rnd :: "string + bytes"
  si_tokens_marshal :: marshaller
  si_tokens_unmarshal :: unmarshaller
  si_marshal :: "serverYaml \<Rightarrow> string + string"
  si_unmarshal :: "string \<Rightarrow> string + serverYaml"
  si_getenv :: "string \<Rightarrow> string"
  si_exe :: string

definition existing_token :: string where
  "existing_token = ''<existing '' @ [CHR 0xE2, CHR 0x80, CHR 0x94] @ '' run: auth-vpn server tokens list>''"

definition install_cert :: "install_env \<Rightarrow> filesys \<Rightarrow> string \<Rightarrow> filesys \<times> cert_error option" where
  "install_cert env fs publicIP =
     (if Stat (si_stat_fails env) fs CertFile = Some ErrNotExist
      then generateSelfSignedCert (si_cert env) fs publicIP CertFile KeyFile else (fs, None))"

text \<open>The initial token, unless one called \<open>admin\<close> exists.\<close>

definition install_token :: "install_env \<Rightarrow> filesys \<Rightarrow> filesys \<times> (install_error + string)" where
  "install_token env fs =
     (case NewManager (si_tokens_unmarshal env) fs TokensFile of
        Inl e \<Rightarrow> (fs, Inl (TokenManagerFailed e))
      | Inr tm \<Rightarrow>
          if list_ex (\<lambda>t. tok_Name t = ''admin'') (List_tokens tm) then (fs, Inr existing_token)
          else (case Add_token (si_tokens_marshal env) fs (ck_now (si_cert env)) (si_token_rnd env) tm ''admin'' None False of
                  (tm', fs', raw, Some e) \<Rightarrow> (fs', Inl (InitialTokenFailed e))
                | (tm', fs', raw, None) \<Rightarrow> (fs', Inr raw)))"

text \<open>The settings that are written: the existing ones with the port asked for, or the defaults.\<close>

definition install_config :: "install_env \<Rightarrow> filesys \<Rightarrow> int \<Rightarrow> install_error + serverYaml" where
  "install_config env fs port =
     (let key = (case generateAPIKey (si_key_rnd env) of Inl e \<Rightarrow> Inl (APIKeyFailed e) | Inr k \<Rightarrow> Inr k)
      in case LoadServerConfig (si_unmarshal env) fs ServerConfigFile of
           Inr c \<Rightarrow>
             let c1 = (if port \<noteq> 0 then c\<lparr>sc_Port := port\<rparr> else c)
             in if sc_APIKey c1 \<noteq> [] then Inr c1
                else (case key of Inl e \<Rightarrow> Inl e | Inr k \<Rightarrow> Inr (c1\<lparr>sc_APIKey := k\<rparr>))
         | Inl _ \<Rightarrow>
             (case key of Inl e \<Rightarrow> Inl e | Inr k \<Rightarrow> Inr ((DefaultServerConfig port)\<lparr>sc_APIKey := k\<rparr>)))"

text \<open>Failures of the last three writes are warnings.\<close>

definition install_files :: "install_env \<Rightarrow> filesys \<Rightarrow> int \<Rightarrow> serverYaml \<Rightarrow> filesys" where
  "install_files env fs port c =
     (let fs1 = fst (SaveServerConfig (si_marshal env) fs ServerConfigFile c);
          fs2 = fst (writeDefaultACL (si_stat_fails env) fs1 ACLFile)
      in if ie_container (detectInstallEnv (si_stat_fails env) (si_getenv env) fs2) then fs2
         else fst (WriteSystemdService (si_exe env) fs2 port))"

definition install_ip :: "install_env \<Rightarrow> string" where
  "install_ip env = (case detectPublicIP (si_get env) of None \<Rightarrow> ''<your-vm-ip>'' | Some a \<Rightarrow> a)"

text \<open>The result: the public address, the raw token and the API key.\<close>

definition Install ::
    "install_env \<Rightarrow> filesys \<Rightarrow> int \<Rightarrow> filesys \<times> (install_error + string \<times> string \<times> string)" where
  "Install env fs port =
     (case MkdirAll fs ConfigDir of
        Some e \<Rightarrow> (fs, Inl (MkdirFailed ConfigDir e))
      | None \<Rightarrow>
          (case MkdirAll fs TLSDir of
             Some e \<Rightarrow> (fs, Inl (MkdirFailed TLSDir e))
           | None \<Rightarrow>
               (case install_cert env fs (install_ip env) of
                  (fs1, Some e) \<Rightarrow> (fs1, Inl (CertFailed e))
                | (fs1, None) \<Rightarrow>
                    (case install_token env fs1 of
                       (fs2, Inl e) \<Rightarrow> (fs2, Inl e)
                     | (fs2, Inr raw) \<Rightarrow>
                         (case install_config env fs2 port of
                            Inl e \<Rightarrow> (fs2, Inl e)
                          | Inr c \<Rightarrow>
                              (install_files env fs2 port c, Inr (install_ip env, raw, sc_APIKey c)))))))"

section \<open>The summary\<close>

definition check_line :: "string \<Rightarrow> string" where
  "check_line s = ''  '' @ [CHR 0xE2, CHR 0x9C, CHR 0x93, CHR '' ''] @ s"

definition rule_line :: string where
  "rule_line = ''  '' @ concat (replicate 45 [CHR 0xE2, CHR 0x94, CHR 0x80])"

definition installSummary :: "string \<Rightarrow> int \<Rightarrow> string \<Rightarrow> string \<Rightarrow> installEnv \<Rightarrow> string" where
  "installSummary publicIP port rawToken apiKey env =
     (let k8s = ie_k8sNamespace env;
          host = (if k8s \<noteq> [] then ''<EXTERNAL-IP>'' else publicIP)
      in unlines
           ((if k8s = [] then [check_line (''Public IP: '' @ publicIP)] else []) @
            [check_line ''TLS certificate generated'', check_line ''Initial token created'',
             check_line (''Server config written to '' @ ServerConfigFile),
             check_line (''ACL config written to '' @ ACLFile)] @
            (if ie_container env then []
             else [check_line ''Systemd service written'', [], ''  Run:  sudo systemctl enable --now auth-vpn'']) @
            [[], rule_line] @
            (if k8s = [] then []
             else [''  Get the LoadBalancer IP:'', ''    kubectl get svc -n '' @ k8s @ '' auth-vpn'', []]) @
            [''  Connect with:'', ''    auth-vpn connect '' @ host @ '':'' @ Itoa port @ '' --token '' @ rawToken, []] @
            (if k8s = [] then [''  Web dashboard:  https://'' @ publicIP @ '':9100/ui'']
             else [''  Web dashboard:  kubectl port-forward -n '' @ k8s @ '' deploy/auth-vpn 9100:9100'',
                   ''                  then open http://localhost:9100/ui'']) @
            [''  API key:        '' @ apiKey, rule_line]))"

definition InstallSummary ::
    "install_env \<Rightarrow> filesys \<Rightarrow> string \<Rightarrow> int \<Rightarrow> string \<Rightarrow> string \<Rightarrow> string" where
  "InstallSummary env fs publicIP port rawToken apiKey =
     installSummary publicIP port rawToken apiKey (detectInstallEnv (si_stat_fails env) (si_getenv env) fs)"

section \<open>What each step writes\<close>

lemma WriteFile_files:
  "WriteFile fs p d = (fs', r) \<Longrightarrow> q \<noteq> p \<Longrightarrow> files fs' q = files fs q"
  by (auto simp: WriteFile_def split: option.splits)

lemma WriteFile_ok:
  "write_fails fs p = None \<Longrightarrow> WriteFile fs p d = (fs\<lparr>files := (files fs)(p \<mapsto> d)\<rparr>, None)"
  by (simp add: WriteFile_def)

lemma Stat_None_iff: "Stat sf fs p = None \<longleftrightarrow> sf p = None \<and> files fs p \<noteq> None"
  by (auto simp: Stat_def split: option.splits)

lemma SaveServerConfig_files:
  "q \<noteq> p \<Longrightarrow> files (fst (SaveServerConfig marshal fs p c)) q = files fs q"
  by (auto simp: SaveServerConfig_def WriteFile_def split: sum.splits option.splits)

lemma writeDefaultACL_files:
  "q \<noteq> p \<Longrightarrow> files (fst (writeDefaultACL sf fs p)) q = files fs q"
  by (auto simp: writeDefaultACL_def WriteFile_def split: option.splits)

lemma WriteSystemdService_files:
  "q \<noteq> ServiceFile \<Longrightarrow> files (fst (WriteSystemdService exe fs port)) q = files fs q"
  by (auto simp: WriteSystemdService_def WriteFile_def split: option.splits)

lemma install_files_frame:
  assumes "q \<noteq> ServerConfigFile" and "q \<noteq> ServiceFile" and "q \<noteq> ACLFile"
  shows "files (install_files env fs port c) q = files fs q"
  using assms
  by (simp add: install_files_def Let_def SaveServerConfig_files writeDefaultACL_files WriteSystemdService_files)

lemma install_files_acl:
  assumes "si_stat_fails env ACLFile = None" and "files fs ACLFile = Some d"
  shows "files (install_files env fs port c) ACLFile = Some d"
proof -
  have n: "ACLFile \<noteq> ServerConfigFile" "ACLFile \<noteq> ServiceFile" by (simp_all add: file_names)
  then have f: "files (fst (SaveServerConfig (si_marshal env) fs ServerConfigFile c)) ACLFile = Some d"
    using assms(2) by (simp add: SaveServerConfig_files)
  then have "Stat (si_stat_fails env) (fst (SaveServerConfig (si_marshal env) fs ServerConfigFile c)) ACLFile = None"
    using assms(1) by (simp add: Stat_None_iff)
  with f n show ?thesis
    by (simp add: install_files_def Let_def writeDefaultACL_def WriteSystemdService_files)
qed

lemma install_files_config:
  assumes "write_fails fs ServerConfigFile = None" and "si_marshal env c = Inr d"
  shows "files (install_files env fs port c) ServerConfigFile = Some d"
proof -
  have n: "ServerConfigFile \<noteq> ACLFile" "ServerConfigFile \<noteq> ServiceFile" by (simp_all add: file_names)
  have "files (fst (SaveServerConfig (si_marshal env) fs ServerConfigFile c)) ServerConfigFile = Some d"
    using assms by (simp add: SaveServerConfig_def WriteFile_ok)
  with n show ?thesis
    by (simp add: install_files_def Let_def writeDefaultACL_files WriteSystemdService_files)
qed

lemma generateSelfSignedCert_files:
  "q \<noteq> cp \<Longrightarrow> q \<noteq> kp \<Longrightarrow> files (fst (generateSelfSignedCert env fs host cp kp)) q = files fs q"
  by (auto simp: generateSelfSignedCert_def WriteFile_def split: sum.splits option.splits prod.splits)

lemma generateSelfSignedCert_env:
  "read_fails (fst (generateSelfSignedCert env fs host cp kp)) = read_fails fs"
  "write_fails (fst (generateSelfSignedCert env fs host cp kp)) = write_fails fs"
  by (auto simp: generateSelfSignedCert_def WriteFile_def split: sum.splits option.splits prod.splits)

lemma Add_token_files:
  "Add_token marshal fs now rnd m name ex one = (m', fs', raw, e) \<Longrightarrow> q \<noteq> tm_filePath m \<Longrightarrow>
     files fs' q = files fs q"
  by (auto simp: Add_token_def save_tokens_def Let_def WriteFile_def
      split: sum.splits option.splits prod.splits)

lemma Add_token_env:
  "Add_token marshal fs now rnd m name ex one = (m', fs', raw, e) \<Longrightarrow>
     read_fails fs' = read_fails fs \<and> write_fails fs' = write_fails fs"
  by (auto simp: Add_token_def save_tokens_def Let_def WriteFile_def
      split: sum.splits option.splits prod.splits)

lemma NewManager_path: "NewManager u fs p = Inr m \<Longrightarrow> tm_filePath m = p"
  by (auto simp: NewManager_def load_tokens_def Let_def split: sum.splits token_error.splits os_error.splits)

lemma install_token_files:
  assumes "install_token env fs = (fs', r)" and "q \<noteq> TokensFile"
  shows "files fs' q = files fs q"
  using assms
  by (auto simp: install_token_def split: sum.splits if_splits prod.splits option.splits
      dest!: Add_token_files [where q = q] NewManager_path)

lemma install_token_env:
  assumes "install_token env fs = (fs', r)"
  shows "read_fails fs' = read_fails fs \<and> write_fails fs' = write_fails fs"
  using assms
  by (auto simp: install_token_def split: sum.splits if_splits prod.splits option.splits
      dest!: Add_token_env)

lemma Install_steps:
  assumes "Install env fs port = (fs', Inr (ip, raw, key))"
  obtains fs1 fs2 c where "install_cert env fs (install_ip env) = (fs1, None)"
    and "install_token env fs1 = (fs2, Inr raw)" and "install_config env fs2 port = Inr c"
    and "fs' = install_files env fs2 port c" and "key = sc_APIKey c" and "ip = install_ip env"
  using assms by (auto simp: Install_def split: option.splits prod.splits sum.splits)

lemma ReadFile_cong:
  "files fs p = files fs' p \<Longrightarrow> read_fails fs p = read_fails fs' p \<Longrightarrow> ReadFile fs p = ReadFile fs' p"
  unfolding ReadFile_def by (simp cong: option.case_cong)

lemma LoadServerConfig_cong:
  "files fs p = files fs' p \<Longrightarrow> read_fails fs p = read_fails fs' p \<Longrightarrow>
     LoadServerConfig u fs p = LoadServerConfig u fs' p"
  unfolding LoadServerConfig_def using ReadFile_cong by metis

lemma install_cert_present:
  "si_stat_fails env CertFile = None \<Longrightarrow> files fs CertFile \<noteq> None \<Longrightarrow>
     install_cert env fs ip = (fs, None)"
  by (auto simp: install_cert_def Stat_def)

lemma install_config_broken:
  assumes "LoadServerConfig (si_unmarshal env) fs ServerConfigFile = Inl e"
    and "install_config env fs port = Inr c"
  shows "c = (DefaultServerConfig port)\<lparr>sc_APIKey := sc_APIKey c\<rparr>"
  using assms by (auto simp: install_config_def Let_def split: sum.splits)

lemma install_cert_frame:
  assumes "install_cert env fs ip = (fs', r)"
  shows "q \<noteq> CertFile \<Longrightarrow> q \<noteq> KeyFile \<Longrightarrow> files fs' q = files fs q"
    and "read_fails fs' = read_fails fs" and "write_fails fs' = write_fails fs"
  using assms generateSelfSignedCert_files [of q CertFile KeyFile "si_cert env" fs ip]
    generateSelfSignedCert_env [of "si_cert env" fs ip CertFile KeyFile]
  by (auto simp: install_cert_def split: if_splits)

lemma Install_key_kept:
  assumes "si_stat_fails env CertFile = None" and "files fs CertFile \<noteq> None"
  shows "files (fst (Install env fs port)) KeyFile = files fs KeyFile"
proof -
  have n: "KeyFile \<noteq> ServerConfigFile" "KeyFile \<noteq> ServiceFile" "KeyFile \<noteq> ACLFile" "KeyFile \<noteq> TokensFile"
    by (simp_all add: file_names)
  obtain fs2 r where t: "install_token env fs = (fs2, r)" by (metis prod.exhaust)
  have "files fs2 KeyFile = files fs KeyFile" using install_token_files [OF t n(4)] .
  with t install_cert_present [OF assms] n(1-3) show ?thesis
    by (auto simp: Install_def install_files_frame split: option.splits sum.splits)
qed

section \<open>Properties\<close>

definition lab_token :: token where
  "lab_token = \<lparr>tok_Name = ''admin'', tok_Hash = ''h'', tok_CreatedAt = 0, tok_ExpiresAt = None,
     tok_OneTime = False, tok_Used = False\<rparr>"

definition lab_install :: install_env where
  "lab_install =
     \<lparr>si_stat_fails = Map.empty, si_get = Map.empty,
      si_cert = \<lparr>ck_now = 0, ck_key = Inr [], ck_serial = Inr 1, ck_create = (\<lambda>t k. Inr []), ck_keyDER = (\<lambda>k. Inr [])\<rparr>,
      si_token_rnd = Inr [1], si_key_rnd = Inr [2], si_tokens_marshal = (\<lambda>ts. Inr ''t''),
      si_tokens_unmarshal = (\<lambda>d. Inr [lab_token]), si_marshal = (\<lambda>c. Inr ''new''),
      si_unmarshal = (\<lambda>d. if d = ''old'' then Inr ((DefaultServerConfig 4443)\<lparr>sc_APIKey := ''k''\<rparr>) else Inl ''bad''),
      si_getenv = (\<lambda>v. []), si_exe = ''/usr/local/bin/auth-vpn''\<rparr>"



text \<open>A \<open>server.yaml\<close> that cannot be read or parsed is not kept: the installation replaces it by the
  defaults under a new API key.\<close>

theorem broken_settings_are_replaced:
  assumes "LoadServerConfig (si_unmarshal env) fs ServerConfigFile = Inl e"
    and "Install env fs port = (fs', Inr (ip, raw, key))"
    and "write_fails fs ServerConfigFile = None"
    and "si_marshal env ((DefaultServerConfig port)\<lparr>sc_APIKey := key\<rparr>) = Inr d"
  shows "files fs' ServerConfigFile = Some d \<and> (\<exists>b. si_key_rnd env = Inr b \<and> key = EncodeToString b)"
proof -
  have n: "ServerConfigFile \<noteq> CertFile" "ServerConfigFile \<noteq> KeyFile" "ServerConfigFile \<noteq> TokensFile"
    by (simp_all add: file_names)
  obtain fs1 fs2 c where s: "install_cert env fs (install_ip env) = (fs1, None)"
    "install_token env fs1 = (fs2, Inr raw)" "install_config env fs2 port = Inr c"
    "fs' = install_files env fs2 port c" "key = sc_APIKey c"
    using Install_steps [OF assms(2)] by metis
  have f: "files fs2 ServerConfigFile = files fs ServerConfigFile" "read_fails fs2 = read_fails fs"
    "write_fails fs2 = write_fails fs"
    using install_cert_frame(1) [OF s(1), of ServerConfigFile] install_cert_frame(2,3) [OF s(1)] install_token_env [OF s(2)]
      install_token_files [OF s(2) n(3)] n by simp_all
  have l: "LoadServerConfig (si_unmarshal env) fs2 ServerConfigFile = Inl e"
    using assms(1) f(1,2) by (metis LoadServerConfig_cong)
  note c = install_config_broken [OF l s(3)]
  have "si_marshal env c = Inr d" using assms(4) c s(5) by simp
  then have "files fs' ServerConfigFile = Some d"
    unfolding s(4) using assms(3) f(3) by (intro install_files_config) simp_all
  moreover have "\<exists>b. si_key_rnd env = Inr b \<and> key = EncodeToString b"
    using s(3,5) l by (auto simp: install_config_def generateAPIKey_def Let_def split: sum.splits)
  ultimately show ?thesis by blast
qed

theorem broken_settings_are_replaced_witness:
  "let fs = healthy_fs [CertFile \<mapsto> ''cert'', TokensFile \<mapsto> ''t'', ServerConfigFile \<mapsto> ''tabs'']
   in files (fst (Install lab_install fs 7777)) ServerConfigFile = Some ''new'' \<and>
      (\<exists>b. si_key_rnd lab_install = Inr b \<and> ''02'' = EncodeToString b)"
proof -
  let ?fs = "healthy_fs [CertFile \<mapsto> ''cert'', TokensFile \<mapsto> ''t'', ServerConfigFile \<mapsto> ''tabs'']"
  have l: "LoadServerConfig (si_unmarshal lab_install) ?fs ServerConfigFile = Inl (ConfigYaml ''bad'')"
    by (simp add: LoadServerConfig_def ReadFile_def healthy_fs_def lab_install_def)
  have ct: "install_cert lab_install ?fs (install_ip lab_install) = (?fs, None)"
    by (rule install_cert_present) (simp_all add: healthy_fs_def lab_install_def file_names)
  have tk: "install_token lab_install ?fs = (?fs, Inr existing_token)"
    by (simp add: install_token_def NewManager_def load_tokens_def ReadFile_def healthy_fs_def lab_install_def
        file_names List_tokens_def lab_token_def)
  have h: "EncodeToString [2] = ''02''" by code_simp
  have cf: "install_config lab_install ?fs 7777 = Inr ((DefaultServerConfig 7777)\<lparr>sc_APIKey := ''02''\<rparr>)"
    using l by (simp add: install_config_def generateAPIKey_def lab_install_def h)
  have i: "Install lab_install ?fs 7777 =
      (install_files lab_install ?fs 7777 ((DefaultServerConfig 7777)\<lparr>sc_APIKey := ''02''\<rparr>),
       Inr (install_ip lab_install, existing_token, ''02''))"
    using ct tk cf by (simp add: Install_def MkdirAll_def healthy_fs_def)
  have w: "write_fails ?fs ServerConfigFile = None" by (simp add: healthy_fs_def)
  have "si_marshal lab_install ((DefaultServerConfig 7777)\<lparr>sc_APIKey := ''02''\<rparr>) = Inr ''new''"
    by (simp add: lab_install_def)
  from broken_settings_are_replaced [OF l i w this] show ?thesis unfolding Let_def i fst_conv .
qed

text \<open>When the certificate was written and its key could not be, installing again does not help:
  the certificate is found and the key is never made.\<close>

theorem half_written_certificate_stays:
  assumes "si_stat_fails env CertFile = None" and "files fs CertFile = None" and "files fs KeyFile = None"
    and "mkdir_fails fs = Map.empty" and "write_fails fs = [KeyFile \<mapsto> (e, None)]"
    and "ck_key (si_cert env) = Inr k" and "ck_serial (si_cert env) = Inr n"
    and "ck_create (si_cert env) (cert_template_for (ck_now (si_cert env)) n (install_ip env)) k = Inr der"
    and "ck_keyDER (si_cert env) k = Inr kder"
    and "si_stat_fails env' CertFile = None"
  shows "\<exists>fs'. Install env fs port = (fs', Inl (CertFailed (CertFileError e))) \<and>
    files (fst (Install env' (fs'\<lparr>write_fails := Map.empty\<rparr>) port')) KeyFile = None"
proof -
  have nk: "CertFile \<noteq> KeyFile" by (simp add: file_names)
  define fs' where "fs' = fs\<lparr>files := (files fs)(CertFile \<mapsto> pem_text ''CERTIFICATE'' der, KeyFile := None)\<rparr>"
  have "Stat (si_stat_fails env) fs CertFile = Some ErrNotExist" using assms(1,2) by (simp add: Stat_def)
  then have "install_cert env fs (install_ip env) = (fs', Some (CertFileError e))"
    using assms(4-9) nk
    by (simp add: install_cert_def generateSelfSignedCert_def MkdirAll_def WriteFile_def fs'_def)
  then have "Install env fs port = (fs', Inl (CertFailed (CertFileError e)))"
    using assms(4) by (simp add: Install_def MkdirAll_def)
  moreover have "files (fst (Install env' (fs'\<lparr>write_fails := Map.empty\<rparr>) port')) KeyFile = None"
    using Install_key_kept [OF assms(10), of "fs'\<lparr>write_fails := Map.empty\<rparr>" port'] nk by (simp add: fs'_def)
  ultimately show ?thesis by blast
qed

theorem half_written_certificate_stays_witness:
  "let fs = (healthy_fs Map.empty)\<lparr>write_fails := [KeyFile \<mapsto> (OSErr ''no space left'', None)]\<rparr>
   in \<exists>fs'. Install lab_install fs 7777 = (fs', Inl (CertFailed (CertFileError (OSErr ''no space left'')))) \<and>
        files (fst (Install lab_install (fs'\<lparr>write_fails := Map.empty\<rparr>) 7777)) KeyFile = None"
  unfolding Let_def
  using half_written_certificate_stays [of lab_install
      "(healthy_fs Map.empty)\<lparr>write_fails := [KeyFile \<mapsto> (OSErr ''no space left'', None)]\<rparr>"
      "OSErr ''no space left''" "[]" 1 "[]" "[]" lab_install 7777 7777]
  by (simp add: healthy_fs_def lab_install_def)

end
