(* ===== verification/Cli.thy ===== *)
theory Cli
  imports Hub ProxyMux Install
begin

text \<open>
  The command line, \<open>cmd/main.go\<close> and \<open>cmd/profiles.go\<close>: what each command decides before it calls
  the packages. Flags are values (\<open>None\<close>: not given), input is the list of lines a prompt reads, and
  what the packages and the network answer is an argument. \<open>connectCmd\<close> is one function from flags
  to an outcome: the error or the connection to make, the calls made to a server's API on the way
  and the ephemeral token that is revoked when the command returns. \<open>url.Parse\<close> is an argument, as in
  theory \<open>Hub\<close>. Printing is not modelled.
\<close>

section \<open>Starting a server\<close>

record start_flags =
  sf_port :: "int option"
  sf_subnet :: "string option"
  sf_serverIP :: "string option"
  sf_metricsAddr :: "string option"
  sf_acl :: "string option"
  sf_apiKey :: "string option"
  sf_forwardBind :: "string option"
  sf_sshAddr :: "string option"

definition flag_or :: "string option \<Rightarrow> string \<Rightarrow> string" where
  "flag_or f v = (case f of Some x \<Rightarrow> x | None \<Rightarrow> v)"

definition flag_config :: "start_flags \<Rightarrow> config" where
  "flag_config f =
     \<lparr>cfg_Port = (case sf_port f of Some p \<Rightarrow> p | None \<Rightarrow> 7777), cfg_TLSCert = CertFile, cfg_TLSKey = KeyFile,
      cfg_TokensPath = TokensFile, cfg_Subnet = [], cfg_ServerIP = [], cfg_MetricsAddr = [], cfg_ACLPath = [],
      cfg_APIKey = [], cfg_ForwardBindAddr = [], cfg_SSHAddr = [], cfg_PushRoutes = [], cfg_PushDNS = None,
      cfg_NoPush = False, cfg_Expose = [], cfg_clusterDNS = [], cfg_UIOnly = False\<rparr>"

text \<open>The file's values where no flag is given; a file that does not load is passed over.\<close>

definition file_config :: "start_flags \<Rightarrow> (config_error + serverYaml) \<Rightarrow> config \<Rightarrow> config" where
  "file_config f loaded cfg =
     (case loaded of
        Inl e \<Rightarrow> cfg
      | Inr sc \<Rightarrow>
          cfg\<lparr>cfg_Port := (if sf_port f = None \<and> sc_Port sc \<noteq> 0 then sc_Port sc else cfg_Port cfg),
              cfg_Subnet := (if sf_subnet f = None then sc_Subnet sc else cfg_Subnet cfg),
              cfg_ServerIP := (if sf_serverIP f = None then sc_ServerIP sc else cfg_ServerIP cfg),
              cfg_MetricsAddr := (if sf_metricsAddr f = None then sc_MetricsAddr sc else cfg_MetricsAddr cfg),
              cfg_ACLPath := (if sf_acl f = None then sc_ACLPath sc else cfg_ACLPath cfg),
              cfg_APIKey := (if sf_apiKey f = None then sc_APIKey sc else cfg_APIKey cfg),
              cfg_ForwardBindAddr := (if sf_forwardBind f = None then sc_ForwardBindAddr sc else cfg_ForwardBindAddr cfg),
              cfg_SSHAddr := (if sf_sshAddr f = None then sc_SSHAddr sc else cfg_SSHAddr cfg),
              cfg_PushRoutes := sc_PushRoutes sc, cfg_PushDNS := sc_PushDNS sc, cfg_NoPush := sc_NoPush sc,
              cfg_Expose := sc_Expose sc\<rparr>)"

definition flag_overrides :: "start_flags \<Rightarrow> config \<Rightarrow> config" where
  "flag_overrides f cfg =
     cfg\<lparr>cfg_Subnet := flag_or (sf_subnet f) (cfg_Subnet cfg), cfg_ServerIP := flag_or (sf_serverIP f) (cfg_ServerIP cfg),
         cfg_MetricsAddr := flag_or (sf_metricsAddr f) (cfg_MetricsAddr cfg), cfg_ACLPath := flag_or (sf_acl f) (cfg_ACLPath cfg),
         cfg_APIKey := flag_or (sf_apiKey f) (cfg_APIKey cfg),
         cfg_ForwardBindAddr := flag_or (sf_forwardBind f) (cfg_ForwardBindAddr cfg),
         cfg_SSHAddr := flag_or (sf_sshAddr f) (cfg_SSHAddr cfg)\<rparr>"

definition serverStart_config :: "start_flags \<Rightarrow> (config_error + serverYaml) \<Rightarrow> config" where
  "serverStart_config f loaded = flag_overrides f (file_config f loaded (flag_config f))"

text \<open>\<open>change-port\<close>: the new port from the line typed in, \<open>None\<close> when nothing changes.\<close>

definition change_port :: "int \<Rightarrow> string \<Rightarrow> string + int option" where
  "change_port configured line =
     (let current = (if configured = 0 then 7777 else configured); input = TrimSpace line
      in if input = [] then Inr None
         else case Atoi input of
                None \<Rightarrow> Inl ''invalid port''
              | Some p \<Rightarrow>
                  if p < 1 \<or> 65535 < p then Inl ''invalid port''
                  else Inr (if p = current then None else Some p))"

section \<open>Forward rules\<close>

datatype forward_rule_error = RuleSyntax string | RuleLocalPort string | RuleRemotePort string | RuleEmptyHost string

definition parse_port :: "string \<Rightarrow> int option" where
  "parse_port s = (case Atoi s of None \<Rightarrow> None | Some p \<Rightarrow> if p < 1 \<or> 65535 < p then None else Some p)"

text \<open>The first colon ends the local port, the last one starts the remote port.\<close>

definition parse_rule :: "string \<Rightarrow> forward_rule_error + ForwardRule" where
  "parse_rule r =
     (case IndexByte r CHR '':'' of
        None \<Rightarrow> Inl (RuleSyntax r)
      | Some i \<Rightarrow>
          (let rest = drop (Suc i) r
           in case LastIndexByte rest CHR '':'' of
                None \<Rightarrow> Inl (RuleSyntax r)
              | Some j \<Rightarrow>
                  (case parse_port (take i r) of
                     None \<Rightarrow> Inl (RuleLocalPort r)
                   | Some lp \<Rightarrow>
                       (case parse_port (drop (Suc j) rest) of
                          None \<Rightarrow> Inl (RuleRemotePort r)
                        | Some rp \<Rightarrow>
                            if take j rest = [] then Inl (RuleEmptyHost r)
                            else Inr \<lparr>fr_LocalPort = lp, fr_RemoteHost = take j rest, fr_RemotePort = rp\<rparr>))))"

fun parseForwardRules :: "string list \<Rightarrow> forward_rule_error + ForwardRule list" where
  "parseForwardRules [] = Inr []"
| "parseForwardRules (r # rs) =
     (case parse_rule r of
        Inl e \<Rightarrow> Inl e
      | Inr x \<Rightarrow> (case parseForwardRules rs of Inl e \<Rightarrow> Inl e | Inr xs \<Rightarrow> Inr (x # xs)))"

section \<open>Profiles on the command line\<close>

record add_flags =
  af_name :: string
  af_host :: string
  af_token :: "string option"
  af_fingerprint :: "string option"
  af_routes :: "string list option"
  af_forwards :: "string list option"

text \<open>\<open>profile add\<close>: what is saved; on an existing profile only what was passed changes.\<close>

definition profile_to_save :: "add_flags \<Rightarrow> profile option \<Rightarrow> profile" where
  "profile_to_save f old =
     (let p = \<lparr>pr_Name = af_name f, pr_Host = af_host f, pr_Token = flag_or (af_token f) [],
               pr_Fingerprint = flag_or (af_fingerprint f) [],
               pr_Routes = (case af_routes f of Some rs \<Rightarrow> rs | None \<Rightarrow> []),
               pr_Forwards = (case af_forwards f of Some fs \<Rightarrow> fs | None \<Rightarrow> [])\<rparr>
      in case old of
           None \<Rightarrow> p
         | Some q \<Rightarrow>
             p\<lparr>pr_Host := (if pr_Host p = [] then pr_Host q else pr_Host p),
               pr_Token := (if af_token f = None then pr_Token q else pr_Token p),
               pr_Fingerprint := (if af_fingerprint f = None then pr_Fingerprint q else pr_Fingerprint p),
               pr_Routes := (if af_routes f = None then pr_Routes q else pr_Routes p),
               pr_Forwards := (if af_forwards f = None then pr_Forwards q else pr_Forwards p)\<rparr>)"

datatype profile_add_error = AddRule forward_rule_error | AddProfile profile_error

definition profileAdd ::
    "profile_marshal \<Rightarrow> profile_unmarshal \<Rightarrow> private_env \<Rightarrow> filesys \<Rightarrow> string \<Rightarrow> add_flags \<Rightarrow>
     filesys \<times> profile_add_error option" where
  "profileAdd marshal unmarshal env fs dir f =
     (case parseForwardRules (case af_forwards f of Some rs \<Rightarrow> rs | None \<Rightarrow> []) of
        Inl e \<Rightarrow> (fs, Some (AddRule e))
      | Inr rules \<Rightarrow>
          (case LoadProfile unmarshal fs dir (af_name f) of
             Inr q \<Rightarrow>
               (let (fs', e) = SaveProfile marshal unmarshal env fs dir (profile_to_save f (Some q))
                in (fs', map_option AddProfile e))
           | Inl (ErrProfileNotFound n) \<Rightarrow>
               (let (fs', e) = SaveProfile marshal unmarshal env fs dir (profile_to_save f None)
                in (fs', map_option AddProfile e))
           | Inl e \<Rightarrow> (fs, Some (AddProfile e))))"

text \<open>\<open>pickProfile\<close>: each input is a line and whether the input ended with it; the end of the list is
  the end of the input.\<close>

definition choose_profile :: "profile list \<Rightarrow> string \<Rightarrow> profile option" where
  "choose_profile ps choice =
     (case (case Atoi choice of
              None \<Rightarrow> None
            | Some n \<Rightarrow> if 1 \<le> n \<and> n \<le> int (length ps) then Some (ps ! nat (n - 1)) else None) of
        Some p \<Rightarrow> Some p
      | None \<Rightarrow> find (\<lambda>p. pr_Name p = choice) ps)"

fun pick_loop :: "profile list \<Rightarrow> (string \<times> bool) list \<Rightarrow> profile option" where
  "pick_loop ps [] = None"
| "pick_loop ps ((line, eof) # ls) =
     (let choice = TrimSpace line
      in case (if choice = [] then None else choose_profile ps choice) of
           Some p \<Rightarrow> Some p
         | None \<Rightarrow> if eof then None else pick_loop ps ls)"

datatype pick_error = ListFailed profile_error | NoProfiles | NameOne "string list" | NoneChosen

definition pickProfile ::
    "(profile_error + profile list) \<Rightarrow> bool \<Rightarrow> (string \<times> bool) list \<Rightarrow> pick_error + profile" where
  "pickProfile listed interactive input =
     (case listed of
        Inl e \<Rightarrow> Inl (ListFailed e)
      | Inr ps \<Rightarrow>
          if ps = [] then Inl NoProfiles
          else if \<not> interactive then Inl (NameOne (map pr_Name ps))
          else if length ps = 1 then Inr (hd ps)
          else (case pick_loop ps input of None \<Rightarrow> Inl NoneChosen | Some p \<Rightarrow> Inr p))"

text \<open>\<open>askProfileName\<close>; \<open>exists\<close> is whether a profile of that name loads.\<close>

fun ask_loop :: "(string \<Rightarrow> bool) \<Rightarrow> string \<Rightarrow> (string \<times> bool) list \<Rightarrow> string" where
  "ask_loop exists addr [] = []"
| "ask_loop exists addr ((line, eof) # ls) =
     (let name = TrimSpace line
      in if name = [] then []
         else if (case NormalizeProfile \<lparr>pr_Name = name, pr_Host = addr, pr_Token = [], pr_Fingerprint = [],
                      pr_Routes = [], pr_Forwards = []\<rparr> of Inl e \<Rightarrow> False | Inr p \<Rightarrow> True) \<and> \<not> exists name
         then name
         else if eof then [] else ask_loop exists addr ls)"

definition askProfileName ::
    "(profile_error + profile list) \<Rightarrow> (string \<Rightarrow> bool) \<Rightarrow> string \<Rightarrow> (string \<times> bool) list \<Rightarrow> string" where
  "askProfileName listed exists addr input =
     (case listed of
        Inl e \<Rightarrow> []
      | Inr ps \<Rightarrow> if list_ex (\<lambda>p. pr_Host p = addr) ps then [] else ask_loop exists addr input)"

text \<open>\<open>saveProfileOnce\<close>: the profile saved when the tunnel comes up, with the fingerprint trusted while
  connecting; \<open>saved\<close> is the state of the \<open>sync.Once\<close>.\<close>

definition saveProfileOnce ::
    "profile_marshal \<Rightarrow> profile_unmarshal \<Rightarrow> hosts_unmarshal \<Rightarrow> private_env \<Rightarrow> string \<Rightarrow> profile \<Rightarrow>
     bool \<times> filesys \<Rightarrow> bool \<times> filesys" where
  "saveProfileOnce marshal unmarshal hosts_yaml env dir p = (\<lambda>(saved, fs).
     if saved then (True, fs)
     else (True, fst (SaveProfile marshal unmarshal env fs dir
                        (p\<lparr>pr_Fingerprint := KnownFingerprint hosts_yaml fs dir (pr_Host p)\<rparr>))))"

section \<open>Ephemeral tokens\<close>

definition loopback_host :: "string \<Rightarrow> bool" where
  "loopback_host host \<longleftrightarrow> host = ''localhost'' \<or> (case ParseIP host of None \<Rightarrow> False | Some a \<Rightarrow> IsLoopback a)"

datatype cli_error =
    CliProfile profile_error
  | CliPick pick_error
  | CliTrust hosts_error
  | GithubWithToken
  | GithubNeedsKey
  | KeyWithToken
  | BadAPIURL string
  | PlaintextKey string
  | TokenCall string
  | ServerUnreachable
  | CliRule forward_rule_error
  | StopFailed stop_error

definition checkAPIURLSafety :: "(string \<Rightarrow> string + url) \<Rightarrow> string \<Rightarrow> bool \<Rightarrow> cli_error option" where
  "checkAPIURLSafety parse raw insecure =
     (case parse raw of
        Inl e \<Rightarrow> Some (BadAPIURL e)
      | Inr u \<Rightarrow>
          if ToLower (u_Scheme u) = ''https'' then None
          else if insecure then None
          else if \<not> loopback_host (url_Hostname u) then Some (PlaintextKey (url_Hostname u))
          else None)"

text \<open>The name of the token: from the GitHub job, else random.\<close>

definition ephemeral_name :: "bool \<Rightarrow> (string \<Rightarrow> string) \<Rightarrow> (string + bytes) \<Rightarrow> string + string" where
  "ephemeral_name useGithub getenv rnd =
     (if useGithub \<and> getenv ''GITHUB_RUN_ID'' \<noteq> []
      then Inr (''gh-'' @ getenv ''GITHUB_RUN_ID'' @ ''-'' @ getenv ''GITHUB_JOB'' @ ''-'' @ getenv ''GITHUB_RUN_ATTEMPT'')
      else (case rnd of Inl e \<Rightarrow> Inl (''random name: '' @ e) | Inr b \<Rightarrow> Inr (''ephemeral-'' @ EncodeToString b)))"

definition token_request_body :: "string \<Rightarrow> string" where
  "token_request_body name =
     render (JObj [(''name'', JStr name), (''one_time'', JBool False), (''expires_in'', JStr ''2h'')])"

definition mem_token_reply :: "string \<Rightarrow> json \<Rightarrow> string \<times> string \<Rightarrow> (string \<times> string) \<times> bool" where
  "mem_token_reply k v = (\<lambda>(t, n).
     if key_is k ''token'' then (let (s, ok) = dec_string v t in ((s, n), ok))
     else if key_is k ''name'' then (let (s, ok) = dec_string v n in ((t, s), ok))
     else ((t, n), True))"

text \<open>\<open>call\<close> posts a body under a key and gives an error or a status and a body; the result is the
  token and the name the server gave it, and the calls made.\<close>

type_synonym api_call = "string \<times> string \<times> string"

definition generateEphemeralToken ::
    "(api_call \<Rightarrow> string + nat \<times> string) \<Rightarrow> string \<Rightarrow> string \<Rightarrow> bool \<Rightarrow> (string \<Rightarrow> string) \<Rightarrow> (string + bytes) \<Rightarrow>
     (string + string \<times> string) \<times> api_call list" where
  "generateEphemeralToken call apiURL apiKey useGithub getenv rnd =
     (case ephemeral_name useGithub getenv rnd of
        Inl e \<Rightarrow> (Inl e, [])
      | Inr name \<Rightarrow>
          let c = (apiURL @ ''/api/tokens'', apiKey, token_request_body name)
          in (case call c of
                Inl e \<Rightarrow> Inl (''reach server API: '' @ e)
              | Inr (status, body) \<Rightarrow>
                  if status \<noteq> 201 then Inl (''server returned HTTP '' @ nat_string status)
                  else (case decode_first mem_token_reply body ([], []) of
                          ((tok, n), ok) \<Rightarrow>
                            if \<not> ok then Inl ''decode token response''
                            else if tok = [] then Inl ''server returned an empty token value''
                            else Inr (tok, n)),
              [c]))"

section \<open>Connecting\<close>

record connect_flags =
  cf_token :: string
  cf_background :: bool
  cf_wait :: bool
  cf_insecure :: bool
  cf_reconnect :: bool
  cf_githubAction :: bool
  cf_noPushRoutes :: bool
  cf_noPushDNS :: bool
  cf_forward :: "string list"
  cf_route :: "string list"
  cf_apiKey :: string
  cf_apiPort :: int
  cf_apiURL :: string

text \<open>What the packages, the terminal and the network answer while the command runs.\<close>

record connect_env =
  ce_pick :: "pick_error + profile"
  ce_load :: "string \<Rightarrow> profile_error + profile"
  ce_trust :: "string \<Rightarrow> string \<Rightarrow> hosts_error option"
  ce_interactive :: bool
  ce_ask :: "string \<Rightarrow> string"
  ce_getenv :: "string \<Rightarrow> string"
  ce_parse :: "string \<Rightarrow> string + url"
  ce_call :: "api_call \<Rightarrow> string + nat \<times> string"
  ce_rand :: "string + bytes"
  ce_reachable :: "string \<Rightarrow> bool"
  ce_stop :: "stop_error option"

datatype connect_action =
    RunTunnel options bool "profile option"
  | RunProxy options "ForwardRule list" bool "profile option"

text \<open>The result, the API calls made, and the token revoked when the command returns, with the URL,
  the key and its name.\<close>

record connect_outcome =
  co_result :: "cli_error + connect_action"
  co_calls :: "api_call list"
  co_revoke :: "(string \<times> string \<times> string) option"

text \<open>The profile's values, with the flags winning over it.\<close>

definition resolve_target ::
    "connect_env \<Rightarrow> connect_flags \<Rightarrow> string \<Rightarrow>
     cli_error + string \<times> string \<times> string \<times> string list \<times> string list" where
  "resolve_target env f target =
     (case ce_load env target of
        Inr p \<Rightarrow>
          (case (if pr_Fingerprint p \<noteq> [] then ce_trust env (pr_Host p) (pr_Fingerprint p) else None) of
             Some e \<Rightarrow> Inl (CliTrust e)
           | None \<Rightarrow>
               Inr (pr_Host p, pr_Name p, if cf_token f = [] then pr_Token p else cf_token f,
                    pr_Routes p @ cf_route f, if cf_forward f = [] then pr_Forwards p else cf_forward f))
      | Inl e \<Rightarrow>
          if (\<forall>n. e \<noteq> ErrProfileNotFound n) \<and> \<not> Contains target '':'' then Inl (CliProfile e)
          else Inr (target, [], cf_token f, cf_route f, cf_forward f))"

text \<open>From the options on: waiting, forwards, and the tunnel that is replaced.\<close>

definition connect_finish ::
    "connect_env \<Rightarrow> bool \<Rightarrow> bool \<Rightarrow> options \<Rightarrow> string list \<Rightarrow> profile option \<Rightarrow> cli_error + connect_action" where
  "connect_finish env wait reconnect opts rules save =
     (if wait \<and> \<not> ce_reachable env (opt_ServerAddr opts) then Inl ServerUnreachable
      else if rules \<noteq> [] then
        (case parseForwardRules rules of
           Inl e \<Rightarrow> Inl (CliRule e)
         | Inr fs \<Rightarrow> Inr (RunProxy opts fs reconnect save))
      else (case ce_stop env of
              Some e \<Rightarrow> Inl (StopFailed e)
            | None \<Rightarrow> Inr (RunTunnel opts reconnect save)))"

definition connect_fail :: "cli_error \<Rightarrow> connect_outcome" where
  "connect_fail e = \<lparr>co_result = Inl e, co_calls = [], co_revoke = None\<rparr>"

definition api_base :: "connect_flags \<Rightarrow> string" where
  "api_base f = (if cf_apiURL f = [] then ''http://localhost:'' @ Itoa (cf_apiPort f) else cf_apiURL f)"

text \<open>With a key: a token of its own for this connection.\<close>

definition connect_with_key ::
    "connect_env \<Rightarrow> connect_flags \<Rightarrow> string \<Rightarrow> options \<Rightarrow> string list \<Rightarrow> profile option \<Rightarrow> connect_outcome" where
  "connect_with_key env f apiKey opts rules save =
     (if opt_Token opts \<noteq> [] then connect_fail KeyWithToken
      else let base = api_base f
      in case checkAPIURLSafety (ce_parse env) base (cf_insecure f) of
           Some e \<Rightarrow> connect_fail e
         | None \<Rightarrow>
             (case generateEphemeralToken (ce_call env) base apiKey (cf_githubAction f) (ce_getenv env) (ce_rand env) of
                (Inl e, calls) \<Rightarrow> \<lparr>co_result = Inl (TokenCall e), co_calls = calls, co_revoke = None\<rparr>
              | (Inr (tok, name), calls) \<Rightarrow>
                  \<lparr>co_result = connect_finish env (cf_wait f) False (opts\<lparr>opt_Token := tok\<rparr>) rules save,
                   co_calls = calls, co_revoke = Some (base, apiKey, name)\<rparr>))"

definition connectCmd :: "connect_env \<Rightarrow> connect_flags \<Rightarrow> string option \<Rightarrow> connect_outcome" where
  "connectCmd env f arg =
     (case (case arg of Some a \<Rightarrow> Inr a
            | None \<Rightarrow> (case ce_pick env of Inl e \<Rightarrow> Inl e | Inr p \<Rightarrow> Inr (pr_Name p))) of
        Inl e \<Rightarrow> connect_fail (CliPick e)
      | Inr target \<Rightarrow>
          (case resolve_target env f target of
             Inl e \<Rightarrow> connect_fail e
           | Inr (addr, pname, token, rts, rules) \<Rightarrow>
               let opts = \<lparr>opt_ServerAddr = addr, opt_Token = token, opt_Background = cf_background f,
                           opt_Wait = cf_wait f, opt_Insecure = cf_insecure f, opt_Reconnect = cf_reconnect f,
                           opt_ExtraRoutes = rts, opt_NoPushRoutes = cf_noPushRoutes f,
                           opt_NoPushDNS = cf_noPushDNS f, opt_Profile = pname\<rparr>;
                   asked = (if pname = [] \<and> token \<noteq> [] \<and> \<not> cf_githubAction f \<and> cf_apiKey f = [] \<and> ce_interactive env
                            then ce_ask env addr else []);
                   save = (if asked = [] then None
                           else Some \<lparr>pr_Name = asked, pr_Host = addr, pr_Token = token, pr_Fingerprint = [],
                                      pr_Routes = rts, pr_Forwards = rules\<rparr>);
                   opts1 = (if asked = [] then opts else opts\<lparr>opt_Profile := asked\<rparr>)
               in if cf_githubAction f then
                    (if opt_Token opts1 \<noteq> [] then connect_fail GithubWithToken
                     else let key = ce_getenv env ''AUTH_VPN_API_KEY''
                     in if key = [] then connect_fail GithubNeedsKey
                        else connect_with_key env f key opts1 rules save)
                  else if cf_apiKey f \<noteq> [] then connect_with_key env f (cf_apiKey f) opts1 rules save
                  else \<lparr>co_result = connect_finish env (cf_wait f) (cf_reconnect f) opts1 rules save,
                        co_calls = [], co_revoke = None\<rparr>))"

text \<open>\<open>disconnect\<close>: which process is sent \<open>SIGTERM\<close>, or whether a stale record is removed.\<close>

datatype disconnect_action = SendTerm int | RemoveStale | NothingToDo

definition disconnectCmd :: "TunnelMeta option \<Rightarrow> (meta_error + TunnelMeta) \<Rightarrow> disconnect_action" where
  "disconnectCmd current read =
     (case current of
        Some m \<Rightarrow> SendTerm (mt_PID m)
      | None \<Rightarrow> (case read of Inr m \<Rightarrow> RemoveStale | Inl e \<Rightarrow> NothingToDo))"

definition action_options :: "connect_action \<Rightarrow> options" where
  "action_options a = (case a of RunTunnel o' r s \<Rightarrow> o' | RunProxy o' fs r s \<Rightarrow> o')"

definition action_reconnects :: "connect_action \<Rightarrow> bool" where
  "action_reconnects a = (case a of RunTunnel o' r s \<Rightarrow> r | RunProxy o' fs r s \<Rightarrow> r)"

section \<open>Settings of a server\<close>

text \<open>A flag wins over the file, the file over the built-in value.\<close>

definition setting :: "'a option \<Rightarrow> (config_error + serverYaml) \<Rightarrow> (serverYaml \<Rightarrow> 'a) \<Rightarrow> 'a \<Rightarrow> 'a" where
  "setting flag loaded field v =
     (case flag of Some x \<Rightarrow> x | None \<Rightarrow> (case loaded of Inr sc \<Rightarrow> field sc | Inl _ \<Rightarrow> v))"

lemma serverStart_fields:
  "cfg_Subnet (serverStart_config f l) = setting (sf_subnet f) l sc_Subnet []"
  "cfg_ServerIP (serverStart_config f l) = setting (sf_serverIP f) l sc_ServerIP []"
  "cfg_MetricsAddr (serverStart_config f l) = setting (sf_metricsAddr f) l sc_MetricsAddr []"
  "cfg_ACLPath (serverStart_config f l) = setting (sf_acl f) l sc_ACLPath []"
  "cfg_APIKey (serverStart_config f l) = setting (sf_apiKey f) l sc_APIKey []"
  "cfg_ForwardBindAddr (serverStart_config f l) = setting (sf_forwardBind f) l sc_ForwardBindAddr []"
  "cfg_SSHAddr (serverStart_config f l) = setting (sf_sshAddr f) l sc_SSHAddr []"
  "cfg_Expose (serverStart_config f l) = setting None l sc_Expose []"
  "cfg_NoPush (serverStart_config f l) = setting None l sc_NoPush False"
  "cfg_TokensPath (serverStart_config f l) = TokensFile"
  "cfg_Port (serverStart_config f l) =
     setting (sf_port f) l (\<lambda>sc. if sc_Port sc = 0 then 7777 else sc_Port sc) 7777"
  by (simp_all add: serverStart_config_def flag_overrides_def file_config_def flag_config_def setting_def flag_or_def
      split: option.split sum.split)

lemma push_steps_keep:
  "cfg_APIKey (expose_from_env g cfg) = cfg_APIKey cfg" "cfg_ACLPath (expose_from_env g cfg) = cfg_ACLPath cfg"
  "cfg_TokensPath (expose_from_env g cfg) = cfg_TokensPath cfg"
  "cfg_APIKey (note_dns d cfg) = cfg_APIKey cfg" "cfg_ACLPath (note_dns d cfg) = cfg_ACLPath cfg"
  "cfg_TokensPath (note_dns d cfg) = cfg_TokensPath cfg"
  "cfg_APIKey (routes_from_env g cfg) = cfg_APIKey cfg" "cfg_ACLPath (routes_from_env g cfg) = cfg_ACLPath cfg"
  "cfg_TokensPath (routes_from_env g cfg) = cfg_TokensPath cfg"
  "cfg_APIKey (routes_guessed rs cfg) = cfg_APIKey cfg" "cfg_ACLPath (routes_guessed rs cfg) = cfg_ACLPath cfg"
  "cfg_TokensPath (routes_guessed rs cfg) = cfg_TokensPath cfg"
  "cfg_APIKey (dns_detected d cfg) = cfg_APIKey cfg" "cfg_ACLPath (dns_detected d cfg) = cfg_ACLPath cfg"
  "cfg_TokensPath (dns_detected d cfg) = cfg_TokensPath cfg"
  by (simp_all add: expose_from_env_def note_dns_def routes_from_env_def routes_guessed_def dns_detected_def
      split: option.splits)

lemma resolvePush_keeps:
  "cfg_APIKey (resolvePush getenv fs cfg) = cfg_APIKey cfg \<and>
   cfg_ACLPath (resolvePush getenv fs cfg) = cfg_ACLPath cfg \<and>
   cfg_TokensPath (resolvePush getenv fs cfg) = cfg_TokensPath cfg"
  by (simp add: resolvePush_def Let_def push_steps_keep split: prod.split)

lemma applyDefaults_keeps:
  assumes "applyDefaults getenv out unm mar fs cfg = (cfg', fs')"
  shows "cfg_APIKey cfg' = cfg_APIKey cfg" "cfg_ACLPath cfg' = cfg_ACLPath cfg"
    "cfg_TokensPath cfg' = cfg_TokensPath cfg"
  using assms by (auto simp: applyDefaults_def Let_def resolvePush_keeps fill_defaults_def)

lemma persistAutoDefaults_files:
  "q \<noteq> ServerConfigFile \<Longrightarrow> files (persistAutoDefaults unm mar fs cfg) q = files fs q"
  by (simp add: persistAutoDefaults_def Let_def SaveServerConfig_files split: sum.split)

lemma persistAutoDefaults_env:
  "read_fails (persistAutoDefaults unm mar fs cfg) = read_fails fs"
  by (auto simp: persistAutoDefaults_def Let_def SaveServerConfig_def WriteFile_def split: sum.split option.split)

lemma New_server_fields:
  assumes "New_server now ty ay fs cfg = Inr s"
  shows "sv_cfg s = cfg" "NewManager ty fs (cfg_TokensPath cfg) = Inr (sv_tokens s)"
    "cfg_ACLPath cfg = [] \<Longrightarrow> sv_acl s = None" "sv_fs s = fs"
  using assms by (auto simp: New_server_def split: if_splits option.splits sum.splits)

section \<open>Forward rules\<close>

lemma parse_port_Itoa: "1 \<le> p \<Longrightarrow> p \<le> 65535 \<Longrightarrow> parse_port (Itoa p) = Some p"
  by (simp add: parse_port_def Atoi_Itoa)

lemma parse_port_range: "parse_port s = Some p \<Longrightarrow> 1 \<le> p \<and> p \<le> 65535"
  by (auto simp: parse_port_def split: option.splits if_splits)

lemma Itoa_no_colon: "0 \<le> i \<Longrightarrow> CHR '':'' \<notin> set (Itoa i)"
  by (simp add: Itoa_def nat_string_no_sign)

lemma parse_rule_text:
  assumes "1 \<le> lp" "lp \<le> 65535" "1 \<le> rp" "rp \<le> 65535" "host \<noteq> []"
  shows "parse_rule (Itoa lp @ '':'' @ host @ '':'' @ Itoa rp) =
    Inr \<lparr>fr_LocalPort = lp, fr_RemoteHost = host, fr_RemotePort = rp\<rparr>"
  using assms by (simp add: parse_rule_def parse_port_Itoa Itoa_no_colon)

definition rule_text :: "ForwardRule \<Rightarrow> string" where
  "rule_text r = Itoa (fr_LocalPort r) @ '':'' @ fr_RemoteHost r @ '':'' @ Itoa (fr_RemotePort r)"

definition rule_ok :: "ForwardRule \<Rightarrow> bool" where
  "rule_ok r \<longleftrightarrow> 1 \<le> fr_LocalPort r \<and> fr_LocalPort r \<le> 65535 \<and> 1 \<le> fr_RemotePort r \<and>
     fr_RemotePort r \<le> 65535 \<and> fr_RemoteHost r \<noteq> []"

lemma parse_rule_ok: "parse_rule s = Inr r \<Longrightarrow> rule_ok r"
  by (auto simp: parse_rule_def rule_ok_def Let_def dest!: parse_port_range split: option.splits if_splits)

lemma parseForwardRules_ok: "parseForwardRules ss = Inr rs \<Longrightarrow> list_all rule_ok rs \<and> length rs = length ss"
  by (induction ss arbitrary: rs) (auto split: sum.splits dest: parse_rule_ok)

section \<open>The API key\<close>

lemma generateEphemeralToken_calls:
  "c \<in> set (snd (generateEphemeralToken call base key gh getenv rnd)) \<Longrightarrow>
     fst c = base @ ''/api/tokens'' \<and> fst (snd c) = key"
  by (auto simp: generateEphemeralToken_def Let_def split: sum.splits)

lemma generateEphemeralToken_Inr:
  "generateEphemeralToken call base key gh getenv rnd = (Inr (tok, name), calls) \<Longrightarrow> tok \<noteq> [] \<and> calls \<noteq> []"
  by (auto simp: generateEphemeralToken_def Let_def split: sum.splits prod.splits if_splits)

lemma checkAPIURLSafety_None:
  "checkAPIURLSafety parse raw insecure = None \<longleftrightarrow>
     (\<exists>u. parse raw = Inr u \<and> (ToLower (u_Scheme u) = ''https'' \<or> insecure \<or> loopback_host (url_Hostname u)))"
  by (auto simp: checkAPIURLSafety_def split: sum.split)

lemma connect_finish_action:
  "connect_finish env w re opts rules save = Inr a \<Longrightarrow> action_reconnects a = re \<and> action_options a = opts"
  by (auto simp: connect_finish_def action_reconnects_def action_options_def split: if_splits sum.splits option.splits)

lemma connectCmd_cases:
  "(\<exists>e. connectCmd env f arg = connect_fail e) \<or>
   (\<exists>key opts rules save. key \<noteq> [] \<and> connectCmd env f arg = connect_with_key env f key opts rules save) \<or>
   (\<exists>opts rules save. connectCmd env f arg =
      \<lparr>co_result = connect_finish env (cf_wait f) (cf_reconnect f) opts rules save, co_calls = [], co_revoke = None\<rparr>)"
  unfolding connectCmd_def Let_def by (simp split: sum.split prod.split) blast

lemma choose_profile_Some:
  assumes "choose_profile ps c = Some p"
  shows "p \<in> set ps \<and> (pr_Name p = c \<or> (\<exists>n. Atoi c = Some (int n) \<and> 1 \<le> n \<and> n \<le> length ps \<and> p = ps ! (n - 1)))"
proof (cases "find (\<lambda>p. pr_Name p = c) ps = Some p")
  case True
  then show ?thesis using find_SomeD by fastforce
next
  case False
  then obtain i where i: "Atoi c = Some i" "1 \<le> i" "i \<le> int (length ps)" "p = ps ! nat (i - 1)"
    using assms by (auto simp: choose_profile_def split: option.splits if_splits)
  then have "Atoi c = Some (int (nat i))" "1 \<le> nat i" "nat i \<le> length ps" "p = ps ! (nat i - 1)"
    by (simp_all add: nat_diff_distrib)
  moreover from this have "p \<in> set ps" by auto
  ultimately show ?thesis by blast
qed

lemma pick_loop_Some:
  "pick_loop ps ls = Some p \<Longrightarrow> \<exists>l\<in>fst ` set ls. TrimSpace l \<noteq> [] \<and> choose_profile ps (TrimSpace l) = Some p"
  by (induction ps ls rule: pick_loop.induct) (auto simp: Let_def split: option.splits if_splits)

lemma checkAPIKey_iff:
  "cfg_APIKey (sv_cfg s) \<noteq> [] \<Longrightarrow>
     checkAPIKey s r \<longleftrightarrow> TrimPrefix (rq_Authorization r) ''Bearer '' = cfg_APIKey (sv_cfg s) \<or>
       query_get r ''key'' = cfg_APIKey (sv_cfg s)"
  by (simp add: checkAPIKey_def)

lemma parse_rule_rule_text: "rule_ok r \<Longrightarrow> parse_rule (rule_text r) = Inr r"
  unfolding rule_text_def rule_ok_def by (subst parse_rule_text) simp_all

section \<open>Properties\<close>

text \<open>\<open>parseForwardRules\<close> reads back what the rules say: for ports between 1 and 65535 and any
  non-empty host, even one with colons, the text of each rule parses to the rule.\<close>

theorem forward_rules_round_trip:
  assumes "list_all rule_ok rs"
  shows "parseForwardRules (map rule_text rs) = Inr rs"
  using assms by (induction rs) (simp_all add: parse_rule_rule_text)

theorem forward_rules_round_trip_witness:
  "parseForwardRules [''15432:fd00::7:5432'', ''80:db:81''] =
     Inr [\<lparr>fr_LocalPort = 15432, fr_RemoteHost = ''fd00::7'', fr_RemotePort = 5432\<rparr>,
          \<lparr>fr_LocalPort = 80, fr_RemoteHost = ''db'', fr_RemotePort = 81\<rparr>]"
  using forward_rules_round_trip [of "[\<lparr>fr_LocalPort = 15432, fr_RemoteHost = ''fd00::7'', fr_RemotePort = 5432\<rparr>,
      \<lparr>fr_LocalPort = 80, fr_RemoteHost = ''db'', fr_RemotePort = 81\<rparr>]"]
  by (simp add: rule_ok_def rule_text_def Itoa_def decimals)


definition lab_env :: connect_env where
  "lab_env = \<lparr>ce_pick = Inl NoProfiles, ce_load = (\<lambda>n. Inl (ErrProfileNotFound n)), ce_trust = (\<lambda>h fp. None),
     ce_interactive = False, ce_ask = (\<lambda>a. []), ce_getenv = (\<lambda>v. []),
     ce_parse = (\<lambda>u. Inr \<lparr>u_Scheme = ''http'', u_Host = ''localhost:9100''\<rparr>),
     ce_call = (\<lambda>c. Inr (201, ''{\"token\":\"t0\",\"name\":\"e1\"}'')), ce_rand = Inr [1], ce_reachable = (\<lambda>a. True),
     ce_stop = None\<rparr>"

definition lab_flags :: connect_flags where
  "lab_flags = \<lparr>cf_token = [], cf_background = False, cf_wait = False, cf_insecure = False, cf_reconnect = True,
     cf_githubAction = False, cf_noPushRoutes = False, cf_noPushDNS = False, cf_forward = [], cf_route = [],
     cf_apiKey = ''k'', cf_apiPort = 9100, cf_apiURL = []\<rparr>"


text \<open>C33: \<open>pickProfile\<close> never guesses: it returns a saved profile only on a terminal, and with more than
  one of them only the one whose name or number was typed on a line of the input.\<close>

theorem pick_never_guesses:
  assumes "pickProfile listed interactive input = Inr p"
  shows "\<exists>ps. listed = Inr ps \<and> p \<in> set ps \<and> interactive \<and>
    (ps = [p] \<or> (\<exists>l\<in>fst ` set input. TrimSpace l \<noteq> [] \<and> (TrimSpace l = pr_Name p \<or>
       (\<exists>n. Atoi (TrimSpace l) = Some (int n) \<and> 1 \<le> n \<and> n \<le> length ps \<and> p = ps ! (n - 1)))))"
proof -
  obtain ps where ps: "listed = Inr ps" "ps \<noteq> []" "interactive"
    and p: "length ps = 1 \<and> p = hd ps \<or> pick_loop ps input = Some p"
    using assms by (auto simp: pickProfile_def split: sum.splits if_splits option.splits)
  show ?thesis
  proof (cases "length ps = 1 \<and> p = hd ps")
    case True
    then have "ps = [p]" by (cases ps) auto
    with ps show ?thesis by simp
  next
    case False
    with p obtain l where "l \<in> fst ` set input" "TrimSpace l \<noteq> []" "choose_profile ps (TrimSpace l) = Some p"
      using pick_loop_Some by blast
    with choose_profile_Some ps(1,3) show ?thesis by metis
  qed
qed

theorem pick_never_guesses_witness:
  "let a = \<lparr>pr_Name = ''prod'', pr_Host = ''h:1'', pr_Token = [], pr_Fingerprint = [], pr_Routes = [], pr_Forwards = []\<rparr>;
       b = a\<lparr>pr_Name := ''stage''\<rparr>
   in pickProfile (Inr [a, b]) True [(''3'', False), (''stage'', False)] = Inr b \<and>
      (\<exists>ps. Inr [a, b] = (Inr ps :: profile_error + profile list) \<and> b \<in> set ps \<and> True \<and>
        (ps = [b] \<or> (\<exists>l\<in>fst ` set [(''3'', False), (''stage'', False)]. TrimSpace l \<noteq> [] \<and> (TrimSpace l = pr_Name b \<or>
          (\<exists>n. Atoi (TrimSpace l) = Some (int n) \<and> 1 \<le> n \<and> n \<le> length ps \<and> b = ps ! (n - 1))))))"
proof -
  let ?a = "\<lparr>pr_Name = ''prod'', pr_Host = ''h:1'', pr_Token = [], pr_Fingerprint = [], pr_Routes = [], pr_Forwards = []\<rparr>"
  have "pickProfile (Inr [?a, ?a\<lparr>pr_Name := ''stage''\<rparr>]) True [(''3'', False), (''stage'', False)] =
      Inr (?a\<lparr>pr_Name := ''stage''\<rparr>)" by code_simp
  with pick_never_guesses [OF this] show ?thesis unfolding Let_def by blast
qed

text \<open>A profile whose name is the number of another one cannot be picked: the number wins.\<close>

theorem numeric_name_is_shadowed:
  assumes "n < length ps" and "TrimSpace line = Itoa (int (Suc n))" and "length ps < 2 ^ 63" and "length ps \<noteq> 1"
  shows "pickProfile (Inr ps) True ((line, eof) # input) = Inr (ps ! n)"
proof -
  have "Atoi (Itoa (int (Suc n))) = Some (int (Suc n))"
    using assms(1,3) by (intro Atoi_Itoa) auto
  then have "choose_profile ps (TrimSpace line) = Some (ps ! n)"
    using assms(1,2) by (simp add: choose_profile_def)
  moreover have "TrimSpace line \<noteq> []" "ps \<noteq> []" using assms(1,2) by (auto simp: Itoa_def)
  ultimately show ?thesis using assms(4) by (simp add: pickProfile_def)
qed

end
