(* ===== verification/ClientRun.thy ===== *)
theory ClientRun
  imports ProxyMux
begin

text \<open>
  A whole connection: \<open>Connect\<close> and \<open>ConnectProxy\<close> of the client from the dial to the deferred calls,
  over what they share with other processes, the routing table, the commands run and the state
  directory. The events of the running tunnel are those of theories \<open>ClientConn\<close> and \<open>ProxyMux\<close>; what
  other processes do to the shared state while the tunnel is up is a function.
\<close>

section \<open>The shared state\<close>

record client_world =
  cw_fs :: filesys
  cw_routes :: routing
  cw_cmds :: "string list list"

text \<open>What a connection is given by its surroundings.\<close>

record conn_setup =
  su_dialed :: "dial_error + link"
  su_tun_err :: "string option"
  su_cfg_err :: "string option"
  su_dev :: string
  su_route_fails :: "string \<Rightarrow> bool"
  su_lookup :: "string \<Rightarrow> ip list"
  su_resolvectl :: bool
  su_dns_fails :: "string list \<Rightarrow> bool"
  su_private :: private_env
  su_rm :: "os_error option"
  su_dir :: string
  su_self :: int
  su_now :: instant

section \<open>TUN mode\<close>

definition connect_meta :: "options \<Rightarrow> AuthOKResponse \<Rightarrow> instant \<Rightarrow> TunnelMeta" where
  "connect_meta opts resp now =
     zero_meta\<lparr>mt_Profile := opt_Profile opts, mt_ServerAddr := opt_ServerAddr opts, mt_AssignedIP := ok_ClientIP resp,
       mt_ServerIP := ok_ServerIP resp, mt_Subnet := ok_Subnet resp, mt_ConnectedAt := now\<rparr>"

definition record_meta :: "conn_setup \<Rightarrow> TunnelMeta \<Rightarrow> client_world \<Rightarrow> client_world \<times> bool" where
  "record_meta su m w =
     (let (fs, e) = WriteMeta (su_private su) (cw_fs w) (su_dir su) (su_self su) m in (w\<lparr>cw_fs := fs\<rparr>, e = None))"

definition clear_meta :: "conn_setup \<Rightarrow> client_world \<Rightarrow> client_world" where
  "clear_meta su w = w\<lparr>cw_fs := fst (ClearMeta (su_rm su) (cw_fs w) (su_dir su) (su_self su))\<rparr>"

text \<open>The DNS commands, and those that take the setting back.\<close>

definition connect_dns :: "conn_setup \<Rightarrow> options \<Rightarrow> AuthOKResponse \<Rightarrow> string list list \<times> string list list" where
  "connect_dns su opts resp =
     (let ds = snd (pushed opts (serverIP (su_lookup su) (opt_ServerAddr opts)) resp)
      in case ok_DNS resp of
           None \<Rightarrow> ([], [])
         | Some dns \<Rightarrow>
             if ds = [] then ([], [])
             else applyDNS_linux (su_resolvectl su) (su_dns_fails su) (su_dev su) (dns_Server dns) ds)"

text \<open>From the routes to the record: the state after it, and whether the record was written.\<close>

definition connect_up :: "conn_setup \<Rightarrow> options \<Rightarrow> AuthOKResponse \<Rightarrow> client_world \<Rightarrow> client_world \<times> bool" where
  "connect_up su opts resp w =
     record_meta su (connect_meta opts resp (su_now su))
       (w\<lparr>cw_routes := routes_up (su_route_fails su) (su_dev su) opts
              (serverIP (su_lookup su) (opt_ServerAddr opts)) resp (cw_routes w),
          cw_cmds := cw_cmds w @ fst (connect_dns su opts resp)\<rparr>)"

text \<open>The deferred calls, last first.\<close>

definition connect_down :: "conn_setup \<Rightarrow> options \<Rightarrow> AuthOKResponse \<Rightarrow> bool \<Rightarrow> client_world \<Rightarrow> client_world" where
  "connect_down su opts resp recorded w =
     (let w1 = (if recorded then clear_meta su w else w);
          w2 = w1\<lparr>cw_cmds := cw_cmds w1 @ snd (connect_dns su opts resp)\<rparr>
      in w2\<lparr>cw_routes := routes_down (su_route_fails su) opts
              (serverIP (su_lookup su) (opt_ServerAddr opts)) resp (cw_routes w2)\<rparr>)"

text \<open>\<open>Connect\<close>: the shared state, the result (\<open>None\<close> while the tunnel is up) and the session.\<close>

definition Connect ::
    "conn_setup \<Rightarrow> options \<Rightarrow> client_event list \<Rightarrow> (client_world \<Rightarrow> client_world) \<Rightarrow> client_world \<Rightarrow>
     client_world \<times> connect_result option \<times> session option" where
  "Connect su opts es others w =
     (case connect_open opts (su_dialed su) (su_tun_err su) (su_cfg_err su) of
        Inl e \<Rightarrow> (w, Some (ConnectFailed e), None)
      | Inr (resp, l) \<Rightarrow>
          let (w1, recorded) = connect_up su opts resp w;
              w2 = others w1;
              s = client_run es (start_session l)
          in case ss_result s of
               None \<Rightarrow> (w2, None, Some s)
             | Some r \<Rightarrow> (connect_down su opts resp recorded w2, Some r, Some s))"

section \<open>Proxy mode\<close>

definition proxy_meta :: "options \<Rightarrow> instant \<Rightarrow> TunnelMeta" where
  "proxy_meta opts now =
     zero_meta\<lparr>mt_Profile := opt_Profile opts, mt_Proxy := True, mt_ServerAddr := opt_ServerAddr opts,
       mt_ConnectedAt := now\<rparr>"

definition proxy_up :: "conn_setup \<Rightarrow> options \<Rightarrow> client_world \<Rightarrow> client_world \<times> bool" where
  "proxy_up su opts w =
     (if opt_Background opts then record_meta su (proxy_meta opts (su_now su)) w else (w, False))"

text \<open>\<open>stop\<close>: how the final \<open>select\<close> ended, a signal or the context; \<open>None\<close> while it waits.\<close>

definition ConnectProxy ::
    "conn_setup \<Rightarrow> options \<Rightarrow> ForwardRule list \<Rightarrow> (int \<Rightarrow> string option) \<Rightarrow> mux_event list \<Rightarrow> connect_result option \<Rightarrow>
     (client_world \<Rightarrow> client_world) \<Rightarrow> client_world \<Rightarrow> client_world \<times> connect_result option \<times> mux option" where
  "ConnectProxy su opts rules bind es stop others w =
     (case ConnectProxy_open opts rules (su_dialed su) bind of
        Inl e \<Rightarrow> (w, Some (ConnectFailed e), None)
      | Inr m \<Rightarrow>
          let (w1, recorded) = proxy_up su opts w;
              w2 = others w1;
              m1 = mux_run es m
          in case (if stop = Some TunnelClosed \<and> \<not> mx_cancelled m1 then None else stop) of
               None \<Rightarrow> (w2, None, Some m1)
             | Some r \<Rightarrow>
                 (if recorded then clear_meta su w2 else w2, Some r,
                  Some (m1\<lparr>mx_link := close_link
                    (if r = CleanDisconnect then fst (link_send TypeDisconnect [] (mx_link m1)) else mx_link m1)\<rparr>)))"

section \<open>Facts\<close>

lemma connect_up_parts:
  assumes "connect_up su opts resp w = (w1, recorded)"
  shows "cw_routes w1 = routes_up (su_route_fails su) (su_dev su) opts
      (serverIP (su_lookup su) (opt_ServerAddr opts)) resp (cw_routes w)"
    and "WriteMeta (su_private su) (cw_fs w) (su_dir su) (su_self su) (connect_meta opts resp (su_now su)) =
      (cw_fs w1, if recorded then None else snd (WriteMeta (su_private su) (cw_fs w) (su_dir su) (su_self su)
        (connect_meta opts resp (su_now su))))"
    and "recorded \<longleftrightarrow> snd (WriteMeta (su_private su) (cw_fs w) (su_dir su) (su_self su)
        (connect_meta opts resp (su_now su))) = None"
  using assms by (auto simp: connect_up_def record_meta_def Let_def split: prod.splits)

lemma connect_down_routes:
  "cw_routes (connect_down su opts resp recorded w) = routes_down (su_route_fails su) opts
     (serverIP (su_lookup su) (opt_ServerAddr opts)) resp (cw_routes w)"
  by (simp add: connect_down_def clear_meta_def Let_def)

lemma connect_down_fs:
  "cw_fs (connect_down su opts resp recorded w) =
     (if recorded then fst (ClearMeta (su_rm su) (cw_fs w) (su_dir su) (su_self su)) else cw_fs w)"
  by (simp add: connect_down_def clear_meta_def Let_def)

lemma meta_storable_connect:
  "meta_storable (connect_meta opts resp now) \<longleftrightarrow>
     list_all utf8_valid [opt_Profile opts, opt_ServerAddr opts, ok_ClientIP resp, ok_ServerIP resp, ok_Subnet resp] \<and>
     time_reads now"
  by (simp add: meta_storable_def connect_meta_def zero_meta_def)

lemma meta_storable_proxy:
  "meta_storable (proxy_meta opts now) \<longleftrightarrow>
     list_all utf8_valid [opt_Profile opts, opt_ServerAddr opts, []] \<and> time_reads now"
  by (auto simp: meta_storable_def proxy_meta_def zero_meta_def)

text \<open>What \<open>ClearMeta\<close> does to a record that can be read.\<close>

lemma ClearMeta_own:
  "ReadMeta fs dir = Inr m \<Longrightarrow> mt_PID m = self \<Longrightarrow> files fs (metaFile dir) \<noteq> None \<Longrightarrow>
     files (fst (ClearMeta None fs dir self)) (metaFile dir) = None"
  by (auto simp: ClearMeta_def Remove_file_def)

lemma ClearMeta_foreign:
  "ReadMeta fs dir = Inr m \<Longrightarrow> mt_PID m \<noteq> self \<Longrightarrow> mt_PID m \<noteq> 0 \<Longrightarrow> fst (ClearMeta rm fs dir self) = fs"
  by (simp add: ClearMeta_def)

lemma Connect_returns:
  assumes "Connect su opts es others w = (w', Some r, Some s)"
  obtains resp l w1 recorded where
    "connect_open opts (su_dialed su) (su_tun_err su) (su_cfg_err su) = Inr (resp, l)"
    "connect_up su opts resp w = (w1, recorded)" "w' = connect_down su opts resp recorded (others w1)"
    "s = client_run es (start_session l)"
  using assms by (auto simp: Connect_def Let_def split: sum.splits prod.splits option.splits)

section \<open>Properties\<close>


definition lab_up_link :: link where
  "lab_up_link = \<lparr>lk_rd = \<lparr>rd_buf = frame_bytes TypeAuthOK (Encode (json_AuthOKResponse lab_reply)) @ [], rd_end = EOF\<rparr>,
     lk_wr = \<lparr>wr_out = [], wr_fail = None\<rparr>, lk_closed = False\<rparr>"

definition lab_setup :: conn_setup where
  "lab_setup = \<lparr>su_dialed = Inr lab_up_link, su_tun_err = None, su_cfg_err = None, su_dev = ''tun0'',
     su_route_fails = (\<lambda>r. False), su_lookup = (\<lambda>h. []), su_resolvectl = True, su_dns_fails = (\<lambda>c. False),
     su_private = quiet_env, su_rm = None, su_dir = ''/h'', su_self = 4242, su_now = zero_time\<rparr>"

definition lab_client_world :: client_world where
  "lab_client_world = \<lparr>cw_fs = healthy_fs Map.empty, cw_routes = [''192.168.1.0/24'' \<mapsto> ''eth0''], cw_cmds = []\<rparr>"

lemma lab_connect_open:
  "\<exists>l. connect_open push_options (su_dialed lab_setup) (su_tun_err lab_setup) (su_cfg_err lab_setup) = Inr (lab_reply, l)"
proof -
  have "length (Encode (json_AuthOKResponse lab_reply)) < 200"
    "length (Encode (json_AuthRequest \<lparr>ar_Token = opt_Token push_options, ar_Mode = []\<rparr>)) < 200" by code_simp+
  then have n: "length (Encode (json_AuthOKResponse lab_reply)) < maxFrameSize"
    "length (Encode (json_AuthRequest \<lparr>ar_Token = opt_Token push_options, ar_Mode = []\<rparr>)) < maxFrameSize"
    by (simp_all add: maxFrameSize_def)
  have "ok_utf8 lab_reply" by (simp add: ok_utf8_def lab_reply_def utf8_valid_ascii)
  then have d: "decode_AuthOKResponse (Encode (json_AuthOKResponse lab_reply)) = Inr lab_reply"
    by (rule decode_encode_AuthOKResponse)
  have f: "wr_fail (lk_wr lab_up_link) = None" "\<not> lk_closed lab_up_link"
    "rd_buf (lk_rd lab_up_link) = frame_bytes TypeAuthOK (Encode (json_AuthOKResponse lab_reply)) @ []"
    by (simp_all add: lab_up_link_def)
  show ?thesis
    using client_auth_ok [OF f(1,2) n(2,1) f(3)] d by (simp add: connect_open_def lab_setup_def)
qed

lemma lab_storable:
  "meta_storable (connect_meta push_options lab_reply zero_time)"
  "meta_storable (proxy_meta push_options zero_time)"
  by code_simp+

lemma lab_write:
  "\<exists>fs. WriteMeta quiet_env (healthy_fs m) ''/h'' 4242 (connect_meta push_options lab_reply zero_time) = (fs, None)"
  "\<exists>fs. WriteMeta quiet_env (healthy_fs m) ''/h'' 4242 (proxy_meta push_options zero_time) = (fs, None)"
  using zero_time_json
  by (auto simp: WriteMeta_def writePrivate_quiet json_TunnelMeta_def connect_meta_def proxy_meta_def zero_meta_def)

lemma lab_temp: "temp_apart quiet_env (metaFile ''/h'')"
  by (simp add: temp_apart_def quiet_env_def temp_name_def lab_metaFile)


text \<open>A proxy connection in the background writes \<open>tunnel.json\<close> although a TUN tunnel of another
  process is up, and hides it: before, connecting elsewhere would have stopped that tunnel; after it,
  the same call finds the proxy, leaves it alone as it should, and a second TUN tunnel comes up beside
  the first.\<close>

theorem proxy_record_hides_tunnel:
  assumes "proxy_up su opts w = (w', True)"
    and "ReadMeta (cw_fs w) (su_dir su) = Inr m" and "\<not> mt_Proxy m" and "mt_PID m \<noteq> self"
    and "probe (mt_PID m) = Delivered" and "sigterm (mt_PID m) = Delivered" and "\<not> alive (wait_exit 100 alive 0)"
    and "temp_apart (su_private su) (metaFile (su_dir su))" and "read_fails (cw_fs w) (metaFile (su_dir su)) = None"
    and "meta_storable (proxy_meta opts (su_now su))" and "- (2 ^ 63) \<le> su_self su" and "su_self su < 2 ^ 63"
    and "su_self su \<noteq> self" and "probe (su_self su) = Delivered"
  shows "StopRunningTunnel (CurrentTunnel probe ps (cw_fs w) (su_dir su) self) sigterm alive = ([mt_PID m], Inr (Some m)) \<and>
    StopRunningTunnel (CurrentTunnel probe ps (cw_fs w') (su_dir su) self) sigterm alive = ([], Inr None)"
proof -
  have wr: "WriteMeta (su_private su) (cw_fs w) (su_dir su) (su_self su) (proxy_meta opts (su_now su)) = (cw_fs w', None)"
    using assms(1) by (auto simp: proxy_up_def record_meta_def Let_def split: if_splits prod.splits)
  have "ReadMeta (cw_fs w') (su_dir su) = Inr ((proxy_meta opts (su_now su))\<lparr>mt_PID := su_self su\<rparr>)"
    using WriteMeta_reads [OF wr assms(8-12)] by simp
  then have "CurrentTunnel probe ps (cw_fs w') (su_dir su) self =
      Some ((proxy_meta opts (su_now su))\<lparr>mt_PID := su_self su\<rparr>)"
    using assms(13,14) by (simp add: CurrentTunnel_def IsProcessAlive_def)
  moreover have "CurrentTunnel probe ps (cw_fs w) (su_dir su) self = Some m"
    using assms(2,4,5) by (simp add: CurrentTunnel_def IsProcessAlive_def)
  ultimately show ?thesis
    using assms(3,6,7) by (simp add: StopRunningTunnel_def proxy_meta_def)
qed

theorem proxy_record_hides_tunnel_witness:
  "\<exists>m fs w'. ReadMeta fs ''/h'' = Inr m \<and> mt_PID m = 812 \<and>
     proxy_up lab_setup (push_options\<lparr>opt_Background := True\<rparr>) (lab_client_world\<lparr>cw_fs := fs\<rparr>) = (w', True) \<and>
     StopRunningTunnel (CurrentTunnel (\<lambda>p. Delivered) (Inl ()) fs ''/h'' 900) (\<lambda>p. Delivered) (\<lambda>k. k < 3) =
       ([812], Inr (Some m)) \<and>
     StopRunningTunnel (CurrentTunnel (\<lambda>p. Delivered) (Inl ()) (cw_fs w') ''/h'' 900) (\<lambda>p. Delivered) (\<lambda>k. k < 3) =
       ([], Inr None)"
proof -
  obtain v where v: "json_TunnelMeta (lab_meta\<lparr>mt_PID := 812\<rparr>) = Some v"
    using zero_time_json by (auto simp: json_TunnelMeta_def lab_meta_def zero_meta_def)
  then obtain fs where w: "WriteMeta quiet_env (healthy_fs Map.empty) ''/h'' 812 lab_meta = (fs, None)"
    and h: "read_fails fs = Map.empty"
    by (auto simp: WriteMeta_def writePrivate_quiet healthy_fs_def)
  have m: "ReadMeta fs ''/h'' = Inr (lab_meta\<lparr>mt_PID := 812\<rparr>)"
    using WriteMeta_reads [OF w lab_temp _ lab_meta_storable] by (simp add: healthy_fs_def)
  have p: "\<not> mt_Proxy lab_meta" by (simp add: lab_meta_def zero_meta_def)
  let ?opts = "push_options\<lparr>opt_Background := True\<rparr>"
  have pm: "proxy_meta ?opts zero_time = proxy_meta push_options zero_time" by (simp add: proxy_meta_def)
  obtain fs' where w': "WriteMeta quiet_env fs ''/h'' 4242 (proxy_meta push_options zero_time) = (fs', None)"
    using zero_time_json
    by (auto simp: WriteMeta_def writePrivate_quiet json_TunnelMeta_def proxy_meta_def zero_meta_def)
  then obtain w1 where u: "proxy_up lab_setup ?opts (lab_client_world\<lparr>cw_fs := fs\<rparr>) = (w1, True)"
    by (simp add: proxy_up_def record_meta_def lab_setup_def pm)
  have a: "\<not> wait_exit 100 (\<lambda>k. k < 3) 0 < 3" by (simp add: eval_nat_numeral)
  have "StopRunningTunnel (CurrentTunnel (\<lambda>p. Delivered) (Inl ()) fs ''/h'' 900) (\<lambda>p. Delivered) (\<lambda>k. k < 3) =
      ([812], Inr (Some (lab_meta\<lparr>mt_PID := 812\<rparr>))) \<and>
     StopRunningTunnel (CurrentTunnel (\<lambda>p. Delivered) (Inl ()) (cw_fs w1) ''/h'' 900) (\<lambda>p. Delivered) (\<lambda>k. k < 3) = ([], Inr None)"
    using proxy_record_hides_tunnel [OF u, of "lab_meta\<lparr>mt_PID := 812\<rparr>" 900 "\<lambda>p. Delivered" "\<lambda>p. Delivered" "\<lambda>k. k < 3" "Inl ()"]
      m a h lab_temp lab_storable(2) p
    by (simp add: lab_setup_def pm)
  with m u show ?thesis
    by (intro exI [of _ "lab_meta\<lparr>mt_PID := 812\<rparr>"] exI [of _ fs] exI [of _ w1] conjI) simp_all
qed

end
