(* ===== verification/ServerStart.thy ===== *)
theory ServerStart
  imports Access Install ClientState
begin

text \<open>
  The life of a server process: the host key of the embedded SSH server (\<open>loadOrGenerateSSHHostKey\<close> and
  \<open>startSSHServer\<close> of \<open>sshsrv.go\<close>), what \<open>Start\<close> of \<open>server.go\<close> sets up and in which order, and its
  accept loop with the signal handler as steps over the connections that are being served. The
  handlers themselves are in theories \<open>Server\<close> and \<open>Tunnel\<close>; here a connection is served until its
  handler returns. PEM decoding and RSA keys are arguments.
\<close>

section \<open>The host key\<close>

record 'k key_codec =
  kc_pem :: "string \<Rightarrow> bytes option"
  kc_parse :: "bytes \<Rightarrow> string + 'k"
  kc_marshal :: "'k \<Rightarrow> bytes"
  kc_signer :: "'k \<Rightarrow> string + 'k"

definition sshHostKeyFile :: string where "sshHostKeyFile = ''/etc/auth-vpn/ssh_host_key''"

definition stored_host_key :: "'k key_codec \<Rightarrow> filesys \<Rightarrow> string \<Rightarrow> 'k option" where
  "stored_host_key kc fs path =
     (case ReadFile fs path of
        Inl e \<Rightarrow> None
      | Inr d \<Rightarrow> (case kc_pem kc d of
                   None \<Rightarrow> None
                 | Some b \<Rightarrow> (case kc_parse kc b of Inl e \<Rightarrow> None | Inr k \<Rightarrow> Some k)))"

text \<open>\<open>gen\<close> is what \<open>rsa.GenerateKey\<close> delivers; a failing write is a warning.\<close>

definition loadOrGenerateSSHHostKey ::
    "'k key_codec \<Rightarrow> (string + 'k) \<Rightarrow> filesys \<Rightarrow> string \<Rightarrow> filesys \<times> (string + 'k)" where
  "loadOrGenerateSSHHostKey kc gen fs path =
     (case stored_host_key kc fs path of
        Some k \<Rightarrow> (fs, kc_signer kc k)
      | None \<Rightarrow>
          (case gen of
             Inl e \<Rightarrow> (fs, Inl (''generate host key: '' @ e))
           | Inr k \<Rightarrow> (fst (WriteFile fs path (pem_text ''RSA PRIVATE KEY'' (kc_marshal kc k))), kc_signer kc k)))"

text \<open>\<open>startSSHServer\<close>: the key it serves with, \<open>None\<close> when it does not start; \<open>listen\<close> is the error of
  the listener.\<close>

definition startSSHServer ::
    "'k key_codec \<Rightarrow> (string + 'k) \<Rightarrow> (string \<Rightarrow> string option) \<Rightarrow> filesys \<Rightarrow> config \<Rightarrow> filesys \<times> 'k option" where
  "startSSHServer kc gen listen fs cfg =
     (if cfg_SSHAddr cfg = [] then (fs, None)
      else case loadOrGenerateSSHHostKey kc gen fs sshHostKeyFile of
             (fs1, Inl e) \<Rightarrow> (fs1, None)
           | (fs1, Inr k) \<Rightarrow> (case listen (cfg_SSHAddr cfg) of Some e \<Rightarrow> (fs1, None) | None \<Rightarrow> (fs1, Some k)))"

section \<open>Starting\<close>

datatype start_action =
    EnableForwarding
  | OpenTUN string
  | GoRouteFromTUN
  | GoReaper
  | GoControlSocket
  | GoDirectListeners
  | GoSSHServer
  | GoWatchExposed
  | GoHTTPAPI
  | RunHTTPAPI
  | LoadKeyPair string string
  | ListenTLS int
  | HandleSignals

datatype start_error = NoAPIAddress | CreateServerTUN string | KeyPairFailed string | ListenFailed string

text \<open>What is started, in order, and the error \<open>Start\<close> returns early with.\<close>

definition Start_server ::
    "string option \<Rightarrow> string option \<Rightarrow> string option \<Rightarrow> server \<Rightarrow> start_action list \<times> start_error option" where
  "Start_server tun_err pair_err listen_err s =
     (let cfg = sv_cfg s
      in if cfg_UIOnly cfg then
           (if cfg_MetricsAddr cfg = [] then ([], Some NoAPIAddress) else ([RunHTTPAPI], None))
         else let first = [EnableForwarding, OpenTUN (cfg_ServerIP cfg @ ''/24'')]
         in case tun_err of
              Some e \<Rightarrow> (first, Some (CreateServerTUN e))
            | None \<Rightarrow>
                let up = first @ [GoRouteFromTUN, GoReaper, GoControlSocket, GoDirectListeners, GoSSHServer] @
                      (if sv_expose s \<noteq> None then [GoWatchExposed] else []) @
                      (if cfg_MetricsAddr cfg \<noteq> [] then [GoHTTPAPI] else []) @
                      [LoadKeyPair (cfg_TLSCert cfg) (cfg_TLSKey cfg)]
                in (case pair_err of
                      Some e \<Rightarrow> (up, Some (KeyPairFailed e))
                    | None \<Rightarrow>
                        (case listen_err of
                           Some e \<Rightarrow> (up @ [ListenTLS (cfg_Port cfg)], Some (ListenFailed e))
                         | None \<Rightarrow> (up @ [ListenTLS (cfg_Port cfg), HandleSignals], None))))"

section \<open>The control socket\<close>

definition SocketFile :: string where "SocketFile = ''/var/run/auth-vpn.sock''"

text \<open>What is left of a previous run is removed, since a Unix socket cannot be bound to a name that
  exists; \<open>bind_err\<close> is any other error of the listener. The second component: it serves.\<close>

definition listen_unix :: "string option \<Rightarrow> filesys \<Rightarrow> string \<Rightarrow> string + filesys" where
  "listen_unix bind_err fs p =
     (if files fs p \<noteq> None then Inl ''bind: address already in use''
      else case bind_err of Some e \<Rightarrow> Inl e | None \<Rightarrow> Inr (set_file p (Some []) fs))"

definition startControlSocket :: "os_error option \<Rightarrow> string option \<Rightarrow> filesys \<Rightarrow> filesys \<times> bool" where
  "startControlSocket rm_err bind_err fs =
     (let fs1 = fst (Remove_file rm_err fs SocketFile)
      in case listen_unix bind_err fs1 SocketFile of Inl e \<Rightarrow> (fs1, False) | Inr fs2 \<Rightarrow> (fs2, True))"

section \<open>The accept loop\<close>

datatype serve_phase = Accepting | WaitingForHandlers | ServerReturned

text \<open>\<open>sr_spawned\<close>: the connections whose goroutine was created but has not executed its first line,
  \<open>wg.Add\<close>; \<open>sr_active\<close>: those whose handler runs, what the wait group counts; \<open>sr_signals\<close>: the
  signal goroutine runs.\<close>

record serve_run =
  sr_sv :: server
  sr_phase :: serve_phase
  sr_listening :: bool
  sr_signals :: bool
  sr_spawned :: "nat list"
  sr_active :: "nat list"
  sr_accepted :: "nat list"

text \<open>What \<open>Start\<close> does before it returns.\<close>

definition remove_socket :: "server \<Rightarrow> server" where
  "remove_socket s = s\<lparr>sv_fs := fst (Remove_file None (sv_fs s) SocketFile)\<rparr>"

datatype serve_event = Incoming nat | HandlerRuns nat | AcceptError | Hangup | Terminate | HandlerDone nat | HandlersGone

definition start_serving :: "server \<Rightarrow> serve_run" where
  "start_serving s = \<lparr>sr_sv = s, sr_phase = Accepting, sr_listening = True, sr_signals = True,
    sr_spawned = [], sr_active = [], sr_accepted = []\<rparr>"

fun serve_step :: "(string \<Rightarrow> string + policy) \<Rightarrow> serve_event \<Rightarrow> serve_run \<Rightarrow> serve_run" where
  "serve_step acl_yaml (Incoming c) r =
     (if sr_phase r = Accepting \<and> sr_listening r
      then r\<lparr>sr_spawned := sr_spawned r @ [c], sr_accepted := sr_accepted r @ [c]\<rparr> else r)"
| "serve_step acl_yaml (HandlerRuns c) r =
     (if c \<in> set (sr_spawned r)
      then r\<lparr>sr_spawned := remove1 c (sr_spawned r), sr_active := sr_active r @ [c]\<rparr> else r)"
| "serve_step acl_yaml AcceptError r =
     (if sr_phase r = Accepting \<and> sv_done (sr_sv r) then r\<lparr>sr_phase := WaitingForHandlers\<rparr> else r)"
| "serve_step acl_yaml Hangup r = (if sr_signals r then r\<lparr>sr_sv := reload_acl acl_yaml (sr_sv r)\<rparr> else r)"
| "serve_step acl_yaml Terminate r =
     (if sr_signals r then r\<lparr>sr_sv := Shutdown (sr_sv r), sr_listening := False, sr_signals := False\<rparr> else r)"
| "serve_step acl_yaml (HandlerDone c) r = r\<lparr>sr_active := remove1 c (sr_active r)\<rparr>"
| "serve_step acl_yaml HandlersGone r =
     (if sr_phase r = WaitingForHandlers \<and> sr_active r = [] then r\<lparr>sr_phase := ServerReturned, sr_sv := remove_socket (sr_sv r)\<rparr> else r)"

definition serve_events :: "(string \<Rightarrow> string + policy) \<Rightarrow> serve_event list \<Rightarrow> serve_run \<Rightarrow> serve_run" where
  "serve_events acl_yaml es r = foldl (\<lambda>r e. serve_step acl_yaml e r) r es"

section \<open>Facts\<close>

lemma serve_events_simps [simp]:
  "serve_events y [] r = r" "serve_events y (e # es) r = serve_events y es (serve_step y e r)"
  "serve_events y (es @ fs) r = serve_events y fs (serve_events y es r)"
  by (simp_all add: serve_events_def)

lemma serve_step_active:
  "c \<in> set (sr_active r) \<Longrightarrow> e \<noteq> HandlerDone c \<Longrightarrow> c \<in> set (sr_active (serve_step y e r))"
  by (cases e) auto

lemma serve_step_waits:
  "c \<in> set (sr_active r) \<Longrightarrow> sr_phase r \<noteq> ServerReturned \<Longrightarrow> sr_phase (serve_step y e r) \<noteq> ServerReturned"
  by (cases e) auto

lemma serve_events_waits:
  "c \<in> set (sr_active r) \<Longrightarrow> sr_phase r \<noteq> ServerReturned \<Longrightarrow> HandlerDone c \<notin> set es \<Longrightarrow>
     sr_phase (serve_events y es r) \<noteq> ServerReturned"
  by (induction es arbitrary: r) (auto simp: serve_step_active serve_step_waits)

lemma reload_acl_done [simp]: "sv_done (reload_acl y s) = sv_done s"
  by (simp add: reload_acl_def split: option.split)

lemma not_listening:
  "\<not> sr_listening r \<Longrightarrow> sr_accepted (serve_events y es r) = sr_accepted r \<and> \<not> sr_listening (serve_events y es r)"
proof (induction es arbitrary: r)
  case (Cons e es)
  then have "\<not> sr_listening (serve_step y e r) \<and> sr_accepted (serve_step y e r) = sr_accepted r" by (cases e) auto
  with Cons.IH [of "serve_step y e r"] show ?case by simp
qed simp

lemma handlers_run:
  "sr_spawned r = cs @ ds \<Longrightarrow> serve_events y (map HandlerRuns cs) r =
     r\<lparr>sr_spawned := ds, sr_active := sr_active r @ cs\<rparr>"
  by (induction cs arbitrary: r) simp_all

lemma handlers_leave:
  "sr_active (serve_events y (map HandlerDone cs) r) = foldl (\<lambda>a c. remove1 c a) (sr_active r) cs \<and>
   sr_phase (serve_events y (map HandlerDone cs) r) = sr_phase r \<and>
   sr_sv (serve_events y (map HandlerDone cs) r) = sr_sv r"
  by (induction cs arbitrary: r) auto

lemma remove_each: "foldl (\<lambda>a c. remove1 c a) cs cs = []"
  by (induction cs) auto

section \<open>Properties\<close>

lemma key_written_is_read:
  assumes "loadOrGenerateSSHHostKey kc gen fs path = (fs', Inr k)"
    and "\<And>x. kc_pem kc (pem_text ''RSA PRIVATE KEY'' (kc_marshal kc x)) = Some (kc_marshal kc x)"
    and "\<And>x. kc_parse kc (kc_marshal kc x) = Inr x"
    and "read_fails fs path = None" and "write_fails fs path = None"
  shows "loadOrGenerateSSHHostKey kc gen' fs' path = (fs', Inr k)"
proof (cases "stored_host_key kc fs path")
  case (Some x)
  with assms(1) show ?thesis by (simp add: loadOrGenerateSSHHostKey_def)
next
  case None
  then obtain x where x: "gen = Inr x" "kc_signer kc x = Inr k"
    "fs' = fst (WriteFile fs path (pem_text ''RSA PRIVATE KEY'' (kc_marshal kc x)))"
    using assms(1) by (auto simp: loadOrGenerateSSHHostKey_def split: sum.splits)
  have "ReadFile fs' path = Inr (pem_text ''RSA PRIVATE KEY'' (kc_marshal kc x))"
    unfolding x(3) using assms(4,5) by (simp add: WriteFile_ok ReadFile_def)
  then have "stored_host_key kc fs' path = Some x" using assms(2,3) by (simp add: stored_host_key_def)
  with x(2) show ?thesis by (simp add: loadOrGenerateSSHHostKey_def)
qed

text \<open>The SSH host key survives restarts: a server that was started once with a key serves with the
  same key at every later start, whatever the random source would deliver then.\<close>

theorem host_key_survives_restart:
  assumes "startSSHServer kc gen listen fs cfg = (fs', Some k)" and "listen' (cfg_SSHAddr cfg) = None"
    and "\<forall>x. kc_pem kc (pem_text ''RSA PRIVATE KEY'' (kc_marshal kc x)) = Some (kc_marshal kc x)"
    and "\<forall>x. kc_parse kc (kc_marshal kc x) = Inr x"
    and "read_fails fs sshHostKeyFile = None" and "write_fails fs sshHostKeyFile = None"
  shows "startSSHServer kc gen' listen' fs' cfg = (fs', Some k)"
proof -
  have "loadOrGenerateSSHHostKey kc gen fs sshHostKeyFile = (fs', Inr k)" "cfg_SSHAddr cfg \<noteq> []"
    using assms(1) by (auto simp: startSSHServer_def split: if_splits prod.splits sum.splits option.splits)
  with key_written_is_read [of kc gen fs sshHostKeyFile fs' k gen'] assms show ?thesis
    by (simp add: startSSHServer_def)
qed

definition lab_key_codec :: "bool key_codec" where
  "lab_key_codec =
     \<lparr>kc_pem = (\<lambda>s. if s = pem_text ''RSA PRIVATE KEY'' [1] then Some [1]
                 else if s = pem_text ''RSA PRIVATE KEY'' [0] then Some [0] else None),
      kc_parse = (\<lambda>b. Inr (b = [1])), kc_marshal = (\<lambda>k. if k then [1] else [0]), kc_signer = Inr\<rparr>"

definition lab_root_fs :: filesys where
  "lab_root_fs = \<lparr>files = Map.empty, read_fails = Map.empty, mkdir_fails = Map.empty, write_fails = Map.empty\<rparr>"

theorem host_key_survives_restart_witness:
  "let cfg = lab_config\<lparr>cfg_SSHAddr := '':2222''\<rparr>;
       fs1 = fst (startSSHServer lab_key_codec (Inr True) (\<lambda>a. None) lab_root_fs cfg)
   in startSSHServer lab_key_codec (Inr False) (\<lambda>a. None) fs1 cfg = (fs1, Some True)"
proof -
  let ?cfg = "lab_config\<lparr>cfg_SSHAddr := '':2222''\<rparr>"
  have ne: "pem_text ''RSA PRIVATE KEY'' [0] \<noteq> pem_text ''RSA PRIVATE KEY'' [1]" by code_simp
  have "startSSHServer lab_key_codec (Inr True) (\<lambda>a. None) lab_root_fs ?cfg =
      (fst (startSSHServer lab_key_codec (Inr True) (\<lambda>a. None) lab_root_fs ?cfg), Some True)"
    by (simp add: startSSHServer_def loadOrGenerateSSHHostKey_def stored_host_key_def ReadFile_def lab_root_fs_def
        lab_key_codec_def)
  from host_key_survives_restart [OF this, of "\<lambda>a. None" "Inr False"] ne show ?thesis
    by (simp add: Let_def lab_key_codec_def lab_root_fs_def)
qed

text \<open>A key file that is there but holds no PKCS#1 key is overwritten: the host gets a new identity
  and the old key is lost.\<close>

theorem foreign_host_key_overwritten:
  assumes "stored_host_key kc fs path = None" and "write_fails fs path = None"
  shows "files (fst (loadOrGenerateSSHHostKey kc (Inr k) fs path)) path =
    Some (pem_text ''RSA PRIVATE KEY'' (kc_marshal kc k))"
  using assms by (simp add: loadOrGenerateSSHHostKey_def WriteFile_ok)

lemma handlers_finish:
  assumes "sr_phase r = WaitingForHandlers"
  shows "let r' = serve_events y (map HandlerRuns (sr_spawned r) @ map HandlerDone (sr_active r @ sr_spawned r) @
      [HandlersGone]) r
    in sr_phase r' = ServerReturned \<and> sr_sv r' = remove_socket (sr_sv r)"
proof -
  define r1 where "r1 = r\<lparr>sr_spawned := [], sr_active := sr_active r @ sr_spawned r\<rparr>"
  define r2 where "r2 = serve_events y (map HandlerDone (sr_active r1)) r1"
  have "sr_active r2 = []" "sr_phase r2 = WaitingForHandlers" "sr_sv r2 = sr_sv r"
    unfolding r2_def using handlers_leave [of y "sr_active r1" r1] remove_each [of "sr_active r1"] assms
    by (metis, simp_all add: r1_def)
  moreover have "serve_events y (map HandlerRuns (sr_spawned r)) r = r1"
    using handlers_run [of r "sr_spawned r" "[]" y] by (simp add: r1_def)
  moreover have "sr_active r1 = sr_active r @ sr_spawned r" by (simp add: r1_def)
  ultimately show ?thesis by (simp add: r2_def)
qed

text \<open>C23: shutting down ends. After the first \<open>SIGTERM\<close> no connection is accepted any more, whatever
  happens next; and once the failing accept was seen and every handler of an open connection has
  returned, \<open>Start\<close> returns, with the control socket removed.\<close>

theorem shutdown_completes:
  assumes "sr_signals r" and "sr_phase r = Accepting"
  shows "sr_accepted (serve_events y (Terminate # es) r) = sr_accepted r \<and>
    (let r' = serve_events y ([Terminate, AcceptError] @ map HandlerRuns (sr_spawned r) @
          map HandlerDone (sr_active r @ sr_spawned r) @ [HandlersGone]) r
     in sr_phase r' = ServerReturned \<and> files (sv_fs (sr_sv r')) SocketFile = None)"
proof -
  have "sr_accepted (serve_events y es (serve_step y Terminate r)) = sr_accepted r"
    using not_listening [of "serve_step y Terminate r" y es] assms by simp
  moreover define q where "q = serve_events y [Terminate, AcceptError] r"
  have "sr_phase q = WaitingForHandlers" "sr_active q = sr_active r" "sr_spawned q = sr_spawned r"
    using assms by (simp_all add: q_def Shutdown_def)
  with handlers_finish [of q y]
  have fin: "let r' = serve_events y (map HandlerRuns (sr_spawned r) @ map HandlerDone (sr_active r @ sr_spawned r) @
      [HandlersGone]) q in sr_phase r' = ServerReturned \<and> sr_sv r' = remove_socket (sr_sv q)" by metis
  have eq: "serve_events y ([Terminate, AcceptError] @ es) r = serve_events y es q" for es
    by (simp only: q_def serve_events_simps(3))
  have "let r' = serve_events y ([Terminate, AcceptError] @ map HandlerRuns (sr_spawned r) @
          map HandlerDone (sr_active r @ sr_spawned r) @ [HandlersGone]) r
     in sr_phase r' = ServerReturned \<and> sr_sv r' = remove_socket (sr_sv q)"
    unfolding eq by (rule fin)
  moreover have "files (sv_fs (remove_socket (sr_sv q))) SocketFile = None"
    by (simp add: remove_socket_def Remove_file_def)
  ultimately show ?thesis unfolding Let_def serve_events_simps(2) by metis
qed

definition lab_run :: serve_run where
  "lab_run = serve_events (\<lambda>d. Inl ''no yaml'') [Incoming 0, HandlerRuns 0, Incoming 1, HandlerRuns 1, Incoming 2]
     (start_serving lab_server)"

lemma lab_run_state [simp]:
  "sr_signals lab_run" "sr_phase lab_run = Accepting" "sr_active lab_run = [0, 1]" "sr_spawned lab_run = [2]"
  "sr_accepted lab_run = [0, 1, 2]"
  by (simp_all add: lab_run_def start_serving_def)

theorem shutdown_completes_witness:
  "sr_accepted (serve_events (\<lambda>d. Inl ''no yaml'') [Terminate, Incoming 3, HandlerDone 0, Incoming 4] lab_run) = [0, 1, 2] \<and>
   sr_phase (serve_events (\<lambda>d. Inl ''no yaml'') [Terminate, AcceptError, HandlerRuns 2, HandlerDone 0, HandlerDone 1,
     HandlerDone 2, HandlersGone] lab_run) = ServerReturned"
  using shutdown_completes [of lab_run "\<lambda>d. Inl ''no yaml''" "[Incoming 3, HandlerDone 0, Incoming 4]"]
  by (simp add: Let_def)



text \<open>The wait group is told of a connection by the handler itself: a shutdown between the accept and
  the first line of the handler does not wait for it, and the process ends with the handler running.\<close>

theorem shutdown_misses_a_new_connection:
  assumes "sr_phase r = Accepting" and "sr_signals r" and "sr_active r = []" and "sr_spawned r = [c]"
  shows "let r' = serve_events y [Terminate, AcceptError, HandlersGone, HandlerRuns c] r
    in sr_phase r' = ServerReturned \<and> sr_active r' = [c]"
  using assms by (simp add: Shutdown_def Let_def)

text \<open>A control socket that a killed server left behind does not keep the next one from listening.\<close>

theorem control_socket_after_a_crash:
  "snd (startControlSocket None None fs) \<and>
   snd (startControlSocket (Some e) None fs) = (files fs SocketFile = None)"
  by (simp add: startControlSocket_def listen_unix_def Remove_file_def Let_def)

end
