(* ===== verification/Commands.thy ===== *)
theory Commands
  imports ServerStart Cli
begin

text \<open>
  The remaining commands of \<open>cmd/main.go\<close> and \<open>cmd/profiles.go\<close>: \<open>server clients\<close> with the JSON that the
  control socket answers (\<open>control.go\<close>, \<open>clients.go\<close>), \<open>server tokens\<close> on the file a running server has
  loaded, \<open>server change-port\<close>, \<open>server ui-dev\<close>, \<open>status\<close>, \<open>profile list\<close>, and \<open>ConnectProxyWithReconnect\<close>
  of \<open>client/proxy.go\<close>. What is printed is kept as the rows and fields the commands choose, without
  their layout.
\<close>

section \<open>The clients of a running server\<close>

definition json_clientInfo :: "clientInfo \<Rightarrow> json option" where
  "json_clientInfo c =
     map_option (\<lambda>t. JObj [(''name'', JStr (ci_Name c)), (''ip'', JStr (ci_IP c)), (''connected_at'', t),
       (''bytes_in'', JNum (Itoa (sint (ci_BytesIn c)))), (''bytes_out'', JNum (Itoa (sint (ci_BytesOut c))))])
       (json_time (ci_ConnectedAt c))"

definition json_controlResponse :: "controlResponse \<Rightarrow> json option" where
  "json_controlResponse r =
     map_option (\<lambda>cs. JObj ([(''clients'', cs)] @ (if cr_Error r = [] then [] else [(''error'', JStr (cr_Error r))])))
       (case cr_Clients r of
          None \<Rightarrow> Some JNull
        | Some cs \<Rightarrow> map_option JArr (those (map json_clientInfo cs)))"

text \<open>What the control socket writes for what it reads: nothing when the request does not decode or the
  answer has no JSON.\<close>

definition control_reply :: "string list \<Rightarrow> server \<Rightarrow> string \<Rightarrow> string" where
  "control_reply order s input =
     (case Option.bind (handleControl order s input) json_controlResponse of None \<Rightarrow> [] | Some v \<Rightarrow> encode_line v)"

record client_row =
  cl_Name :: string
  cl_IP :: string
  cl_ConnectedAt :: instant

definition zero_row :: client_row where
  "zero_row = \<lparr>cl_Name = [], cl_IP = [], cl_ConnectedAt = zero_time\<rparr>"

definition mem_client_row :: "string \<Rightarrow> json \<Rightarrow> client_row \<Rightarrow> client_row \<times> bool" where
  "mem_client_row k v c =
     (if key_is k ''name'' then (let (x, ok) = dec_string v (cl_Name c) in (c\<lparr>cl_Name := x\<rparr>, ok))
      else if key_is k ''ip'' then (let (x, ok) = dec_string v (cl_IP c) in (c\<lparr>cl_IP := x\<rparr>, ok))
      else if key_is k ''connected_at'' then
        (let (x, ok) = dec_time v (cl_ConnectedAt c) in (c\<lparr>cl_ConnectedAt := x\<rparr>, ok))
      else (c, True))"

definition mem_clients_reply ::
    "string \<Rightarrow> json \<Rightarrow> client_row list \<times> string \<Rightarrow> (client_row list \<times> string) \<times> bool" where
  "mem_clients_reply k v r =
     (let (cs, e) = r
      in if key_is k ''clients'' then
           (let (xs, ok) = dec_slice (\<lambda>v. dec_struct mem_client_row v zero_row) v cs in ((xs, e), ok))
         else if key_is k ''error'' then (let (x, ok) = dec_string v e in ((cs, x), ok))
         else (r, True))"

datatype clients_error = NoSocket string | BadReply | ServerSaid string

definition clients_request :: string where
  "clients_request = encode_line (JObj [(''cmd'', JStr ''clients'')])"

text \<open>\<open>serverClientsCmd\<close>; \<open>ask\<close> is the socket: an error to dial it, or its answer to what is sent.\<close>

definition serverClientsCmd :: "(string + (string \<Rightarrow> string)) \<Rightarrow> clients_error + client_row list" where
  "serverClientsCmd ask =
     (case ask of
        Inl e \<Rightarrow> Inl (NoSocket e)
      | Inr reply \<Rightarrow>
          (let ((cs, e), ok) = decode_first mem_clients_reply (reply clients_request) ([], [])
           in if \<not> ok then Inl BadReply else if e \<noteq> [] then Inl (ServerSaid e) else Inr cs))"

definition row_of :: "clientInfo \<Rightarrow> client_row" where
  "row_of c = \<lparr>cl_Name = ci_Name c, cl_IP = ci_IP c, cl_ConnectedAt = ci_ConnectedAt c\<rparr>"

definition info_printable :: "clientInfo \<Rightarrow> bool" where
  "info_printable c \<longleftrightarrow> utf8_valid (ci_Name c) \<and> utf8_valid (ci_IP c) \<and> time_reads (ci_ConnectedAt c)"

lemma json_clientInfo_reads:
  assumes "info_printable c"
  obtains v where "json_clientInfo c = Some v" "wf_json v" "json_depth v = 1"
    "dec_struct mem_client_row v zero_row = (row_of c, True)"
proof -
  from assms obtain s where s: "time_text (ci_ConnectedAt c) = Some s" "utf8_valid s"
    "parse_time s = Some (ci_ConnectedAt c)"
    by (auto simp: info_printable_def time_reads_def split: option.splits)
  let ?v = "JObj [(''name'', JStr (ci_Name c)), (''ip'', JStr (ci_IP c)), (''connected_at'', JStr s),
       (''bytes_in'', JNum (Itoa (sint (ci_BytesIn c)))), (''bytes_out'', JNum (Itoa (sint (ci_BytesOut c))))]"
  have "json_clientInfo c = Some ?v" by (simp add: json_clientInfo_def json_time_def s(1))
  moreover have "wf_json ?v" using assms s(2) by (simp add: info_printable_def utf8_valid_ascii)
  moreover have "dec_struct mem_client_row ?v zero_row = (row_of c, True)"
    by (simp add: dec_struct_def mem_client_row_def field_keys dec_string_def dec_time_def s(3) zero_row_def row_of_def)
  ultimately show thesis using that by simp
qed

lemma json_clients_read:
  assumes "list_all info_printable cs"
  obtains vs where "those (map json_clientInfo cs) = Some vs" "list_all wf_json vs"
    "list_all (\<lambda>v. json_depth v = 1) vs"
    "map (\<lambda>v. dec_struct mem_client_row v zero_row) vs = map (\<lambda>c. (row_of c, True)) cs"
  using assms
proof (induction cs arbitrary: thesis)
  case (Cons c cs)
  from Cons.prems(2) obtain v where v: "json_clientInfo c = Some v" "wf_json v" "json_depth v = 1"
    "dec_struct mem_client_row v zero_row = (row_of c, True)" using json_clientInfo_reads [of c] by auto
  from Cons.prems(2) obtain vs where "those (map json_clientInfo cs) = Some vs" "list_all wf_json vs"
    "list_all (\<lambda>v. json_depth v = 1) vs"
    "map (\<lambda>v. dec_struct mem_client_row v zero_row) vs = map (\<lambda>c. (row_of c, True)) cs"
    using Cons.IH by auto
  with v show ?case by (intro Cons.prems(1) [of "v # vs"]) simp_all
qed simp

lemma flat_depth: "list_all (\<lambda>v. json_depth v = 1) vs \<Longrightarrow> foldr (\<lambda>v. max (json_depth v)) vs 0 \<le> 1"
  by (induction vs) auto

lemma dec_slice_rows:
  "map f vs = map (\<lambda>c. (g c, True)) cs \<Longrightarrow> dec_slice f (JArr vs) old = (map g cs, True)"
proof (induction cs arbitrary: vs)
  case (Cons c cs)
  then obtain v ws where "vs = v # ws" "f v = (g c, True)" "map f ws = map (\<lambda>c. (g c, True)) cs" by auto
  with Cons.IH [of ws] show ?case by (simp add: dec_slice_def)
qed (simp add: dec_slice_def)

lemma dec_struct_one: "dec_struct upd (JObj [(k, v)]) r = upd k v r"
  by (simp add: dec_struct_def split_beta)

lemma clients_request_decoded:
  "handleControl order s clients_request = Some \<lparr>cr_Clients = Some (Snapshot order (sv_clients s)), cr_Error = []\<rparr>"
proof -
  have "decode_first mem_controlRequest clients_request [] = (''clients'', True)"
    unfolding clients_request_def
    by (subst decode_encoded_line)
      (simp_all add: utf8_valid_ascii max_nesting_def dec_struct_def mem_controlRequest_def field_keys dec_string_def)
  then show ?thesis by (simp add: handleControl_def)
qed

text \<open>C32: \<open>server clients\<close> shows the registry: what the control socket answers to the command's request
  decodes to the name, the address and the time of every client that is connected, in the order of
  the snapshot, whatever the byte counters are.\<close>

theorem clients_command_shows_registry:
  assumes "list_all info_printable (Snapshot order (sv_clients s))"
  shows "serverClientsCmd (Inr (control_reply order s)) = Inr (map row_of (Snapshot order (sv_clients s)))"
proof -
  let ?cs = "Snapshot order (sv_clients s)"
  obtain vs where vs: "those (map json_clientInfo ?cs) = Some vs" "list_all wf_json vs"
    "list_all (\<lambda>v. json_depth v = 1) vs"
    "map (\<lambda>v. dec_struct mem_client_row v zero_row) vs = map (\<lambda>c. (row_of c, True)) ?cs"
    using json_clients_read [OF assms] by blast
  have r: "control_reply order s clients_request = encode_line (JObj [(''clients'', JArr vs)])"
    by (simp add: control_reply_def clients_request_decoded json_controlResponse_def vs(1))
  have "dec_struct mem_clients_reply (JObj [(''clients'', JArr vs)]) ([], []) = ((map row_of ?cs, []), True)"
    by (simp add: dec_struct_one mem_clients_reply_def field_keys dec_slice_rows [OF vs(4)])
  then have "decode_first mem_clients_reply (control_reply order s clients_request) ([], []) = ((map row_of ?cs, []), True)"
    unfolding r using flat_depth [OF vs(3)] vs(2)
    by (subst decode_encoded_line) (simp_all add: utf8_valid_ascii max_nesting_def)
  then show ?thesis by (simp add: serverClientsCmd_def)
qed

theorem clients_command_shows_registry_witness:
  "serverClientsCmd (Inr (control_reply [''10.8.0.2''] (lab_open []))) =
     Inr [\<lparr>cl_Name = ''office'', cl_IP = ''10.8.0.2'', cl_ConnectedAt = 0\<rparr>]"
proof -
  have snap: "Snapshot [''10.8.0.2''] (sv_clients (lab_open [])) = [client_info (lab_client 0)]"
    by (simp add: Snapshot_def entries_in_def lab_open_def lab_registry_def)
  have "time_reads 0" "utf8_valid ''office''" "utf8_valid ''10.8.0.2''" by code_simp+
  then have "list_all info_printable (Snapshot [''10.8.0.2''] (sv_clients (lab_open [])))"
    by (simp add: snap info_printable_def client_info_def lab_client_def)
  from clients_command_shows_registry [OF this] show ?thesis
    by (simp add: snap row_of_def client_info_def lab_client_def)
qed

text \<open>An unknown request is answered with an error and \<open>null\<close> for the clients, which the command
  reports.\<close>

theorem unknown_request_reported:
  assumes "decode_first mem_controlRequest input [] = (cmd, True)" and "cmd \<noteq> ''clients''" 
    and "utf8_valid (''unknown command: '' @ cmd)"
  shows "serverClientsCmd (Inr (\<lambda>r. control_reply order s input)) = Inl (ServerSaid (''unknown command: '' @ cmd))"
proof -
  let ?v = "JObj [(''clients'', JNull), (''error'', JStr (''unknown command: '' @ cmd))]"
  have r: "control_reply order s input = encode_line ?v"
    using assms by (simp add: control_reply_def handleControl_def json_controlResponse_def)
  have "decode_first mem_clients_reply (control_reply order s input) ([], []) = dec_struct mem_clients_reply ?v ([], [])"
    unfolding r using assms(3) by (subst decode_encoded_line) (simp_all add: utf8_valid_ascii max_nesting_def)
  also have "\<dots> = (([], ''unknown command: '' @ cmd), True)"
    by (simp add: dec_struct_def mem_clients_reply_def field_keys dec_slice_def dec_string_def)
  finally show ?thesis by (simp add: serverClientsCmd_def)
qed

section \<open>Tokens from the command line\<close>

datatype tokens_error = TokensFailed token_error | BadExpires string

definition add_cli_token ::
    "marshaller \<Rightarrow> filesys \<Rightarrow> instant \<Rightarrow> (string + bytes) \<Rightarrow> manager \<Rightarrow> string \<Rightarrow> instant option \<Rightarrow> bool \<Rightarrow>
     filesys \<times> (tokens_error + string)" where
  "add_cli_token marshal fs now rnd m name expiresAt oneTime =
     (let (m', fs', raw, e) = Add_token marshal fs now rnd m name expiresAt oneTime
      in (fs', case e of Some x \<Rightarrow> Inl (TokensFailed x) | None \<Rightarrow> Inr raw))"

definition tokensAddCmd ::
    "marshaller \<Rightarrow> unmarshaller \<Rightarrow> (string \<Rightarrow> duration option) \<Rightarrow> filesys \<Rightarrow> instant \<Rightarrow> (string + bytes) \<Rightarrow>
     string \<Rightarrow> string \<Rightarrow> bool \<Rightarrow> filesys \<times> (tokens_error + string)" where
  "tokensAddCmd marshal unmarshal parseDuration fs now rnd name expires oneTime =
     (case NewManager unmarshal fs TokensFile of
        Inl e \<Rightarrow> (fs, Inl (TokensFailed e))
      | Inr m \<Rightarrow>
          if expires = [] then add_cli_token marshal fs now rnd m name None oneTime
          else case parseDuration expires of
                 None \<Rightarrow> (fs, Inl (BadExpires expires))
               | Some d \<Rightarrow> add_cli_token marshal fs now rnd m name (Some (now + d)) oneTime)"

definition tokensRevokeCmd ::
    "marshaller \<Rightarrow> unmarshaller \<Rightarrow> filesys \<Rightarrow> string \<Rightarrow> filesys \<times> tokens_error option" where
  "tokensRevokeCmd marshal unmarshal fs name =
     (case NewManager unmarshal fs TokensFile of
        Inl e \<Rightarrow> (fs, Some (TokensFailed e))
      | Inr m \<Rightarrow> (let (m', fs', e) = Revoke marshal fs m name in (fs', map_option TokensFailed e)))"

text \<open>The rows of \<open>tokens list\<close>: name, creation, expiry.\<close>

definition tokensListCmd :: "unmarshaller \<Rightarrow> filesys \<Rightarrow> tokens_error + (string \<times> instant \<times> instant option) list" where
  "tokensListCmd unmarshal fs =
     (case NewManager unmarshal fs TokensFile of
        Inl e \<Rightarrow> Inl (TokensFailed e)
      | Inr m \<Rightarrow> Inr (map (\<lambda>t. (tok_Name t, tok_CreatedAt t, tok_ExpiresAt t)) (List_tokens m)))"

lemma validate_loop_append:
  "fst (validate_loop h now ts) = Inr t \<Longrightarrow> fst (validate_loop h now (ts @ us)) = Inr t"
  by (induction ts) (auto simp: Let_def split: prod.splits if_splits)

lemma read_fails_save: "read_fails (fst (save_tokens marshal fs m)) = read_fails fs"
  by (auto simp: save_tokens_def WriteFile_def split: option.splits sum.splits prod.splits)

lemma Revoke_frame: "Revoke marshal fs m name = (m', fs', e) \<Longrightarrow> read_fails fs' = read_fails fs"
  using read_fails_save [of marshal fs]
  by (auto simp: Revoke_def Let_def split: option.splits prod.splits) (metis fst_conv)+

lemma Add_token_saved:
  assumes "Add_token marshal fs now rnd m name ex one = (m', fs', raw, None)"
  obtains t where "tm_tokens m' = tm_tokens m @ [t]" "tm_filePath m' = tm_filePath m" "tok_Name t = name"
    "save_tokens marshal fs m' = (fs', None)"
  using assms by (auto simp: Add_token_def Let_def split: sum.splits prod.splits)

text \<open>C40: a token revoked with \<open>server tokens revoke\<close> stays usable while the server runs, and the next
  token that is added over the API brings it back: the command edits the file, the running server
  holds its own list and writes all of it. After a restart every token that the server accepted
  before the revocation is accepted, the revoked one included.\<close>

theorem cli_revocation_is_undone:
  assumes "yaml_ok marshal unmarshal" and "NewManager unmarshal fs TokensFile = Inr m"
    and "tokensRevokeCmd marshal unmarshal fs name = (fs1, None)"
    and "Add_token marshal fs1 now rnd m other ex one = (m', fs2, raw', None)"
    and "read_fails fs TokensFile = None"
    and "fst (Validate marshal fs1 now m raw) = Inr t"
  shows "NewManager unmarshal fs2 TokensFile = Inr m' \<and> fst (Validate marshal fs2 now m' raw) = Inr t"
proof -
  from assms(2) have p: "tm_filePath m = TokensFile" by (rule NewManager_path)
  from assms(2,3) have r: "read_fails fs1 = read_fails fs"
    by (auto simp: tokensRevokeCmd_def split: prod.splits dest: Revoke_frame)
  obtain u where u: "tm_tokens m' = tm_tokens m @ [u]" "tm_filePath m' = tm_filePath m"
    "save_tokens marshal fs1 m' = (fs2, None)" using Add_token_saved [OF assms(4)] .
  from NewManager_saved [OF assms(1) u(3)] u(2) p r assms(5)
  have "NewManager unmarshal fs2 TokensFile = Inr m'" by simp
  with assms(6) u(1) show ?thesis by (simp add: Validate_result validate_loop_append)
qed

definition cli_token :: "string \<Rightarrow> string \<Rightarrow> token" where
  "cli_token name raw = \<lparr>tok_Name = name, tok_Hash = hashToken raw, tok_CreatedAt = 0, tok_ExpiresAt = None,
     tok_OneTime = False, tok_Used = False\<rparr>"

definition cli_marshal :: marshaller where
  "cli_marshal ts = (if ts = [] then Inr ''e'' else if ts = [cli_token ''eve'' ''k''] then Inr ''k''
     else if ts = [cli_token ''eve'' ''k'', cli_token ''bob'' ''01''] then Inr ''kb'' else Inl ''too many'')"

definition cli_unmarshal :: unmarshaller where
  "cli_unmarshal d = (if d = ''e'' then Inr [] else if d = ''k'' then Inr [cli_token ''eve'' ''k'']
     else Inr [cli_token ''eve'' ''k'', cli_token ''bob'' ''01''])"

theorem cli_revocation_is_undone_witness:
  "let fs1 = fst (tokensRevokeCmd cli_marshal cli_unmarshal (healthy_fs [TokensFile \<mapsto> ''k'']) ''eve'');
       m = \<lparr>tm_tokens = [cli_token ''eve'' ''k''], tm_filePath = TokensFile\<rparr>;
       (m', fs2, raw', e) = Add_token cli_marshal fs1 0 (Inr [1]) m ''bob'' None False
   in files fs1 TokensFile = Some ''e'' \<and> NewManager cli_unmarshal fs2 TokensFile = Inr m' \<and>
      fst (Validate cli_marshal fs2 0 m' ''k'') = Inr (cli_token ''eve'' ''k'')"
proof -
  let ?fs = "healthy_fs [TokensFile \<mapsto> ''k'']" and ?m = "\<lparr>tm_tokens = [cli_token ''eve'' ''k''], tm_filePath = TokensFile\<rparr>"
  let ?m' = "\<lparr>tm_tokens = [cli_token ''eve'' ''k'', cli_token ''bob'' ''01''], tm_filePath = TokensFile\<rparr>"
  have y: "yaml_ok cli_marshal cli_unmarshal" by (auto simp: yaml_ok_def cli_marshal_def cli_unmarshal_def split: if_splits)
  have n: "NewManager cli_unmarshal ?fs TokensFile = Inr ?m"
    by (simp add: NewManager_def load_tokens_def ReadFile_def healthy_fs_def cli_unmarshal_def)
  have r: "tokensRevokeCmd cli_marshal cli_unmarshal ?fs ''eve'' = (healthy_fs [TokensFile \<mapsto> ''e''], None)"
    unfolding tokensRevokeCmd_def n
    by (simp add: Revoke_def cli_token_def save_tokens_def MkdirAll_def cli_marshal_def WriteFile_def healthy_fs_def)
  have h: "EncodeToString [1] = ''01''" by code_simp
  have a: "Add_token cli_marshal (healthy_fs [TokensFile \<mapsto> ''e'']) 0 (Inr [1]) ?m ''bob'' None False =
      (?m', healthy_fs [TokensFile \<mapsto> ''kb''], ''01'', None)"
    by (simp add: Add_token_def Generate_def h save_tokens_def MkdirAll_def WriteFile_def healthy_fs_def cli_marshal_def
        cli_token_def)
  have v: "fst (Validate cli_marshal (healthy_fs [TokensFile \<mapsto> ''e'']) 0 ?m ''k'') = Inr (cli_token ''eve'' ''k'')"
    by (simp add: Validate_result cli_token_def expired_def)
  have f: "read_fails ?fs TokensFile = None" "files (healthy_fs [TokensFile \<mapsto> ''e'']) TokensFile = Some ''e''"
    by (simp_all add: healthy_fs_def)
  from cli_revocation_is_undone [OF y n r a f(1) v] f(2) show ?thesis by (simp add: r a)
qed

section \<open>Changing the port\<close>

datatype port_error = PortConfigLoad config_error | PortInvalid string | PortConfigSave config_error

text \<open>The commands that are run; their failures, and that of writing the unit, are warnings.\<close>

definition restart_commands :: "string list list" where
  "restart_commands = [[''systemctl'', ''daemon-reload''], [''systemctl'', ''restart'', ''auth-vpn'']]"

definition serverChangePortCmd ::
    "(string \<Rightarrow> string + serverYaml) \<Rightarrow> (serverYaml \<Rightarrow> string + string) \<Rightarrow> string \<Rightarrow> filesys \<Rightarrow> string \<Rightarrow>
     filesys \<times> (port_error + int option) \<times> string list list" where
  "serverChangePortCmd unmarshal marshal exe fs line =
     (case LoadServerConfig unmarshal fs ServerConfigFile of
        Inl e \<Rightarrow> (fs, Inl (PortConfigLoad e), [])
      | Inr cfg \<Rightarrow>
          (case change_port (sc_Port cfg) line of
             Inl e \<Rightarrow> (fs, Inl (PortInvalid e), [])
           | Inr None \<Rightarrow> (fs, Inr None, [])
           | Inr (Some p) \<Rightarrow>
               (case SaveServerConfig marshal fs ServerConfigFile (cfg\<lparr>sc_Port := p\<rparr>) of
                  (fs1, Some e) \<Rightarrow> (fs1, Inl (PortConfigSave e), [])
                | (fs1, None) \<Rightarrow> (fst (WriteSystemdService exe fs1 p), Inr (Some p), restart_commands))))"

lemma change_port_range: "change_port c line = Inr (Some p) \<Longrightarrow> 1 \<le> p \<and> p \<le> 65535"
  by (auto simp: change_port_def Let_def split: if_splits option.splits)

lemma serverChangePort_done:
  assumes "serverChangePortCmd unmarshal marshal exe fs line = (fs', Inr (Some p), cmds)"
  obtains cfg fs1 where "LoadServerConfig unmarshal fs ServerConfigFile = Inr cfg"
    "change_port (sc_Port cfg) line = Inr (Some p)"
    "SaveServerConfig marshal fs ServerConfigFile (cfg\<lparr>sc_Port := p\<rparr>) = (fs1, None)"
    "fs' = fst (WriteSystemdService exe fs1 p)" "cmds = restart_commands"
  using assms by (auto simp: serverChangePortCmd_def split: sum.splits option.splits prod.splits)

lemma saved_config_loads:
  assumes "SaveServerConfig marshal fs path c = (fs', None)" and "read_fails fs path = None"
    and "\<And>d. marshal c = Inr d \<Longrightarrow> unmarshal d = Inr c"
  shows "LoadServerConfig unmarshal fs' path = Inr c" and "write_fails fs' = write_fails fs"
    and "read_fails fs' = read_fails fs"
  using assms by (auto simp: SaveServerConfig_def LoadServerConfig_def WriteFile_def ReadFile_def
      split: sum.splits prod.splits option.splits)

lemma serverStart_other_fields:
  "cfg_TLSCert (serverStart_config f l) = CertFile" "cfg_TLSKey (serverStart_config f l) = KeyFile"
  "cfg_PushRoutes (serverStart_config f l) = setting None l sc_PushRoutes []"
  "cfg_PushDNS (serverStart_config f l) = setting None l sc_PushDNS None"
  "cfg_clusterDNS (serverStart_config f l) = []" "\<not> cfg_UIOnly (serverStart_config f l)"
  by (simp_all add: serverStart_config_def flag_overrides_def file_config_def flag_config_def setting_def
      split: option.split sum.split)

lemma serverStart_port:
  assumes "flag = None \<or> flag = Some p" and "p \<noteq> 0"
  shows "serverStart_config (f\<lparr>sf_port := flag\<rparr>) (Inr (cfg\<lparr>sc_Port := p\<rparr>)) =
    (serverStart_config f (Inr cfg))\<lparr>cfg_Port := p\<rparr>"
  using assms
  by (intro config.equality) (auto simp: serverStart_fields serverStart_other_fields setting_def split: option.split)

text \<open>A changed port takes effect: \<open>server.yaml\<close> then holds the port within its range and nothing
  else is changed in it, the unit starts the server with that port, and a server started with the
  unit's flag or with none runs with the settings it had before, on the new port.\<close>

theorem changed_port_takes_effect:
  assumes "serverChangePortCmd unmarshal marshal exe fs line = (fs', Inr (Some p), cmds)"
    and "\<forall>c d. marshal c = Inr d \<longrightarrow> unmarshal d = Inr c"
    and "read_fails fs ServerConfigFile = None" and "write_fails fs ServiceFile = None"
  shows "1 \<le> p \<and> p \<le> 65535 \<and> files fs' ServiceFile = Some (systemd_unit exe p) \<and>
    (\<forall>flag\<in>{None, Some p}. serverStart_config (f\<lparr>sf_port := flag\<rparr>) (LoadServerConfig unmarshal fs' ServerConfigFile) =
      (serverStart_config f (LoadServerConfig unmarshal fs ServerConfigFile))\<lparr>cfg_Port := p\<rparr>)"
proof -
  obtain cfg fs1 where d: "LoadServerConfig unmarshal fs ServerConfigFile = Inr cfg"
    "change_port (sc_Port cfg) line = Inr (Some p)"
    "SaveServerConfig marshal fs ServerConfigFile (cfg\<lparr>sc_Port := p\<rparr>) = (fs1, None)"
    "fs' = fst (WriteSystemdService exe fs1 p)"
    using serverChangePort_done [OF assms(1)] .
  have p: "1 \<le> p \<and> p \<le> 65535" by (rule change_port_range [OF d(2)])
  have l: "LoadServerConfig unmarshal fs1 ServerConfigFile = Inr (cfg\<lparr>sc_Port := p\<rparr>)" "write_fails fs1 = write_fails fs"
    using saved_config_loads [OF d(3) assms(3)] assms(2) by blast+
  have "ServerConfigFile \<noteq> ServiceFile" by (simp add: file_names)
  then have "files fs' ServerConfigFile = files fs1 ServerConfigFile" "read_fails fs' = read_fails fs1"
    "files fs' ServiceFile = Some (systemd_unit exe p)"
    using assms(4) l(2) by (simp_all add: d(4) WriteSystemdService_def WriteFile_ok)
  moreover from this l(1) have l': "LoadServerConfig unmarshal fs' ServerConfigFile = Inr (cfg\<lparr>sc_Port := p\<rparr>)"
    unfolding LoadServerConfig_def ReadFile_def by argo
  moreover have "serverStart_config (f\<lparr>sf_port := flag\<rparr>) (Inr (cfg\<lparr>sc_Port := p\<rparr>)) =
      (serverStart_config f (Inr cfg))\<lparr>cfg_Port := p\<rparr>" if "flag \<in> {None, Some p}" for flag
    using that p by (intro serverStart_port) auto
  ultimately show ?thesis using p d(1) by simp
qed

text \<open>A command that fails or leaves the port as it is runs nothing; unless saving failed half way
  it writes nothing either.\<close>

theorem unchanged_port_touches_nothing:
  "serverChangePortCmd unmarshal marshal exe fs line = (fs', r, cmds) \<Longrightarrow> \<forall>p. r \<noteq> Inr (Some p) \<Longrightarrow>
     cmds = [] \<and> ((\<forall>e. r \<noteq> Inl (PortConfigSave e)) \<longrightarrow> fs' = fs)"
  by (auto simp: serverChangePortCmd_def split: sum.splits option.splits prod.splits)

text \<open>The port is written before the unit: when the unit cannot be written the file and the unit name
  different ports, and the restarted server listens on the old one, the unit's flag winning.\<close>

theorem port_change_half_done:
  assumes "serverChangePortCmd unmarshal marshal exe fs line = (fs', Inr (Some p), cmds)"
    and "write_fails fs ServiceFile = Some (e, files fs ServiceFile)"
  shows "cmds = restart_commands \<and> files fs' ServiceFile = files fs ServiceFile \<and>
    cfg_Port (serverStart_config (f\<lparr>sf_port := Some q\<rparr>) loaded) = q"
proof -
  obtain cfg fs1 where d: "SaveServerConfig marshal fs ServerConfigFile (cfg\<lparr>sc_Port := p\<rparr>) = (fs1, None)"
    "fs' = fst (WriteSystemdService exe fs1 p)" "cmds = restart_commands"
    using serverChangePort_done [OF assms(1)] .
  have "ServiceFile \<noteq> ServerConfigFile" by (simp add: file_names)
  then have "files fs1 ServiceFile = files fs ServiceFile" "write_fails fs1 = write_fails fs"
    using d(1) by (auto simp: SaveServerConfig_def WriteFile_def split: sum.splits prod.splits option.splits)
  with d(2,3) assms(2) show ?thesis
    by (simp add: WriteSystemdService_def WriteFile_def serverStart_fields setting_def)
qed

definition cli_yaml :: "int \<Rightarrow> serverYaml" where
  "cli_yaml p = \<lparr>sc_Port = p, sc_Subnet = ''10.8.0.0/24'', sc_ServerIP = ''10.8.0.1'', sc_MetricsAddr = [],
     sc_ACLPath = [], sc_APIKey = ''k'', sc_ForwardBindAddr = [], sc_SSHAddr = [], sc_PushRoutes = [], sc_PushDNS = None,
     sc_NoPush = False, sc_Expose = []\<rparr>"

definition cli_port_marshal :: "serverYaml \<Rightarrow> string + string" where
  "cli_port_marshal c = (if c = cli_yaml 7777 then Inr ''old'' else if c = cli_yaml 8443 then Inr ''new'' else Inl [])"

definition cli_port_unmarshal :: "string \<Rightarrow> string + serverYaml" where
  "cli_port_unmarshal d = Inr (cli_yaml (if d = ''old'' then 7777 else 8443))"

definition flags_none :: start_flags where
  "flags_none = \<lparr>sf_port = None, sf_subnet = None, sf_serverIP = None, sf_metricsAddr = None, sf_acl = None,
     sf_apiKey = None, sf_forwardBind = None, sf_sshAddr = None\<rparr>"

theorem changed_port_takes_effect_witness:
  "let fs' = fst (serverChangePortCmd cli_port_unmarshal cli_port_marshal ''/usr/bin/auth-vpn''
         (healthy_fs [ServerConfigFile \<mapsto> ''old'']) '' 8443'')
   in files fs' ServiceFile = Some (systemd_unit ''/usr/bin/auth-vpn'' 8443) \<and>
      cfg_Port (serverStart_config (flags_none) (LoadServerConfig cli_port_unmarshal fs' ServerConfigFile)) = 8443"
proof -
  let ?fs = "healthy_fs [ServerConfigFile \<mapsto> ''old'']"
  have l: "LoadServerConfig cli_port_unmarshal ?fs ServerConfigFile = Inr (cli_yaml 7777)"
    by (simp add: LoadServerConfig_def ReadFile_def healthy_fs_def cli_port_unmarshal_def)
  have c: "change_port 7777 '' 8443'' = Inr (Some 8443)" by code_simp
  have m: "cli_port_marshal (cli_yaml 8443) = Inr ''new''" "(cli_yaml 7777)\<lparr>sc_Port := 8443\<rparr> = cli_yaml 8443"
    by (simp_all add: cli_port_marshal_def cli_yaml_def)
  have y: "\<forall>c d. cli_port_marshal c = Inr d \<longrightarrow> cli_port_unmarshal d = Inr c"
    by (auto simp: cli_port_marshal_def cli_port_unmarshal_def split: if_splits)
  have p: "sc_Port (cli_yaml 7777) = 7777" by (simp add: cli_yaml_def)
  obtain fs1 where "SaveServerConfig cli_port_marshal ?fs ServerConfigFile (cli_yaml 8443) = (fs1, None)"
    by (simp add: SaveServerConfig_def m(1) WriteFile_def healthy_fs_def)
  then obtain fs' where r: "serverChangePortCmd cli_port_unmarshal cli_port_marshal ''/usr/bin/auth-vpn'' ?fs '' 8443'' =
      (fs', Inr (Some 8443), restart_commands)"
    unfolding serverChangePortCmd_def l by (simp add: p c m(2))
  have "read_fails ?fs ServerConfigFile = None" "write_fails ?fs ServiceFile = None" by (simp_all add: healthy_fs_def)
  from changed_port_takes_effect [OF r y this, of flags_none] have "files fs' ServiceFile = Some (systemd_unit ''/usr/bin/auth-vpn'' 8443)"
    "serverStart_config (flags_none\<lparr>sf_port := None\<rparr>) (LoadServerConfig cli_port_unmarshal fs' ServerConfigFile) =
      (serverStart_config flags_none (LoadServerConfig cli_port_unmarshal ?fs ServerConfigFile))\<lparr>cfg_Port := 8443\<rparr>"
    by blast+
  moreover have "flags_none\<lparr>sf_port := None\<rparr> = flags_none" by (simp add: flags_none_def)
  ultimately show ?thesis by (simp add: r Let_def)
qed

section \<open>Other server commands\<close>

definition serverInstallCmd :: "install_env \<Rightarrow> filesys \<Rightarrow> int \<Rightarrow> filesys \<times> (install_error + string)" where
  "serverInstallCmd env fs port =
     (case Install env fs port of
        (fs1, Inl e) \<Rightarrow> (fs1, Inl e)
      | (fs1, Inr (publicIP, rawToken, apiKey)) \<Rightarrow> (fs1, Inr (InstallSummary env fs1 publicIP port rawToken apiKey)))"

text \<open>\<open>New\<close> as it is called: the defaults are filled in first.\<close>

definition new_with_defaults ::
    "(string \<Rightarrow> string) \<Rightarrow> string \<Rightarrow> (string \<Rightarrow> string + serverYaml) \<Rightarrow> (serverYaml \<Rightarrow> string + string) \<Rightarrow> instant \<Rightarrow>
     unmarshaller \<Rightarrow> (string \<Rightarrow> string + policy) \<Rightarrow> filesys \<Rightarrow> config \<Rightarrow> new_error + server" where
  "new_with_defaults getenv outboundIP unmarshal marshal now tokens_yaml acl_yaml fs cfg =
     (let (cfg1, fs1) = applyDefaults getenv outboundIP unmarshal marshal fs cfg
      in New_server now tokens_yaml acl_yaml fs1 cfg1)"

text \<open>The configuration of \<open>server ui-dev\<close>, and what it starts.\<close>

definition ui_dev_config :: "string \<Rightarrow> string \<Rightarrow> config" where
  "ui_dev_config addr tokensPath =
     \<lparr>cfg_Port = 7777, cfg_TLSCert = [], cfg_TLSKey = [],
      cfg_TokensPath = (if tokensPath = [] then ''./auth-vpn-dev-tokens.yaml'' else tokensPath), cfg_Subnet = [],
      cfg_ServerIP = [], cfg_MetricsAddr = addr, cfg_ACLPath = [], cfg_APIKey = [], cfg_ForwardBindAddr = [],
      cfg_SSHAddr = [], cfg_PushRoutes = [], cfg_PushDNS = None, cfg_NoPush = False, cfg_Expose = [],
      cfg_clusterDNS = [], cfg_UIOnly = True\<rparr>"

definition serverUIDevCmd :: "(config \<Rightarrow> new_error + server) \<Rightarrow> string \<Rightarrow> string \<Rightarrow> new_error + start_action list \<times> start_error option" where
  "serverUIDevCmd new addr tokensPath =
     (case new (ui_dev_config addr tokensPath) of
        Inl e \<Rightarrow> Inl e
      | Inr s \<Rightarrow> Inr (Start_server None None None s))"

text \<open>\<open>hub serve\<close>: the hub that is served and the address it is served on.\<close>

definition hubServeCmd ::
    "(string \<Rightarrow> string + hub_config) \<Rightarrow> filesys \<Rightarrow> string option \<Rightarrow> string \<Rightarrow> int \<Rightarrow> hub_error + hub \<times> string" where
  "hubServeCmd unmarshal fs home bind port =
     (case LoadConfig unmarshal fs home of
        Inl e \<Rightarrow> Inl e
      | Inr cfg \<Rightarrow> Inr (New_hub cfg (hc_HubKey cfg) home fs, bind @ '':'' @ Itoa port))"

section \<open>The client's commands\<close>

definition ConnectProxyWithReconnect :: "connect_result list \<Rightarrow> duration list \<times> bool" where
  "ConnectProxyWithReconnect = reconnect_loop reconnectInitialBackoff"

text \<open>\<open>time.Duration.Round(time.Second)\<close>: halves away from zero.\<close>

definition round_seconds :: "duration \<Rightarrow> duration" where
  "round_seconds d = sgn d * ((\<bar>d\<bar> + 500000000) div 1000000000 * 1000000000)"

datatype tunnel_status =
    StaleStateFile
  | NotConnected
  | OlderTunnel int string
  | ConnectedTunnel TunnelMeta string duration

text \<open>\<open>statusCmd\<close>: the record that is shown with its mode and uptime. A tunnel without a time was found by
  its process only.\<close>

definition statusCmd ::
    "(int \<Rightarrow> signal_result) \<Rightarrow> (unit + string) \<Rightarrow> filesys \<Rightarrow> string \<Rightarrow> int \<Rightarrow> instant \<Rightarrow> tunnel_status" where
  "statusCmd probe ps fs dir self now =
     (case CurrentTunnel probe ps fs dir self of
        None \<Rightarrow> (case ReadMeta fs dir of Inr m \<Rightarrow> StaleStateFile | Inl e \<Rightarrow> NotConnected)
      | Some m \<Rightarrow>
          if mt_ConnectedAt m = zero_time then OlderTunnel (mt_PID m) (tunnelLabel m)
          else ConnectedTunnel m (if mt_Proxy m then ''proxy'' else ''tun'') (round_seconds (now - mt_ConnectedAt m)))"

record profile_row =
  row_number :: "int option"
  row_name :: string
  row_host :: string
  row_mode :: string
  row_cert :: string
  row_connected :: bool

definition profile_mode :: "profile \<Rightarrow> string" where
  "profile_mode p =
     (if pr_Forwards p \<noteq> [] then ''proxy, '' @ Itoa (int (length (pr_Forwards p))) @ '' forward(s)''
      else if pr_Routes p \<noteq> [] then ''tun +'' @ Itoa (int (length (pr_Routes p))) @ '' route(s)''
      else ''tun'')"

definition printProfiles ::
    "hosts_unmarshal \<Rightarrow> filesys \<Rightarrow> string \<Rightarrow> TunnelMeta option \<Rightarrow> profile list \<Rightarrow> bool \<Rightarrow> profile_row list" where
  "printProfiles hosts fs dir live ps numbered =
     map (\<lambda>(i, p). \<lparr>row_number = (if numbered then Some (int i + 1) else None), row_name = pr_Name p,
            row_host = pr_Host p, row_mode = profile_mode p,
            row_cert = (if IsPinned hosts fs dir p then ''pinned'' else ''ask on first connect''),
            row_connected = (case live of None \<Rightarrow> False | Some m \<Rightarrow> mt_Profile m = pr_Name p)\<rparr>)
       (enumerate 0 ps)"

text \<open>\<open>profile list\<close>: the rows, none standing for the help text; and \<open>profile rm\<close>.\<close>

definition profileListCmd ::
    "profile_unmarshal \<Rightarrow> hosts_unmarshal \<Rightarrow> filesys \<Rightarrow> string \<Rightarrow> TunnelMeta option \<Rightarrow> profile_error + profile_row list" where
  "profileListCmd unmarshal hosts fs dir live =
     (case ListProfiles unmarshal fs dir of
        Inl e \<Rightarrow> Inl e
      | Inr ps \<Rightarrow> Inr (printProfiles hosts fs dir live ps False))"

text \<open>\<open>status\<close> shows the connection that is up: once a process has recorded its tunnel and as long as it
  lives, any other process reports that record, with the process that owns it; and it reports a stale
  file when the process is gone and no other connect command runs.\<close>

theorem status_reports_connection:
  assumes "WriteMeta env fs dir q m = (fs', None)" and "temp_apart env (metaFile dir)"
    and "read_fails fs (metaFile dir) = None" and "meta_storable m"
    and "- (2 ^ 63) \<le> q" and "q < 2 ^ 63" and "p \<noteq> q" and "mt_ConnectedAt m \<noteq> zero_time"
  shows "(IsProcessAlive probe q \<longrightarrow> statusCmd probe ps fs' dir p now =
      ConnectedTunnel (m\<lparr>mt_PID := q\<rparr>) (if mt_Proxy m then ''proxy'' else ''tun'')
        (round_seconds (now - mt_ConnectedAt m))) \<and>
    (\<not> IsProcessAlive probe q \<longrightarrow> statusCmd probe (Inl ()) fs' dir p now = StaleStateFile)"
  using WriteMeta_reads [OF assms(1-6)] assms(7,8) by (simp add: statusCmd_def CurrentTunnel_def)

text \<open>The row of a profile that is shown as connected carries the name the running tunnel recorded, and
  numbered rows are numbered the way a choice is read.\<close>

theorem numbered_rows_match_choices:
  assumes "i < length ps" and "Atoi s = row_number (printProfiles hosts fs dir live ps True ! i)"
  shows "choose_profile ps s = Some (ps ! i)"
  using assms by (simp add: printProfiles_def choose_profile_def nth_enumerate_eq)

lemma push_steps_keep_ui:
  "cfg_UIOnly (expose_from_env g cfg) = cfg_UIOnly cfg" "cfg_MetricsAddr (expose_from_env g cfg) = cfg_MetricsAddr cfg"
  "cfg_UIOnly (note_dns d cfg) = cfg_UIOnly cfg" "cfg_MetricsAddr (note_dns d cfg) = cfg_MetricsAddr cfg"
  "cfg_UIOnly (routes_from_env g cfg) = cfg_UIOnly cfg" "cfg_MetricsAddr (routes_from_env g cfg) = cfg_MetricsAddr cfg"
  "cfg_UIOnly (routes_guessed rs cfg) = cfg_UIOnly cfg" "cfg_MetricsAddr (routes_guessed rs cfg) = cfg_MetricsAddr cfg"
  "cfg_UIOnly (dns_detected d cfg) = cfg_UIOnly cfg" "cfg_MetricsAddr (dns_detected d cfg) = cfg_MetricsAddr cfg"
  by (simp_all add: expose_from_env_def note_dns_def routes_from_env_def routes_guessed_def dns_detected_def
      split: option.splits)

lemma resolvePush_keeps_ui:
  "cfg_UIOnly (resolvePush getenv fs cfg) = cfg_UIOnly cfg \<and>
   cfg_MetricsAddr (resolvePush getenv fs cfg) = cfg_MetricsAddr cfg"
  by (simp add: resolvePush_def Let_def push_steps_keep_ui split: prod.split)

text \<open>\<open>server ui-dev\<close> opens nothing but the dashboard, and the dashboard asks for no key. The check for
  an empty address never fails, since the default is filled in before: with \<open>--addr ""\<close> the open
  dashboard is served on all interfaces.\<close>

theorem ui_dev_serves_open_dashboard:
  assumes "new_with_defaults getenv out unm mar now tokens_yaml acl_yaml fs (ui_dev_config addr tokensPath) = Inr s"
  shows "Start_server t k l s = ([RunHTTPAPI], None) \<and> checkAPIKey s r \<and>
    cfg_MetricsAddr (sv_cfg s) = (if addr = [] then ''0.0.0.0:9100'' else addr)"
proof -
  obtain cfg1 fs1 where a: "applyDefaults getenv out unm mar fs (ui_dev_config addr tokensPath) = (cfg1, fs1)"
    "New_server now tokens_yaml acl_yaml fs1 cfg1 = Inr s"
    using assms by (auto simp: new_with_defaults_def split: prod.splits)
  have "sv_cfg s = cfg1"
    using a(2) by (auto simp: New_server_def Let_def split: if_splits option.splits sum.splits)
  moreover have "cfg_UIOnly cfg1" "cfg_MetricsAddr cfg1 = (if addr = [] then ''0.0.0.0:9100'' else addr)"
    using a(1) by (auto simp: applyDefaults_def Let_def resolvePush_keeps_ui fill_defaults_def ui_dev_config_def
      DefaultMetricsAddr_def)
  moreover have "cfg_APIKey cfg1 = []"
    using applyDefaults_keeps(1) [OF a(1)] by (simp add: ui_dev_config_def)
  ultimately show ?thesis by (simp add: Start_server_def checkAPIKey_def)
qed

end
