(* ===== verification/DualProto.thy ===== *)
theory DualProto
  imports Access
begin

text \<open>
  The listener of the dashboard, \<open>internal/server/dualproto.go\<close>: the goroutine that accepts, one
  goroutine per connection that looks at its first byte, and the calls of \<open>Accept\<close> and \<open>Close\<close>, as a
  step relation. The connections are numbered in the order they arrive; the channel \<open>conns\<close> has no
  buffer, so a hand-over is one step of both sides. \<open>classify\<close> itself is in theory \<open>Access\<close>.
\<close>

section \<open>State\<close>

datatype conn_phase = Peeking | Offered wire_kind | Taken wire_kind | Dropped

text \<open>\<open>dl_errs\<close>: the buffer of the error channel; \<open>dl_returned\<close>: what the calls of \<open>Accept\<close> returned.\<close>

record dualListener =
  dl_accepting :: bool
  dl_phases :: "conn_phase list"
  dl_errs :: "string option"
  dl_closed :: bool
  dl_returned :: "(string + nat \<times> wire_kind) list"

definition newDualListener :: dualListener where
  "newDualListener = \<lparr>dl_accepting = True, dl_phases = [], dl_errs = None, dl_closed = False, dl_returned = []\<rparr>"

definition ErrClosed :: string where "ErrClosed = ''use of closed network connection''"

definition acceptLoop_ok :: "dualListener \<Rightarrow> dualListener" where
  "acceptLoop_ok l = l\<lparr>dl_phases := dl_phases l @ [Peeking]\<rparr>"

definition acceptLoop_err :: "string \<Rightarrow> dualListener \<Rightarrow> dualListener" where
  "acceptLoop_err e l = l\<lparr>dl_errs := Some e, dl_accepting := False\<rparr>"

text \<open>The first byte is there, or the read failed or timed out.\<close>

definition classify_step :: "nat \<Rightarrow> byte option \<Rightarrow> dualListener \<Rightarrow> dualListener" where
  "classify_step c first l =
     l\<lparr>dl_phases := (dl_phases l)[c := (case classify first of WireClosed \<Rightarrow> Dropped | k \<Rightarrow> Offered k)]\<rparr>"

text \<open>The two cases of the \<open>select\<close> at the end of \<open>classify\<close>, the first with an \<open>Accept\<close> that takes the
  connection.\<close>

definition hand_over :: "nat \<Rightarrow> wire_kind \<Rightarrow> dualListener \<Rightarrow> dualListener" where
  "hand_over c k l = l\<lparr>dl_phases := (dl_phases l)[c := Taken k], dl_returned := dl_returned l @ [Inr (c, k)]\<rparr>"

definition drop_offer :: "nat \<Rightarrow> dualListener \<Rightarrow> dualListener" where
  "drop_offer c l = l\<lparr>dl_phases := (dl_phases l)[c := Dropped]\<rparr>"

definition Accept_err :: "string \<Rightarrow> dualListener \<Rightarrow> dualListener" where
  "Accept_err e l = l\<lparr>dl_errs := None, dl_returned := dl_returned l @ [Inl e]\<rparr>"

definition Accept_closed :: "dualListener \<Rightarrow> dualListener" where
  "Accept_closed l = l\<lparr>dl_returned := dl_returned l @ [Inl ErrClosed]\<rparr>"

definition Close_dual :: "dualListener \<Rightarrow> dualListener" where
  "Close_dual l = l\<lparr>dl_closed := True\<rparr>"

section \<open>Steps\<close>

inductive dual_step :: "dualListener \<Rightarrow> dualListener \<Rightarrow> bool" where
  Arrive: "dl_accepting l \<Longrightarrow> dual_step l (acceptLoop_ok l)"
| AcceptFails: "dl_accepting l \<Longrightarrow> dual_step l (acceptLoop_err e l)"
| Classified: "c < length (dl_phases l) \<Longrightarrow> dl_phases l ! c = Peeking \<Longrightarrow> dual_step l (classify_step c first l)"
| HandOver: "c < length (dl_phases l) \<Longrightarrow> dl_phases l ! c = Offered k \<Longrightarrow> dual_step l (hand_over c k l)"
| DropOffer: "c < length (dl_phases l) \<Longrightarrow> dl_phases l ! c = Offered k \<Longrightarrow> dl_closed l \<Longrightarrow> dual_step l (drop_offer c l)"
| AcceptErr: "dl_errs l = Some e \<Longrightarrow> dual_step l (Accept_err e l)"
| AcceptClosed: "dl_closed l \<Longrightarrow> dual_step l (Accept_closed l)"
| CloseDual: "dual_step l (Close_dual l)"

inductive_cases dual_stepE: "dual_step l l'"

inductive_simps dual_quiet: "dual_step newDualListener l'"

inductive dual_reach :: "dualListener \<Rightarrow> bool" where
  New: "dual_reach newDualListener"
| Step: "dual_reach l \<Longrightarrow> dual_step l l' \<Longrightarrow> dual_reach l'"

interpretation dual: step_system "\<lambda>l. l = newDualListener" dual_step dual_reach
proof
  fix l and P :: "dualListener \<Rightarrow> bool"
  assume "dual_reach l" and "\<And>s. s = newDualListener \<Longrightarrow> P s"
    and "\<And>s t. dual_reach s \<Longrightarrow> P s \<Longrightarrow> dual_step s t \<Longrightarrow> P t"
  then show "P l" by (induction rule: dual_reach.induct) blast+
qed (auto intro: dual_reach.intros)

lemmas dual_ops = acceptLoop_ok_def acceptLoop_err_def classify_step_def hand_over_def drop_offer_def
  Accept_err_def Accept_closed_def Close_dual_def

section \<open>The invariant\<close>

text \<open>The connections that were returned are those that are taken, each once and with its kind.\<close>

definition returned_conns :: "dualListener \<Rightarrow> (nat \<times> wire_kind) list" where
  "returned_conns l = List.map_filter (\<lambda>r. case r of Inl e \<Rightarrow> None | Inr ck \<Rightarrow> Some ck) (dl_returned l)"

definition dual_wf :: "dualListener \<Rightarrow> bool" where
  "dual_wf l \<longleftrightarrow>
     distinct (map fst (returned_conns l)) \<and>
     (\<forall>c k. (c, k) \<in> set (returned_conns l) \<longleftrightarrow> c < length (dl_phases l) \<and> dl_phases l ! c = Taken k) \<and>
     (\<forall>c<length (dl_phases l). dl_phases l ! c \<noteq> Offered WireClosed) \<and>
     (dl_errs l \<noteq> None \<longrightarrow> \<not> dl_accepting l)"

lemma returned_conns_simps [simp]:
  "returned_conns (l\<lparr>dl_phases := p\<rparr>) = returned_conns l"
  "returned_conns (l\<lparr>dl_errs := x\<rparr>) = returned_conns l"
  "returned_conns (l\<lparr>dl_accepting := b\<rparr>) = returned_conns l"
  "returned_conns (l\<lparr>dl_closed := b\<rparr>) = returned_conns l"
  "returned_conns (l\<lparr>dl_errs := x, dl_returned := r\<rparr>) = returned_conns (l\<lparr>dl_returned := r\<rparr>)"
  "returned_conns (l\<lparr>dl_phases := p, dl_returned := r\<rparr>) = returned_conns (l\<lparr>dl_returned := r\<rparr>)"
  "returned_conns (l\<lparr>dl_returned := dl_returned l @ [Inl e]\<rparr>) = returned_conns l"
  "returned_conns (l\<lparr>dl_returned := dl_returned l @ [Inr ck]\<rparr>) = returned_conns l @ [ck]"
  by (simp_all add: returned_conns_def map_filter_def)

lemma dual_wf_new: "dual_wf newDualListener"
  by (simp add: dual_wf_def newDualListener_def returned_conns_def map_filter_def)

text \<open>A change of one connection that is not taken, to a phase that is not taken.\<close>

lemma dual_wf_phase:
  assumes "dual_wf l" and "c < length (dl_phases l)" and "\<And>k. dl_phases l ! c \<noteq> Taken k"
    and "\<And>k. p \<noteq> Taken k" and "p \<noteq> Offered WireClosed"
  shows "dual_wf (l\<lparr>dl_phases := (dl_phases l)[c := p]\<rparr>)"
  using assms unfolding dual_wf_def by (auto simp: nth_list_update)

lemma dual_wf_hand_over:
  assumes "dual_wf l" and "c < length (dl_phases l)" and "dl_phases l ! c = Offered k"
  shows "dual_wf (hand_over c k l)"
proof -
  have "c \<notin> fst ` set (returned_conns l)" using assms by (auto simp: dual_wf_def)
  with assms show ?thesis unfolding dual_wf_def hand_over_def by (auto simp: nth_list_update)
qed

lemma dual_wf_step:
  assumes "dual_wf l" and "dual_step l l'"
  shows "dual_wf l'"
  using assms(2)
proof cases
  case Arrive
  with assms(1) show ?thesis unfolding dual_wf_def acceptLoop_ok_def
    by (auto simp: nth_append less_Suc_eq)
next
  case (Classified c first)
  have "(case classify first of WireClosed \<Rightarrow> Dropped | k \<Rightarrow> Offered k) \<noteq> Taken k" for k
    by (simp split: wire_kind.split)
  with assms(1) Classified show ?thesis unfolding classify_step_def
    by (simp add: dual_wf_phase split: wire_kind.split)
next
  case (HandOver c k)
  with assms(1) show ?thesis by (simp add: dual_wf_hand_over)
next
  case (DropOffer c k)
  with assms(1) show ?thesis by (simp add: drop_offer_def dual_wf_phase)
qed (use assms(1) in \<open>auto simp: dual_wf_def dual_ops\<close>)

lemma dual_reach_wf: "dual_reach l \<Longrightarrow> dual_wf l"
  by (rule dual.invariant) (auto intro: dual_wf_new dual_wf_step)

section \<open>Properties\<close>



text \<open>A connection that sends nothing stalls nobody: whatever state the others are in, one that has
  sent its first byte can be handed to the next \<open>Accept\<close>.\<close>

theorem silent_peer_stalls_nobody:
  assumes "c < length (dl_phases l)" and "dl_phases l ! c = Peeking" and "first = Some (b :: byte)"
  shows "\<exists>l' l'' k. dual_step l l' \<and> dual_step l' l'' \<and> dl_returned l'' = dl_returned l @ [Inr (c, k)] \<and>
    k = (if b = 0x16 then WireTLS else WirePlain) \<and>
    (\<forall>d. d \<noteq> c \<longrightarrow> d < length (dl_phases l) \<longrightarrow> dl_phases l'' ! d = dl_phases l ! d)"
proof -
  let ?k = "if b = 0x16 then WireTLS else WirePlain"
  let ?l' = "classify_step c first l"
  have p: "dl_phases ?l' ! c = Offered ?k" "length (dl_phases ?l') = length (dl_phases l)"
    using assms by (simp_all add: classify_step_def classify_def)
  have "dual_step l ?l'" using assms by (intro Classified) simp_all
  moreover have "dual_step ?l' (hand_over c ?k ?l')" using p assms(1) by (intro HandOver) simp_all
  moreover have "dl_returned (hand_over c ?k ?l') = dl_returned l @ [Inr (c, ?k)]"
    by (simp add: hand_over_def classify_step_def)
  moreover have "\<forall>d. d \<noteq> c \<longrightarrow> d < length (dl_phases l) \<longrightarrow> dl_phases (hand_over c ?k ?l') ! d = dl_phases l ! d"
    by (simp add: hand_over_def classify_step_def)
  ultimately show ?thesis by blast
qed

theorem silent_peer_stalls_nobody_witness:
  "let l = newDualListener\<lparr>dl_phases := [Peeking, Peeking]\<rparr>
   in \<exists>l' l'' k. dual_step l l' \<and> dual_step l' l'' \<and> dl_returned l'' = [Inr (1, k)] \<and> k = WirePlain \<and>
        dl_phases l'' ! 0 = Peeking"
  unfolding Let_def
  using silent_peer_stalls_nobody [of 1 "newDualListener\<lparr>dl_phases := [Peeking, Peeking]\<rparr>" "Some 0x47" "0x47"]
  by (fastforce simp: newDualListener_def)

text \<open>One error of the inner listener, even a passing one such as a shortage of descriptors, ends the
  accept loop for good: from then on no connection arrives any more, although the server that calls
  \<open>Accept\<close> waits and tries again.\<close>

theorem accept_error_is_final:
  assumes "dual_step\<^sup>*\<^sup>* (acceptLoop_err e l) l'"
  shows "length (dl_phases l') = length (dl_phases l) \<and> \<not> dl_accepting l'"
  using assms
proof (induction rule: rtranclp_induct)
  case base
  show ?case by (simp add: acceptLoop_err_def)
next
  case (step y z)
  from step.hyps(2) step.IH show ?case by cases (auto simp: dual_ops)
qed

theorem accept_error_is_final_witness:
  "\<not> dl_accepting (Accept_err ''too many open files'' (acceptLoop_err ''too many open files'' newDualListener)) \<and>
   dl_phases (Accept_err ''too many open files'' (acceptLoop_err ''too many open files'' newDualListener)) = []"
proof -
  let ?l = "acceptLoop_err ''too many open files'' newDualListener"
  have "dual_step\<^sup>*\<^sup>* ?l (Accept_err ''too many open files'' ?l)"
    by (rule r_into_rtranclp, rule AcceptErr) (simp add: acceptLoop_err_def)
  from accept_error_is_final [OF this] show ?thesis by (simp add: newDualListener_def)
qed

end
