(* ===== verification/Dashboard.thy ===== *)
theory Dashboard
  imports HttpApi DualProto
begin

text \<open>
  How the dashboard and the SSH server are reached: \<open>startHTTPAPI\<close> of \<open>internal/server/httpapi.go\<close> (which
  listener it opens, and the way of a request from the first byte of its connection through
  \<open>plainHTTPOnlyFromPrivate\<close> to the routes), and one SSH connection of \<open>sshsrv.go\<close>, from its login to
  the channels it opens. Loading the key pair and listening are arguments.
\<close>

section \<open>The HTTP API\<close>

datatype dashboard = DashFailed string | DashDual | DashPlain

definition startHTTPAPI :: "string option \<Rightarrow> string option \<Rightarrow> config \<Rightarrow> dashboard" where
  "startHTTPAPI pair_err listen_err cfg =
     (if cfg_TLSCert cfg \<noteq> [] \<and> cfg_TLSKey cfg \<noteq> [] then
        (case pair_err of
           Some e \<Rightarrow> DashFailed (''load TLS keypair: '' @ e)
         | None \<Rightarrow> (case listen_err of Some e \<Rightarrow> DashFailed e | None \<Rightarrow> DashDual))
      else case listen_err of Some e \<Rightarrow> DashFailed e | None \<Rightarrow> DashPlain)"

text \<open>The middle part of \<open>plainHTTPOnlyFromPrivate\<close>: the handler, or the permanent redirect to the same
  host and URI. \<open>next\<close> is the mux.\<close>

definition private_or_redirect ::
    "string \<Rightarrow> bool \<Rightarrow> string \<Rightarrow> string \<Rightarrow> (request \<Rightarrow> api \<Rightarrow> reply) \<Rightarrow> request \<Rightarrow> api \<Rightarrow> reply" where
  "private_or_redirect remoteAddr tls host uri next r a =
     (case plainHTTPOnlyFromPrivate (cfg_Subnet (sv_cfg (ap_sv a))) tls remoteAddr of
        Serve \<Rightarrow> next r a
      | RedirectHTTPS \<Rightarrow> answer a 308 (RedirectTo (''https://'' @ host @ uri)))"

text \<open>One request; \<open>first\<close> is the first byte of its connection. \<open>None\<close>: there is nobody to answer.\<close>

definition dashboard_request ::
    "dashboard \<Rightarrow> byte option \<Rightarrow> string \<Rightarrow> string \<Rightarrow> string \<Rightarrow> (request \<Rightarrow> api \<Rightarrow> reply) \<Rightarrow> request \<Rightarrow> api \<Rightarrow>
     reply option" where
  "dashboard_request d first remoteAddr host uri mux r a =
     (case d of
        DashFailed e \<Rightarrow> None
      | DashPlain \<Rightarrow> Some (mux r a)
      | DashDual \<Rightarrow>
          (case classify first of
             WireClosed \<Rightarrow> None
           | WireTLS \<Rightarrow> Some (private_or_redirect remoteAddr True host uri mux r a)
           | WirePlain \<Rightarrow> Some (private_or_redirect remoteAddr False host uri mux r a)))"

section \<open>An SSH connection\<close>

datatype 'key ssh_login = LoginPassword bytes | LoginKey 'key

text \<open>The attempts of one handshake, in order; the first that is accepted gives the permissions.\<close>

fun ssh_handshake ::
    "marshaller \<Rightarrow> (string \<Rightarrow> ('key \<times> string) option) \<Rightarrow> ('key \<Rightarrow> string) \<Rightarrow> instant \<Rightarrow> string \<Rightarrow> string \<Rightarrow>
     'key ssh_login list \<Rightarrow> server \<Rightarrow> string option \<times> server" where
  "ssh_handshake marshal parse fp now addr user [] s = (None, s)"
| "ssh_handshake marshal parse fp now addr user (l # ls) s =
     (case (case l of
              LoginPassword pass \<Rightarrow> PasswordCallback marshal now now addr pass s
            | LoginKey key \<Rightarrow> PublicKeyCallback parse fp now addr user key s) of
        (Some name, s') \<Rightarrow> (Some name, s')
      | (None, s') \<Rightarrow> ssh_handshake marshal parse fp now addr user ls s')"

text \<open>\<open>handleSSHConn\<close>: the name it serves, and what becomes of each channel the client opens.\<close>

definition handleSSHConn ::
    "marshaller \<Rightarrow> (string \<Rightarrow> ('key \<times> string) option) \<Rightarrow> ('key \<Rightarrow> string) \<Rightarrow> (bytes \<Rightarrow> directTCPIPData option) \<Rightarrow>
     (string \<Rightarrow> string option) \<Rightarrow> instant \<Rightarrow> string \<Rightarrow> string \<Rightarrow> 'key ssh_login list \<Rightarrow> (string \<times> bytes) list \<Rightarrow>
     server \<Rightarrow> (string \<times> ssh_outcome list) option \<times> server" where
  "handleSSHConn marshal parse fp unmarshal dial now addr user logins chans s =
     (case ssh_handshake marshal parse fp now addr user logins s of
        (None, s') \<Rightarrow> (None, s')
      | (Some name, s') \<Rightarrow> (Some (name, map (\<lambda>(t, x). handleSSHChannel unmarshal dial t x) chans), s'))"

section \<open>Properties\<close>

text \<open>C11: a server with a certificate never serves its dashboard in the clear to the outside: a request
  that reaches a handler, or changes anything, came over TLS, or from loopback or the configured
  subnet, and it carries the API key when one is configured. A key pair that does not load opens
  no listener at all instead of a plain one.\<close>

theorem dashboard_needs_tls_and_key:
  assumes "cfg_TLSCert (sv_cfg (ap_sv a)) \<noteq> []" and "cfg_TLSKey (sv_cfg (ap_sv a)) \<noteq> []"
    and "dashboard_request (startHTTPAPI pair_err listen_err (sv_cfg (ap_sv a))) first remoteAddr host uri
      (serve marshal parse pd su) r a = Some (resp, a', tasks)"
    and "rs_Status resp \<notin> {301, 308, 401, 404} \<or> (a', tasks) \<noteq> (a, [])"
  shows "checkAPIKey (ap_sv a) r \<and> pair_err = None \<and>
    (first = Some 0x16 \<or> (\<exists>ip. ParseIP (host_of remoteAddr) = Some ip \<and>
       (IsLoopback ip \<or> (\<exists>n. map_option snd (ParseCIDR (cfg_Subnet (sv_cfg (ap_sv a)))) = Some n \<and>
         net_Contains n ip))))"
proof -
  have d: "startHTTPAPI pair_err listen_err (sv_cfg (ap_sv a)) = DashDual" "pair_err = None"
    using assms(1-3) by (auto simp: startHTTPAPI_def dashboard_request_def split: option.splits)
  obtain tls where t: "tls \<longleftrightarrow> first = Some 0x16"
    "private_or_redirect remoteAddr tls host uri (serve marshal parse pd su) r a = (resp, a', tasks)"
    using assms(3) by (auto simp: d(1) dashboard_request_def classify_def split: option.splits if_splits)
  have ok: "plainHTTPOnlyFromPrivate (cfg_Subnet (sv_cfg (ap_sv a))) tls remoteAddr = Serve"
    using t(2) assms(4) by (auto simp: private_or_redirect_def answer_def split: http_path.splits)
  with t(2) have sv: "serve marshal parse pd su r a = (resp, a', tasks)" by (simp add: private_or_redirect_def)
  have "checkAPIKey (ap_sv a) r"
  proof (rule ccontr)
    assume "\<not> checkAPIKey (ap_sv a) r"
    from serve_unauthorized [OF this, of marshal parse pd su]
    obtain status b where "(resp, a', tasks) = answer a status b" "status \<in> {301, 401, 404}"
      unfolding sv by auto
    with assms(4) show False by (auto simp: answer_def)
  qed
  moreover have "tls \<or> (\<exists>ip. ParseIP (host_of remoteAddr) = Some ip \<and>
       (IsLoopback ip \<or> (\<exists>n. map_option snd (ParseCIDR (cfg_Subnet (sv_cfg (ap_sv a)))) = Some n \<and> net_Contains n ip)))"
    using ok plain_served_iff by (cases tls) auto
  ultimately show ?thesis using t(1) d(2) by blast
qed

text \<open>An SSH connection gets tunnels only after a login that a callback accepted, and every tunnel leads
  to a literal address on loopback or in the fixed VPN range.\<close>

theorem ssh_connection_stays_local:
  assumes "handleSSHConn marshal parse fp unmarshal dial now addr user logins chans s = (Some (name, outs), s')"
  shows "logins \<noteq> [] \<and> (\<forall>target. TunnelTo target \<in> set outs \<longrightarrow>
    (\<exists>(req :: directTCPIPData) a. target = JoinHostPort (dt_DestHost req) (nat_string (unat (dt_DestPort req))) \<and>
       ParseIP (dt_DestHost req) = Some a \<and>
       ((\<exists>w. To4 a = Some [10, 8, 0, w]) \<or> (\<exists>x y z. To4 a = Some [127, x, y, z]))))"
proof -
  have l: "logins \<noteq> []" using assms by (auto simp: handleSSHConn_def)
  have outs: "outs = map (\<lambda>(t, x). handleSSHChannel unmarshal dial t x) chans"
    using assms by (auto simp: handleSSHConn_def split: prod.splits option.splits)
  show ?thesis
  proof (intro conjI allI impI l)
    fix target
    assume "TunnelTo target \<in> set outs"
    then obtain t x where "handleSSHChannel unmarshal dial t x = TunnelTo target" by (auto simp: outs)
    from handleSSHChannel_target [OF this]
    show "\<exists>(req :: directTCPIPData) a. target = JoinHostPort (dt_DestHost req) (nat_string (unat (dt_DestPort req))) \<and>
       ParseIP (dt_DestHost req) = Some a \<and>
       ((\<exists>w. To4 a = Some [10, 8, 0, w]) \<or> (\<exists>x y z. To4 a = Some [127, x, y, z]))"
      by (elim exE conjE) (intro exI conjI; assumption)
  qed
qed

definition lab_health :: request where
  "lab_health = \<lparr>rq_Method = ''GET'', rq_EscapedPath = ''/health'', rq_Path = ''/health'', rq_Query = [],
     rq_Authorization = ''Bearer '' @ cfg_APIKey lab_config, rq_Body = []\<rparr>"

definition lab_api :: api where
  "lab_api = \<lparr>ap_sv = lab_server\<lparr>sv_cfg := lab_config\<lparr>cfg_TLSCert := ''c.pem'', cfg_TLSKey := ''k.pem''\<rparr>\<rparr>,
     ap_direct = new_direct\<rparr>"

definition lab_around :: surroundings where
  "lab_around = \<lparr>su_order = [], su_now = 0, su_rand = Inl [], su_keypair = Inl [], su_probe = (\<lambda>t. None)\<rparr>"

theorem dashboard_needs_tls_and_key_witness:
  "\<exists>resp. dashboard_request (startHTTPAPI None None (sv_cfg (ap_sv lab_api))) (Some 0x16) ''198.51.100.4:5000'' ''vpn'' ''/health''
       (serve (\<lambda>ts. Inl []) (\<lambda>l. None :: nat option) (\<lambda>d. None) lab_around) lab_health lab_api = Some (resp, lab_api, []) \<and>
     rs_Status resp = 200 \<and> checkAPIKey (ap_sv lab_api) lab_health"
proof -
  have c: "cleanPath ''/health'' = ''/health''" by code_simp
  have m: "map (\<lambda>pat. pattern_matches pat ''/health'') [''/api/ssh-keys/generate'', ''/api/ssh-keys/'', ''/api/whitelist/'',
      ''/api/forwards/'', ''/api/ssh-keys'', ''/api/clients/'', ''/api/whitelist'', ''/api/forwards'', ''/api/tokens/'',
      ''/api/clients'', ''/api/tokens'', ''/plugin/'', ''/metrics''] = replicate 13 False"
    "pattern_matches ''/health'' ''/health''" by code_simp+
  have k: "checkAPIKey (ap_sv lab_api) lab_health"
    by (simp add: checkAPIKey_def lab_api_def lab_health_def lab_config_def TrimPrefix_def HasPrefix_def)
  have s: "serve (\<lambda>ts. Inl []) (\<lambda>l. None :: nat option) (\<lambda>d. None) lab_around lab_health lab_api = handleHealth lab_health lab_api"
    using c m k by (simp add: serve_def lab_health_def routes_def withAuth_def numeral_eq_Suc)
  obtain b where h: "handleHealth lab_health lab_api = answer lab_api 200 b" by (auto simp: handleHealth_def)
  have "dashboard_request (startHTTPAPI None None (sv_cfg (ap_sv lab_api))) (Some 0x16) ''198.51.100.4:5000'' ''vpn'' ''/health''
       (serve (\<lambda>ts. Inl []) (\<lambda>l. None :: nat option) (\<lambda>d. None) lab_around) lab_health lab_api =
     Some (\<lparr>rs_Status = 200, rs_Body = b\<rparr>, lab_api, [])"
    by (simp add: dashboard_request_def startHTTPAPI_def lab_api_def classify_def
        private_or_redirect_def plainHTTPOnlyFromPrivate_def Let_def s [unfolded lab_api_def] h [unfolded lab_api_def] answer_def)
  moreover have "cfg_TLSCert (sv_cfg (ap_sv lab_api)) \<noteq> []" "cfg_TLSKey (sv_cfg (ap_sv lab_api)) \<noteq> []"
    by (simp_all add: lab_api_def)
  ultimately show ?thesis
    using dashboard_needs_tls_and_key [of lab_api None None "Some 0x16" "''198.51.100.4:5000''" "''vpn''" "''/health''"
      "\<lambda>ts. Inl []" "\<lambda>l. None :: nat option" "\<lambda>d. None" lab_around lab_health "\<lparr>rs_Status = 200, rs_Body = b\<rparr>" lab_api "[]"]
    by auto
qed

end
