(* ===== verification/Deploy.thy ===== *)
theory Deploy
  imports Cli
begin

text \<open>
  From an installation to a running server: \<open>server install\<close> (theory \<open>Install\<close>), \<open>server start\<close>
  (theory \<open>Cli\<close>), \<open>applyDefaults\<close> and \<open>New\<close> (theories \<open>ServerConfig\<close> and \<open>Server\<close>) and the key check
  of the API (theory \<open>HttpApi\<close>) put together.
\<close>

section \<open>Facts\<close>

definition no_flags :: start_flags where
  "no_flags = \<lparr>sf_port = None, sf_subnet = None, sf_serverIP = None, sf_metricsAddr = None, sf_acl = None,
     sf_apiKey = None, sf_forwardBind = None, sf_sshAddr = None\<rparr>"

lemma default_pool: "baseIPFromSubnet ''10.8.0.0/24'' = Some ''10.8.0''"
proof -
  obtain a where "ParseCIDR ''10.8.0.0/24'' = Some (a, vpnSubnet)"
    using fixed_networks(1) by (auto simp: map_option_eq_Some)
  then show ?thesis
    by (subst baseIPFromSubnet_dotted [of _ a vpnSubnet 10 8 0 0]) (simp_all add: vpnSubnet_def decimals)
qed

lemma New_server_total:
  assumes "cfg_Expose cfg = []" and "cfg_Subnet cfg = ''10.8.0.0/24''"
    and "NewManager ty fs (cfg_TokensPath cfg) = Inr tm"
  shows "\<exists>s. New_server now ty ay fs cfg = Inr s"
  using assms by (simp add: New_server_def default_pool)

lemma resolvePush_Subnet: "cfg_Subnet (resolvePush getenv fs cfg) = cfg_Subnet cfg"
proof -
  have "cfg_Subnet (expose_from_env g c) = cfg_Subnet c" "cfg_Subnet (note_dns d c) = cfg_Subnet c"
    "cfg_Subnet (routes_from_env g c) = cfg_Subnet c" "cfg_Subnet (routes_guessed rs c) = cfg_Subnet c"
    "cfg_Subnet (dns_detected d c) = cfg_Subnet c" for g d rs c
    by (simp_all add: expose_from_env_def note_dns_def routes_from_env_def routes_guessed_def dns_detected_def
        split: option.splits)
  then show ?thesis by (simp add: resolvePush_def Let_def split: prod.split)
qed

lemma applyDefaults_pool:
  assumes "applyDefaults (\<lambda>v. []) out unm mar fs cfg = (cfg', fs')" and "cfg_Expose cfg = []"
    and "cfg_Subnet cfg \<in> {[], ''10.8.0.0/24''}"
  shows "cfg_Expose cfg' = []" "cfg_Subnet cfg' = ''10.8.0.0/24''"
  using assms
  by (auto simp: applyDefaults_def Let_def resolvePush_Expose resolvePush_Subnet expose_from_env_def fill_defaults_def)

lemma install_files_env: "read_fails (install_files env fs port c) = read_fails fs"
  by (simp add: install_files_def Let_def SaveServerConfig_def writeDefaultACL_def WriteSystemdService_def
      WriteFile_def split: sum.split option.split prod.split)

lemma Install_read_fails:
  "Install env fs port = (fs', Inr (ip, raw, key)) \<Longrightarrow> read_fails fs' = read_fails fs"
  by (elim Install_steps) (simp add: install_files_env install_token_env install_cert_frame(2))

lemma NewManager_cong:
  "files fs p = files fs' p \<Longrightarrow> read_fails fs p = read_fails fs' p \<Longrightarrow> NewManager u fs p = NewManager u fs' p"
  by (simp add: NewManager_def load_tokens_def ReadFile_cong [of fs p fs'])

lemma fresh_token_kept:
  assumes "install_token env fs = (fs', Inr raw)" and "files fs TokensFile = None" and "read_fails fs = Map.empty"
    and "yaml_ok (si_tokens_marshal env) (si_tokens_unmarshal env)"
    and "NewManager (si_tokens_unmarshal env) fs' TokensFile = Inr tm"
  shows "\<exists>t. fst (Validate marshal fs'' later tm raw) = Inr t \<and> tok_Name t = ''admin''"
proof -
  let ?m = "\<lparr>tm_tokens = [], tm_filePath = TokensFile\<rparr>"
  have "NewManager (si_tokens_unmarshal env) fs TokensFile = Inr ?m"
    using assms(2,3) by (simp add: NewManager_def load_tokens_def ReadFile_def)
  then obtain m' where a: "Add_token (si_tokens_marshal env) fs (ck_now (si_cert env)) (si_token_rnd env) ?m ''admin'' None False
      = (m', fs', raw, None)"
    using assms(1) by (auto simp: install_token_def List_tokens_def split: prod.splits option.splits)
  then obtain rnd where r: "si_token_rnd env = Inr rnd"
    by (cases "si_token_rnd env") (auto simp: Add_token_def Generate_def)
  obtain t where "NewManager (si_tokens_unmarshal env) fs' TokensFile = Inr m'"
    "fst (Validate (si_tokens_marshal env) fs' later m' raw) = Inr t" "tok_Name t = ''admin''"
    using added_token_kept [OF assms(4) a [unfolded r], of later] assms(3) by auto
  with assms(5) show ?thesis by (auto simp: Validate_result)
qed

section \<open>Properties\<close>

text \<open>C39: a \<open>server.yaml\<close> that does not load is passed over without an error: with no flags the server
  then starts with no API key, so every request is authorized, and with no access policy.\<close>

theorem broken_config_opens_api:
  assumes "LoadServerConfig unm fs ServerConfigFile = Inl e"
    and "sf_apiKey f = None" and "sf_acl f = None"
    and "applyDefaults getenv out unm mar fs (serverStart_config f (LoadServerConfig unm fs ServerConfigFile)) = (cfg, fs')"
    and "New_server now ty ay fs' cfg = Inr s"
  shows "checkAPIKey s r \<and> sv_acl s = None"
proof -
  have "cfg_APIKey cfg = []" "cfg_ACLPath cfg = []"
    using applyDefaults_keeps [OF assms(4)] assms(1-3) by (simp_all add: serverStart_fields setting_def)
  with New_server_fields [OF assms(5)] show ?thesis by (simp add: checkAPIKey_def)
qed

theorem broken_config_opens_api_witness:
  "\<exists>s cfg fs'. applyDefaults (\<lambda>v. []) ''1.2.3.4'' (\<lambda>d. Inl ''bad'') (\<lambda>c. Inr []) (healthy_fs [ServerConfigFile \<mapsto> ''x''])
       (serverStart_config no_flags (LoadServerConfig (\<lambda>d. Inl ''bad'') (healthy_fs [ServerConfigFile \<mapsto> ''x'']) ServerConfigFile))
       = (cfg, fs') \<and>
     New_server 0 (\<lambda>d. Inr []) (\<lambda>d. Inl []) fs' cfg = Inr s \<and> (\<forall>r. checkAPIKey s r) \<and> sv_acl s = None"
proof -
  let ?fs = "healthy_fs [ServerConfigFile \<mapsto> ''x'']" and ?unm = "\<lambda>d. Inl ''bad''"
  have l: "LoadServerConfig ?unm ?fs ServerConfigFile = Inl (ConfigYaml ''bad'')"
    by (simp add: LoadServerConfig_def ReadFile_def healthy_fs_def)
  obtain cfg fs' where a: "applyDefaults (\<lambda>v. []) ''1.2.3.4'' ?unm (\<lambda>c. Inr []) ?fs
      (serverStart_config no_flags (LoadServerConfig ?unm ?fs ServerConfigFile)) = (cfg, fs')"
    by (metis prod.exhaust)
  have f: "fs' = ?fs" using a l by (simp add: applyDefaults_def Let_def persistAutoDefaults_def)
  have p: "cfg_Expose cfg = []" "cfg_Subnet cfg = ''10.8.0.0/24''" "cfg_TokensPath cfg = TokensFile"
    using applyDefaults_pool [OF a] applyDefaults_keeps(3) [OF a]
    by (simp_all add: serverStart_fields setting_def l no_flags_def)
  have "NewManager (\<lambda>d. Inr []) fs' (cfg_TokensPath cfg) = Inr \<lparr>tm_tokens = [], tm_filePath = TokensFile\<rparr>"
    by (simp add: f p(3) NewManager_def load_tokens_def ReadFile_def healthy_fs_def file_names)
  from New_server_total [OF p(1,2) this] obtain s where s: "New_server 0 (\<lambda>d. Inr []) (\<lambda>d. Inl []) fs' cfg = Inr s"
    by blast
  show ?thesis using broken_config_opens_api [OF l _ _ a s] a s by (auto simp: no_flags_def)
qed


definition fresh_token :: token where
  "fresh_token = \<lparr>tok_Name = ''admin'', tok_Hash = hashToken ''01'', tok_CreatedAt = 0, tok_ExpiresAt = None,
     tok_OneTime = False, tok_Used = False\<rparr>"

definition fresh_config :: serverYaml where
  "fresh_config = (DefaultServerConfig 7777)\<lparr>sc_APIKey := ''02''\<rparr>"

definition fresh_install :: install_env where
  "fresh_install = lab_install
     \<lparr>si_tokens_marshal := (\<lambda>ts. if ts = [fresh_token] then Inr ''t'' else Inl []), si_tokens_unmarshal := (\<lambda>d. Inr [fresh_token]),
      si_marshal := (\<lambda>c. if c = fresh_config then Inr ''c'' else Inl []), si_unmarshal := (\<lambda>d. Inr fresh_config)\<rparr>"

lemma fresh_run:
  "\<exists>fs1. Install fresh_install (healthy_fs Map.empty) 7777 = (fs1, Inr (install_ip fresh_install, ''01'', ''02''))"
proof -
  let ?env = "fresh_install"
  have h: "EncodeToString [1] = ''01''" "EncodeToString [2] = ''02''" by code_simp+
  obtain fa where a: "install_cert ?env (healthy_fs Map.empty) (install_ip ?env) = (fa, None)"
    by (simp add: install_cert_def generateSelfSignedCert_def Stat_def MkdirAll_def WriteFile_def fresh_install_def
        lab_install_def healthy_fs_def)
  have fa: "files fa TokensFile = None" "files fa ServerConfigFile = None" "read_fails fa = Map.empty" "write_fails fa = Map.empty"
    using install_cert_frame(1) [OF a, of TokensFile] install_cert_frame(1) [OF a, of ServerConfigFile]
      install_cert_frame(2,3) [OF a] by (simp_all add: healthy_fs_def file_names)
  have mk: "mkdir_fails fa = Map.empty"
    using a by (auto simp: install_cert_def generateSelfSignedCert_def Stat_def MkdirAll_def WriteFile_def fresh_install_def
        lab_install_def healthy_fs_def)
  have nm: "NewManager (si_tokens_unmarshal ?env) fa TokensFile = Inr \<lparr>tm_tokens = [], tm_filePath = TokensFile\<rparr>"
    using fa(1,3) by (simp add: NewManager_def load_tokens_def ReadFile_def)
  obtain fb where b: "install_token ?env fa = (fb, Inr ''01'')"
    using fa mk nm
    by (simp add: install_token_def List_tokens_def Add_token_def Generate_def h save_tokens_def MkdirAll_def WriteFile_def
        fresh_install_def lab_install_def fresh_token_def [symmetric])
  have "files fb ServerConfigFile = None" "read_fails fb = Map.empty"
    using install_token_files [OF b, of ServerConfigFile] install_token_env [OF b] fa by (simp_all add: file_names)
  then have "install_config ?env fb 7777 = Inr fresh_config"
    by (simp add: install_config_def LoadServerConfig_def ReadFile_def generateAPIKey_def h fresh_install_def
        lab_install_def fresh_config_def)
  with a b show ?thesis by (simp add: Install_def MkdirAll_def healthy_fs_def fresh_config_def)
qed


end
