(* ===== verification/Device.thy ===== *)
theory Device
  imports GoStrings
begin

text \<open>
  The TUN device and the kernel's settings: \<open>internal/tunnel/forward.go\<close>, \<open>tun_linux.go\<close>,
  \<open>tun_darwin.go\<close> and \<open>configureTUN\<close> of the client. The device itself is made by the \<open>water\<close> package,
  an argument; a program that is run is its argument vector, and \<open>run\<close> says with which output it
  fails. What the routing commands do to the routing table is in theory \<open>ClientConn\<close>.
\<close>

section \<open>IP forwarding\<close>

definition enableIPForward :: "filesys \<Rightarrow> string \<Rightarrow> filesys \<times> os_error option" where
  "enableIPForward fs path =
     (if (case ReadFile fs path of Inl e \<Rightarrow> False | Inr b \<Rightarrow> TrimSpace b = ''1'') then (fs, None)
      else WriteFile fs path ''1'')"

definition EnableForwarding_linux :: "filesys \<Rightarrow> filesys \<times> os_error option" where
  "EnableForwarding_linux fs = enableIPForward fs ''/proc/sys/net/ipv4/ip_forward''"

definition EnableForwarding_darwin :: "filesys \<Rightarrow> filesys \<times> os_error option" where
  "EnableForwarding_darwin fs = (fs, None)"

section \<open>Interfaces\<close>

type_synonym runner = "string list \<Rightarrow> string option"

datatype tun_error = CreateTun string | SetIP string string | BringUp string string

text \<open>The result, and whether a device was created and closed again.\<close>

definition NewTUN_linux :: "runner \<Rightarrow> (string + string) \<Rightarrow> string \<Rightarrow> (tun_error + string) \<times> bool" where
  "NewTUN_linux run made ip =
     (case made of
        Inl e \<Rightarrow> (Inl (CreateTun e), False)
      | Inr name \<Rightarrow>
          (case run [''ip'', ''addr'', ''add'', ip, ''dev'', name] of
             Some out \<Rightarrow> (Inl (SetIP ip out), True)
           | None \<Rightarrow>
               (case run [''ip'', ''link'', ''set'', name, ''up''] of
                  Some out \<Rightarrow> (Inl (BringUp name out), True)
                | None \<Rightarrow> (Inr name, False))))"

definition NewTUN_darwin :: "(string + string) \<Rightarrow> string \<Rightarrow> (tun_error + string) \<times> bool" where
  "NewTUN_darwin made ip = (case made of Inl e \<Rightarrow> (Inl (CreateTun e), False) | Inr name \<Rightarrow> (Inr name, False))"

definition ConfigureTUN_darwin :: "runner \<Rightarrow> string \<Rightarrow> string \<Rightarrow> string \<Rightarrow> string option" where
  "ConfigureTUN_darwin run iface localIP peerIP = run [''ifconfig'', iface, localIP, peerIP, ''up'']"

definition configureTUN_linux :: "string \<Rightarrow> string \<Rightarrow> string \<Rightarrow> string option" where
  "configureTUN_linux iface localIP peerIP = None"

definition AddRoute_linux :: "runner \<Rightarrow> string \<Rightarrow> string \<Rightarrow> string option" where
  "AddRoute_linux run subnet iface = run [''ip'', ''route'', ''replace'', subnet, ''dev'', iface]"

definition AddRoute_darwin :: "runner \<Rightarrow> string \<Rightarrow> string \<Rightarrow> string option" where
  "AddRoute_darwin run subnet iface = run [''route'', ''add'', ''-net'', subnet, ''-interface'', iface]"

definition DelRoute_linux :: "runner \<Rightarrow> string \<Rightarrow> string option" where
  "DelRoute_linux run subnet = run [''ip'', ''route'', ''del'', subnet]"

definition DelRoute_darwin :: "runner \<Rightarrow> string \<Rightarrow> string option" where
  "DelRoute_darwin run subnet = run [''route'', ''delete'', ''-net'', subnet]"

section \<open>Properties\<close>

lemma TrimSpace_digits [simp]: "TrimSpace ''1'' = ''1''" "TrimSpace ''0'' = ''0''"
  by code_simp+

lemma NewTUN_linux_closes:
  "NewTUN_linux run made ip = (r, closed) \<Longrightarrow>
     closed \<longleftrightarrow> (\<exists>name e. made = Inr name \<and> r = Inl e)"
  by (auto simp: NewTUN_linux_def split: sum.splits option.splits)

text \<open>Forwarding is on after a call that reports no error, provided what is written can be read
  back; when it was on already nothing is written, so a read-only file is no error.\<close>

theorem forwarding_enabled:
  assumes "enableIPForward fs path = (fs', None)" and "read_fails fs path = None"
  shows "\<exists>b. ReadFile fs' path = Inr b \<and> TrimSpace b = ''1'' \<and>
    (fs' = fs \<or> \<not> (\<exists>b. ReadFile fs path = Inr b \<and> TrimSpace b = ''1''))"
proof (cases "\<exists>b. ReadFile fs path = Inr b \<and> TrimSpace b = ''1''")
  case True
  with assms(1) show ?thesis by (auto simp: enableIPForward_def)
next
  case False
  with assms(1) have "WriteFile fs path ''1'' = (fs', None)"
    by (auto simp: enableIPForward_def split: sum.splits if_splits)
  from ReadFile_WriteFile [OF this assms(2)] False show ?thesis by simp
qed

theorem forwarding_enabled_witness:
  "\<exists>b. ReadFile (healthy_fs [''f'' \<mapsto> ''1'']) ''f'' = Inr b \<and> TrimSpace b = ''1'' \<and>
    (healthy_fs [''f'' \<mapsto> ''1''] = healthy_fs [''f'' \<mapsto> ''0''] \<or>
     \<not> (\<exists>b. ReadFile (healthy_fs [''f'' \<mapsto> ''0'']) ''f'' = Inr b \<and> TrimSpace b = ''1''))"
  by (rule forwarding_enabled)
    (simp_all add: enableIPForward_def ReadFile_def WriteFile_def healthy_fs_def)

end
