(* ===== verification/Tunnel.thy ===== *)
theory Tunnel
  imports Server
begin

text \<open>
  The goroutines of \<open>internal/server/server.go\<close> around the registry, interleaved: a world is the
  server, the phase of each client's reader (\<open>forwardToTUN\<close>) and whether its writer (the end of
  \<open>handleConn\<close>) still runs, and what \<open>routeFromTUN\<close> holds between its check of \<open>dead\<close> and its
  send. \<open>vpn_step\<close> has one rule per atomic step; the front door, whose accesses to shared state
  are single operations under their locks, is one step. The invariant \<open>vpn_inv\<close> is proved by
  rule induction.
\<close>

section \<open>Worlds\<close>

datatype reader_phase = RdNone | RdRunning | RdStopping | RdDead | RdDone

record world =
  wd_sv :: server
  wd_reader :: "nat \<Rightarrow> reader_phase"
  wd_writer :: "nat \<Rightarrow> bool"
  wd_route :: "(nat \<times> bytes) option"
  wd_panic :: bool

definition add_conn :: "conn \<Rightarrow> server \<Rightarrow> server" where
  "add_conn c s = s\<lparr>sv_conns := sv_conns s @ [c]\<rparr>"

definition start_client :: "outcome \<Rightarrow> world \<Rightarrow> world" where
  "start_client out w =
     (case out of
        TunnelOpen i \<Rightarrow>
          w\<lparr>wd_reader := (wd_reader w)(i := RdRunning), wd_writer := (wd_writer w)(i := True)\<rparr>
      | _ \<Rightarrow> w)"

definition connect_world :: "marshaller \<Rightarrow> door \<Rightarrow> conn \<Rightarrow> world \<Rightarrow> world" where
  "connect_world marshal d c w =
     (let (out, s) = handleConn marshal d (length (sv_conns (wd_sv w))) (add_conn c (wd_sv w))
      in start_client out (w\<lparr>wd_sv := s\<rparr>))"

definition reader_world :: "instant \<Rightarrow> bool \<Rightarrow> nat \<Rightarrow> world \<Rightarrow> world" where
  "reader_world now te i w =
     (let (go, s) = forwardToTUN_step now te i (wd_sv w)
      in w\<lparr>wd_sv := s, wd_reader := (wd_reader w)(i := if go then RdRunning else RdStopping)\<rparr>)"

definition writer_world :: "nat \<Rightarrow> world \<Rightarrow> world" where
  "writer_world i w =
     (let (r, s) = writer_step i (wd_sv w)
      in w\<lparr>wd_sv := s, wd_writer := (wd_writer w)(i := (r \<noteq> WrFinished))\<rparr>)"

definition take_world :: "bytes \<Rightarrow> world \<Rightarrow> world" where
  "take_world pkt w =
     (let (r, s) = route_lookup pkt (wd_sv w)
      in w\<lparr>wd_sv := s, wd_route := map_option (\<lambda>i. (i, pkt)) r\<rparr>)"

definition put_world :: "nat \<Rightarrow> bytes \<Rightarrow> world \<Rightarrow> world" where
  "put_world i pkt w =
     (case route_send i pkt (wd_sv w) of
        None \<Rightarrow> w\<lparr>wd_panic := True\<rparr>
      | Some s \<Rightarrow> w\<lparr>wd_sv := s, wd_route := None\<rparr>)"

inductive vpn_step :: "marshaller \<Rightarrow> world \<Rightarrow> world \<Rightarrow> bool" for marshal where
  Connect: "\<not> wd_panic w \<Longrightarrow> \<not> cn_closed c \<Longrightarrow> vpn_step marshal w (connect_world marshal d c w)"
| Reader: "\<not> wd_panic w \<Longrightarrow> wd_reader w i = RdRunning \<Longrightarrow> vpn_step marshal w (reader_world now te i w)"
| Mark: "\<not> wd_panic w \<Longrightarrow> wd_reader w i = RdStopping \<Longrightarrow>
    vpn_step marshal w
      (w\<lparr>wd_sv := mark_dead i (wd_sv w), wd_reader := (wd_reader w)(i := RdDead)\<rparr>)"
| CloseCh: "\<not> wd_panic w \<Longrightarrow> wd_reader w i = RdDead \<Longrightarrow>
    vpn_step marshal w
      (w\<lparr>wd_sv := close_sendCh i (wd_sv w), wd_reader := (wd_reader w)(i := RdDone)\<rparr>)"
| Writer: "\<not> wd_panic w \<Longrightarrow> wd_writer w i \<Longrightarrow> vpn_step marshal w (writer_world i w)"
| Take: "\<not> wd_panic w \<Longrightarrow> wd_route w = None \<Longrightarrow> length pkt \<le> tunBufSize \<Longrightarrow>
    vpn_step marshal w (take_world pkt w)"
| Put: "\<not> wd_panic w \<Longrightarrow> wd_route w = Some (i, pkt) \<Longrightarrow> vpn_step marshal w (put_world i pkt w)"
| Reap: "\<not> wd_panic w \<Longrightarrow> enumerates order (sv_clients (wd_sv w)) \<Longrightarrow>
    vpn_step marshal w (w\<lparr>wd_sv := reaper_tick order now (wd_sv w)\<rparr>)"
| Disconnect: "\<not> wd_panic w \<Longrightarrow> enumerates order (sv_clients (wd_sv w)) \<Longrightarrow>
    vpn_step marshal w (w\<lparr>wd_sv := snd (disconnect_client order name (wd_sv w))\<rparr>)"
| ReloadAcl: "\<not> wd_panic w \<Longrightarrow> vpn_step marshal w (w\<lparr>wd_sv := reload_acl yaml (wd_sv w)\<rparr>)"
| Refresh: "\<not> wd_panic w \<Longrightarrow>
    vpn_step marshal w
      (w\<lparr>wd_sv := (wd_sv w)\<lparr>sv_expose := map_option (expose_refresh token resp) (sv_expose (wd_sv w))\<rparr>\<rparr>)"

inductive_cases vpn_stepE: "vpn_step marshal w w'"

definition initial_world :: "server \<Rightarrow> world \<Rightarrow> bool" where
  "initial_world s0 w \<longleftrightarrow>
     reg_heap (sv_clients s0) = [] \<and> reg_clients (sv_clients s0) = Map.empty \<and>
     mx_activeConns (sv_metrics s0) = 0 \<and> mx_connectedTotal (sv_metrics s0) = 0 \<and>
     w = \<lparr>wd_sv = s0, wd_reader = (\<lambda>i. RdNone), wd_writer = (\<lambda>i. False), wd_route = None,
          wd_panic = False\<rparr>"

inductive vpn_reach :: "marshaller \<Rightarrow> server \<Rightarrow> world \<Rightarrow> bool" for marshal s0 where
  Start: "initial_world s0 w \<Longrightarrow> vpn_reach marshal s0 w"
| Step: "vpn_reach marshal s0 w \<Longrightarrow> vpn_step marshal w w' \<Longrightarrow> vpn_reach marshal s0 w'"

interpretation vpn: step_system "initial_world s0" "vpn_step marshal" "vpn_reach marshal s0"
  for s0 marshal
proof
  fix s and P :: "world \<Rightarrow> bool"
  assume "vpn_reach marshal s0 s" and "\<And>s. initial_world s0 s \<Longrightarrow> P s"
    and "\<And>s t. vpn_reach marshal s0 s \<Longrightarrow> P s \<Longrightarrow> vpn_step marshal s t \<Longrightarrow> P t"
  then show "P s" by (induction rule: vpn_reach.induct) blast+
qed (auto intro: vpn_reach.intros)

section \<open>The invariant\<close>

definition pkt_for :: "client \<Rightarrow> bytes \<Rightarrow> bool" where
  "pkt_for c p \<longleftrightarrow> 20 \<le> length p \<and> destIP p = c_ip c"

definition client_inv :: "client \<Rightarrow> reader_phase \<Rightarrow> bool" where
  "client_inv c ph \<longleftrightarrow>
     (c_closed c \<longleftrightarrow> ph = RdDone) \<and> (c_dead c \<longleftrightarrow> ph = RdDead \<or> ph = RdDone) \<and>
     length (c_sendCh c) \<le> sendCh_cap \<and> list_all (pkt_for c) (c_sendCh c)"

definition counts_inv :: "registry \<Rightarrow> metrics \<Rightarrow> bool" where
  "counts_inv r m \<longleftrightarrow>
     mx_activeConns m = word_of_nat (card (dom (reg_clients r))) \<and>
     mx_connectedTotal m = word_of_nat (length (reg_heap r))"

definition registered :: "registry \<Rightarrow> nat \<Rightarrow> bool" where
  "registered r i \<longleftrightarrow> i < length (reg_heap r) \<and> reg_clients r (c_ip (reg_heap r ! i)) = Some i"

definition vpn_inv :: "world \<Rightarrow> bool" where
  "vpn_inv w \<longleftrightarrow>
     (let r = sv_clients (wd_sv w)
      in reg_wf r \<and> counts_inv r (sv_metrics (wd_sv w)) \<and>
         (\<forall>i. wd_writer w i \<longleftrightarrow> registered r i) \<and>
         (\<forall>i. length (reg_heap r) \<le> i \<longrightarrow> wd_reader w i = RdNone) \<and>
         (\<forall>i<length (reg_heap r). client_inv (reg_heap r ! i) (wd_reader w i)) \<and>
         (\<forall>i p. wd_route w = Some (i, p) \<longrightarrow> i < length (reg_heap r) \<and> pkt_for (reg_heap r ! i) p))"

text \<open>What the invariant sees of a client.\<close>

definition core :: "client \<Rightarrow> string \<times> bytes list \<times> bool \<times> bool" where
  "core c = (c_ip c, c_sendCh c, c_closed c, c_dead c)"

definition same_view :: "server \<Rightarrow> server \<Rightarrow> bool" where
  "same_view s s' \<longleftrightarrow>
     map core (reg_heap (sv_clients s')) = map core (reg_heap (sv_clients s)) \<and>
     reg_clients (sv_clients s') = reg_clients (sv_clients s) \<and>
     reg_baseIP (sv_clients s') = reg_baseIP (sv_clients s) \<and>
     mx_activeConns (sv_metrics s') = mx_activeConns (sv_metrics s) \<and>
     mx_connectedTotal (sv_metrics s') = mx_connectedTotal (sv_metrics s)"

lemma same_view_refl [simp, intro]: "same_view s s"
  by (simp add: same_view_def)

lemma same_view_trans: "same_view s t \<Longrightarrow> same_view t u \<Longrightarrow> same_view s u"
  by (simp add: same_view_def)

lemma same_viewI:
  "sv_clients s' = sv_clients s \<Longrightarrow> sv_metrics s' = sv_metrics s \<Longrightarrow> same_view s s'"
  by (simp add: same_view_def)

lemma same_view_upd_conn [simp]: "same_view s (upd_conn c f s)"
  by (simp add: same_view_def)

lemma same_view_close_conn [simp]: "same_view s (close_conn c s)"
  by (simp add: same_view_def)

lemma same_view_metrics:
  assumes "\<And>m. mx_activeConns (f m) = mx_activeConns m"
    and "\<And>m. mx_connectedTotal (f m) = mx_connectedTotal m"
  shows "same_view s (upd_metrics f s)"
  using assms by (simp add: same_view_def)

lemma same_view_client:
  assumes "\<And>c. core (f c) = core c"
  shows "same_view s (upd_reg (upd_client i f) s)"
proof -
  have "map core ((reg_heap r)[i := f (reg_heap r ! i)]) = map core (reg_heap r)" for r
    by (cases "i < length (reg_heap r)") (simp_all add: map_update assms list_update_same_conv list_update_beyond)
  then show ?thesis by (simp add: same_view_def upd_client_def)
qed

lemma core_eq:
  assumes "map core h' = map core h" and "i < length h"
  shows "c_ip (h' ! i) = c_ip (h ! i) \<and> c_sendCh (h' ! i) = c_sendCh (h ! i) \<and>
    c_closed (h' ! i) = c_closed (h ! i) \<and> c_dead (h' ! i) = c_dead (h ! i)"
proof -
  have "core (h' ! i) = core (h ! i)"
    using assms by (metis length_map nth_map)
  then show ?thesis by (simp add: core_def)
qed

lemma vpn_inv_same_view:
  assumes inv: "vpn_inv w" and view: "same_view (wd_sv w) s'"
  shows "vpn_inv (w\<lparr>wd_sv := s'\<rparr>)"
proof -
  let ?r = "sv_clients (wd_sv w)" and ?r' = "sv_clients s'"
  from view have h: "map core (reg_heap ?r') = map core (reg_heap ?r)"
    and len: "length (reg_heap ?r') = length (reg_heap ?r)"
    and m: "reg_clients ?r' = reg_clients ?r" "reg_baseIP ?r' = reg_baseIP ?r"
    by (auto simp: same_view_def dest: map_eq_imp_length_eq)
  note eq = core_eq [OF h]
  have cand: "candidate ?r' k = candidate ?r k" for k by (simp add: candidate_def m)
  have "reg_wf ?r'"
    using inv by (auto simp: vpn_inv_def Let_def reg_wf_def m len cand eq)
  moreover have "registered ?r' i = registered ?r i" for i
    by (auto simp: registered_def m len eq)
  moreover have pf: "pkt_for (reg_heap ?r' ! i) = pkt_for (reg_heap ?r ! i)"
    if "i < length (reg_heap ?r)" for i
    using eq [OF that] by (intro ext) (simp add: pkt_for_def)
  moreover have "client_inv (reg_heap ?r' ! i) ph = client_inv (reg_heap ?r ! i) ph"
    if "i < length (reg_heap ?r)" for i ph
    using eq [OF that] pf [OF that] by (simp add: client_inv_def)
  ultimately show ?thesis
    using inv view by (auto simp: vpn_inv_def Let_def len counts_inv_def same_view_def)
qed

section \<open>Steps keep it\<close>

lemma vpn_inv_reader_bound: "vpn_inv w \<Longrightarrow> wd_reader w i \<noteq> RdNone \<Longrightarrow> i < length (reg_heap (sv_clients (wd_sv w)))"
  by (meson not_le vpn_inv_def)

text \<open>A change of one client and of its reader's phase.\<close>

lemma vpn_inv_upd:
  assumes inv: "vpn_inv w" and i: "i < length (reg_heap (sv_clients (wd_sv w)))"
    and ip: "\<And>c. c_ip (f c) = c_ip c"
    and c: "client_inv (f (client_at (wd_sv w) i)) ph"
  shows "vpn_inv (w\<lparr>wd_sv := upd_reg (upd_client i f) (wd_sv w), wd_reader := (wd_reader w)(i := ph)\<rparr>)"
proof -
  let ?r = "sv_clients (wd_sv w)" and ?r' = "upd_client i f (sv_clients (wd_sv w))"
  have len: "length (reg_heap ?r') = length (reg_heap ?r)"
    and m: "reg_clients ?r' = reg_clients ?r" by (simp_all add: upd_client_def)
  have at: "reg_heap ?r' ! k = (if k = i then f (reg_heap ?r ! i) else reg_heap ?r ! k)" for k
    using i by (simp add: upd_client_def)
  have ips: "c_ip (reg_heap ?r' ! k) = c_ip (reg_heap ?r ! k)" for k by (simp add: at ip)
  have "reg_wf ?r'" using inv ip by (simp add: vpn_inv_def Let_def reg_wf_upd)
  moreover have "registered ?r' k = registered ?r k" for k by (simp add: registered_def len m ips)
  moreover have "pkt_for (reg_heap ?r' ! k) p = pkt_for (reg_heap ?r ! k) p" for k p
    by (simp add: pkt_for_def ips)
  ultimately show ?thesis
    using inv c i by (auto simp: vpn_inv_def Let_def len m counts_inv_def at client_at_def)
qed

lemma vpn_inv_route_None: "vpn_inv w \<Longrightarrow> vpn_inv (w\<lparr>wd_route := None\<rparr>)"
  by (simp add: vpn_inv_def Let_def)

lemma vpn_inv_panic: "vpn_inv w \<Longrightarrow> vpn_inv (w\<lparr>wd_panic := b\<rparr>)"
  by (simp add: vpn_inv_def Let_def)

lemma vpn_inv_phase:
  assumes "vpn_inv w" and "i < length (reg_heap (sv_clients (wd_sv w)))"
    and "client_inv (client_at (wd_sv w) i) ph"
  shows "vpn_inv (w\<lparr>wd_reader := (wd_reader w)(i := ph)\<rparr>)"
proof -
  have "upd_reg (upd_client i (\<lambda>c. c)) (wd_sv w) = wd_sv w"
    by (simp add: upd_reg_def upd_client_def)
  with vpn_inv_upd [OF assms(1,2), of "\<lambda>c. c" ph] assms(3) show ?thesis by simp
qed

lemma same_view_forward: "same_view s (snd (forwardToTUN_step now te i s))"
proof -
  let ?cid = "c_conn (client_at s i)"
  obtain f r where r: "conn_recv ?cid s = (r, upd_conn ?cid f s)" by (rule conn_recv_cases)
  have v1: "same_view s (upd_conn ?cid f s)" by simp
  show ?thesis
  proof (cases r)
    case (Inl e)
    with r v1 show ?thesis by (simp add: forwardToTUN_step_def)
  next
    case (Inr tp)
    obtain t p where tp: "tp = (t, p)" by (cases tp)
    define s2 where "s2 = upd_reg (upd_client i (Touch now)) (upd_conn ?cid f s)"
    have v2: "same_view s s2"
      unfolding s2_def by (rule same_view_trans [OF v1 same_view_client]) (simp add: core_def Touch_def)
    obtain g e where snd: "conn_send (c_conn (client_at s2 i)) TypePong [] s2 =
        (upd_conn (c_conn (client_at s2 i)) g s2, e)"
      by (rule conn_send_cases)
    have v3: "same_view s2 (upd_metrics IncDropped s2)"
      by (rule same_view_metrics) (simp_all add: metrics_ops)
    define s3 where "s3 = s2\<lparr>sv_tun := sv_tun s2 @ [p]\<rparr>"
    have "same_view s2 s3" by (rule same_viewI) (simp_all add: s3_def)
    then have v4: "same_view s2 (upd_reg (upd_client i
        (\<lambda>c. c\<lparr>c_bytesIn := c_bytesIn c + word_of_nat (length p)\<rparr>)) s3)"
      by (rule same_view_trans [OF _ same_view_client]) (simp add: core_def)
    then have v5: "same_view s2 (upd_metrics (AddBytesIn (length p)) (upd_reg (upd_client i
        (\<lambda>c. c\<lparr>c_bytesIn := c_bytesIn c + word_of_nat (length p)\<rparr>)) s3))"
      by (rule same_view_trans [OF _ same_view_metrics]) (simp_all add: metrics_ops)
    show ?thesis
      using r Inr tp v2 same_view_trans [OF v2 v3] same_view_trans [OF v2 v5] snd
        same_view_trans [OF v2 same_view_upd_conn]
      unfolding forwardToTUN_step_def s2_def [symmetric] s3_def
      by (auto simp: Let_def s2_def [symmetric] split: option.splits)
  qed
qed

lemma vpn_inv_reader:
  assumes "vpn_inv w" and "wd_reader w i = RdRunning"
  shows "vpn_inv (reader_world now te i w)"
proof -
  obtain go s where s: "forwardToTUN_step now te i (wd_sv w) = (go, s)" by (metis prod.exhaust)
  have v: "same_view (wd_sv w) s" using same_view_forward [of "wd_sv w" now te i] s by simp
  have i: "i < length (reg_heap (sv_clients (wd_sv w)))"
    using assms vpn_inv_reader_bound by (metis reader_phase.distinct(1))
  let ?w = "w\<lparr>wd_sv := s\<rparr>"
  have inv: "vpn_inv ?w" using assms(1) v by (rule vpn_inv_same_view)
  have i': "i < length (reg_heap (sv_clients (wd_sv ?w)))"
    using v i by (metis map_eq_imp_length_eq same_view_def select_convs(1) world.ext_inject
        world.surjective world.update_convs(1))
  have "client_inv (client_at (wd_sv ?w) i) RdRunning"
    using inv i' assms(2) by (auto simp: vpn_inv_def Let_def client_at_def)
  then have "client_inv (client_at (wd_sv ?w) i) (if go then RdRunning else RdStopping)"
    by (simp add: client_inv_def)
  from vpn_inv_phase [OF inv i' this] s show ?thesis by (simp add: reader_world_def)
qed

lemma vpn_inv_mark:
  assumes "vpn_inv w" and "wd_reader w i = RdStopping"
  shows "vpn_inv (w\<lparr>wd_sv := mark_dead i (wd_sv w), wd_reader := (wd_reader w)(i := RdDead)\<rparr>)"
proof -
  have i: "i < length (reg_heap (sv_clients (wd_sv w)))"
    using assms vpn_inv_reader_bound by (metis reader_phase.distinct(3))
  then have c: "client_inv (client_at (wd_sv w) i) RdStopping"
    using assms by (auto simp: vpn_inv_def Let_def client_at_def)
  show ?thesis
    unfolding mark_dead_def
    by (rule vpn_inv_upd [OF assms(1) i])
       (use c in \<open>simp_all add: client_inv_def pkt_for_def [abs_def]\<close>)
qed

lemma vpn_inv_close:
  assumes "vpn_inv w" and "wd_reader w i = RdDead"
  shows "vpn_inv (w\<lparr>wd_sv := close_sendCh i (wd_sv w), wd_reader := (wd_reader w)(i := RdDone)\<rparr>)"
proof -
  have i: "i < length (reg_heap (sv_clients (wd_sv w)))"
    using assms vpn_inv_reader_bound by (metis reader_phase.distinct(5))
  then have c: "client_inv (client_at (wd_sv w) i) RdDead"
    using assms by (auto simp: vpn_inv_def Let_def client_at_def)
  show ?thesis
    unfolding close_sendCh_def
    by (rule vpn_inv_upd [OF assms(1) i])
       (use c in \<open>simp_all add: client_inv_def pkt_for_def [abs_def]\<close>)
qed

lemma vpn_inv_take:
  assumes inv: "vpn_inv w"
  shows "vpn_inv (take_world pkt w)"
proof -
  obtain r s where rs: "route_lookup pkt (wd_sv w) = (r, s)" by (metis prod.exhaust)
  have v: "same_view (wd_sv w) s"
  proof (cases r)
    case None
    have "same_view (wd_sv w) (upd_metrics IncDropped (wd_sv w))"
      by (rule same_view_metrics) (simp_all add: metrics_ops)
    with route_lookup_None [OF rs [unfolded None]] show ?thesis by auto
  next
    case (Some i)
    with route_lookup_Some rs show ?thesis by blast
  qed
  have base: "vpn_inv (w\<lparr>wd_sv := s\<rparr>)" using inv v by (rule vpn_inv_same_view)
  show ?thesis
  proof (cases r)
    case None
    with vpn_inv_route_None [OF base] rs show ?thesis by (simp add: take_world_def)
  next
    case (Some i)
    from route_lookup_Some [OF rs [unfolded Some]] have s: "s = wd_sv w" "20 \<le> length pkt"
      "reg_clients (sv_clients (wd_sv w)) (destIP pkt) = Some i" by auto
    with inv have "i < length (reg_heap (sv_clients (wd_sv w))) \<and>
        pkt_for (reg_heap (sv_clients (wd_sv w)) ! i) pkt"
      by (auto simp: vpn_inv_def Let_def reg_wf_def pkt_for_def)
    with inv rs Some s show ?thesis by (simp add: take_world_def vpn_inv_def Let_def)
  qed
qed

lemma vpn_inv_put:
  assumes inv: "vpn_inv w" and route: "wd_route w = Some (i, pkt)"
  shows "vpn_inv (put_world i pkt w)"
proof -
  let ?c = "client_at (wd_sv w) i"
  have i: "i < length (reg_heap (sv_clients (wd_sv w)))" and p: "pkt_for ?c pkt"
    and c: "client_inv ?c (wd_reader w i)"
    using inv route by (auto simp: vpn_inv_def Let_def client_at_def)
  consider (panic) "c_closed ?c"
    | (sent) "\<not> c_closed ?c" "length (c_sendCh ?c) < sendCh_cap"
    | (full) "\<not> c_closed ?c" "\<not> length (c_sendCh ?c) < sendCh_cap"
    by blast
  then show ?thesis
  proof cases
    case panic
    with inv show ?thesis by (simp add: put_world_def route_send_def vpn_inv_panic)
  next
    case sent
    let ?f = "\<lambda>c. c\<lparr>c_sendCh := c_sendCh c @ [pkt]\<rparr>"
    have pf: "pkt_for (?f ?c) = pkt_for ?c" by (intro ext) (simp add: pkt_for_def)
    have "client_inv (?f ?c) (wd_reader w i)"
      using c sent p by (simp add: client_inv_def pf)
    from vpn_inv_upd [where f = ?f, OF inv i _ this]
    have "vpn_inv (w\<lparr>wd_sv := upd_reg (upd_client i ?f) (wd_sv w)\<rparr>)" by simp
    from vpn_inv_route_None [OF this] sent show ?thesis
      by (simp add: put_world_def route_send_def Let_def)
  next
    case full
    have "same_view (wd_sv w) (upd_metrics IncDropped (wd_sv w))"
      by (rule same_view_metrics) (simp_all add: metrics_ops)
    from vpn_inv_route_None [OF vpn_inv_same_view [OF inv this]] full show ?thesis
      by (simp add: put_world_def route_send_def Let_def)
  qed
qed

lemma finish_client_parts:
  "sv_clients (finish_client i s) = Remove_client (sv_clients s) (c_ip (client_at s i))"
  "sv_metrics (finish_client i s) = DecConnected (sv_metrics s)"
  "sv_tun (finish_client i s) = sv_tun s"
  by (simp_all add: finish_client_def Let_def)

lemma vpn_inv_finish:
  assumes inv: "vpn_inv w" and reg: "wd_writer w i"
  shows "vpn_inv (w\<lparr>wd_sv := finish_client i (wd_sv w), wd_writer := (wd_writer w)(i := False)\<rparr>)"
proof -
  let ?r = "sv_clients (wd_sv w)" and ?ip = "c_ip (client_at (wd_sv w) i)"
  let ?r' = "Remove_client ?r ?ip"
  from inv reg have ri: "i < length (reg_heap ?r)" "reg_clients ?r ?ip = Some i"
    by (auto simp: vpn_inv_def Let_def registered_def client_at_def)
  have wf: "reg_wf ?r" using inv by (simp add: vpn_inv_def Let_def)
  have card: "Suc (card (dom (reg_clients ?r'))) = card (dom (reg_clients ?r))"
    using card_dom_delete [OF finite_clients [OF wf], of ?ip] ri(2) by (simp add: Remove_client_def)
  have one: "(word_of_nat (card (dom (reg_clients ?r))) :: 64 word) - 1 =
      word_of_nat (card (dom (reg_clients ?r')))"
    using card by (metis add_diff_cancel_left' of_nat_Suc)
  have counts: "counts_inv ?r' (DecConnected (sv_metrics (wd_sv w)))"
    using inv one by (simp add: vpn_inv_def Let_def counts_inv_def metrics_ops Remove_client_def)
  have regd: "registered ?r' k \<longleftrightarrow> registered ?r k \<and> k \<noteq> i" for k
  proof (cases "c_ip (reg_heap ?r ! k) = ?ip")
    case True
    with ri show ?thesis by (auto simp: registered_def Remove_client_def)
  next
    case False
    then have "k \<noteq> i" by (auto simp: client_at_def)
    with False show ?thesis by (simp add: registered_def Remove_client_def)
  qed
  have "reg_wf ?r'" using wf by (rule reg_wf_Remove)
  moreover have "reg_heap ?r' = reg_heap ?r" by (simp add: Remove_client_def)
  ultimately show ?thesis
    using inv counts regd by (auto simp: vpn_inv_def Let_def finish_client_parts)
qed

lemma vpn_inv_writer:
  assumes inv: "vpn_inv w" and wr: "wd_writer w i"
  shows "vpn_inv (writer_world i w)"
proof -
  let ?c = "client_at (wd_sv w) i"
  have i: "i < length (reg_heap (sv_clients (wd_sv w)))" and c: "client_inv ?c (wd_reader w i)"
    using inv wr by (auto simp: vpn_inv_def Let_def registered_def client_at_def)
  have same: "w\<lparr>wd_writer := (wd_writer w)(i := True)\<rparr> = w" using wr by (simp add: fun_upd_idem)
  show ?thesis
  proof (cases "c_sendCh ?c")
    case Nil
    show ?thesis
    proof (cases "c_closed ?c")
      case True
      with Nil vpn_inv_finish [OF inv wr] show ?thesis
        by (simp add: writer_world_def writer_step_def)
    next
      case False
      with Nil inv same show ?thesis by (simp add: writer_world_def writer_step_def)
    qed
  next
    case (Cons pkt rest)
    define f where "f = (\<lambda>c :: client. c\<lparr>c_sendCh := rest\<rparr>)"
    define s1 where "s1 = upd_reg (upd_client i f) (wd_sv w)"
    have pf: "pkt_for (f ?c) = pkt_for ?c" by (intro ext) (simp add: pkt_for_def f_def)
    have "client_inv (f ?c) (wd_reader w i)"
      using c Cons pf by (simp add: client_inv_def f_def)
    from vpn_inv_upd [where f = f, OF inv i _ this] have inv1: "vpn_inv (w\<lparr>wd_sv := s1\<rparr>)"
      by (simp add: f_def s1_def)
    obtain g e where snd: "conn_send (c_conn ?c) TypeIPPacket pkt s1 = (upd_conn (c_conn ?c) g s1, e)"
      by (rule conn_send_cases)
    define s2 where "s2 = upd_conn (c_conn ?c) g s1"
    have v2: "same_view s1 s2" by (simp add: s2_def)
    then have inv2: "vpn_inv (w\<lparr>wd_sv := s2\<rparr>)" using vpn_inv_same_view [OF inv1, of s2] by simp
    show ?thesis
    proof (cases e)
      case None
      define s3 where "s3 = upd_metrics (AddBytesOut (length pkt))
        (upd_reg (upd_client i (\<lambda>c. c\<lparr>c_bytesOut := c_bytesOut c + word_of_nat (length pkt)\<rparr>)) s2)"
      have "same_view s2 s3"
        unfolding s3_def
        by (rule same_view_trans [OF same_view_client same_view_metrics])
           (simp_all add: core_def metrics_ops)
      then have inv3: "vpn_inv (w\<lparr>wd_sv := s3\<rparr>)" using vpn_inv_same_view [OF inv2, of s3] by simp
      have "writer_step i (wd_sv w) = (WrSent, s3)"
        using Cons snd None by (simp add: writer_step_def s1_def s2_def s3_def f_def Let_def)
      with inv3 wr show ?thesis by (simp add: writer_world_def fun_upd_idem)
    next
      case (Some err)
      have "writer_step i (wd_sv w) = (WrFinished, finish_client i s2)"
        using Cons snd Some by (simp add: writer_step_def s1_def s2_def f_def Let_def)
      with vpn_inv_finish [OF inv2, of i] wr show ?thesis by (simp add: writer_world_def)
    qed
  qed
qed

lemma vpn_inv_Assign:
  assumes inv: "vpn_inv w" and a: "Assign now (sv_clients (wd_sv w)) name cid = (Inr i, r')"
    and ph: "ph = RdRunning \<or> ph = RdNone"
  shows "vpn_inv (w\<lparr>wd_sv := upd_metrics IncConnected ((wd_sv w)\<lparr>sv_clients := r'\<rparr>),
      wd_reader := (wd_reader w)(i := ph), wd_writer := (wd_writer w)(i := True)\<rparr>)"
proof -
  let ?r = "sv_clients (wd_sv w)"
  from Assign_Inr [OF a] obtain octet where o: "octet \<in> set pool"
    "reg_clients ?r (candidate ?r octet) = None" "i = length (reg_heap ?r)"
    "r' = ?r\<lparr>reg_heap := reg_heap ?r @ [\<lparr>c_name = name, c_ip = candidate ?r octet, c_conn = cid,
        c_sendCh = [], c_closed = False, c_dead = False, c_connectedAt = now, c_lastSeen = now,
        c_bytesIn = 0, c_bytesOut = 0\<rparr>],
      reg_clients := (reg_clients ?r)(candidate ?r octet \<mapsto> i)\<rparr>"
    by blast
  have wf: "reg_wf ?r" using inv by (simp add: vpn_inv_def Let_def)
  have wf': "reg_wf r'" using wf a by (rule reg_wf_Assign)
  have card: "card (dom (reg_clients r')) = Suc (card (dom (reg_clients ?r)))"
    using card_dom_insert [OF finite_clients [OF wf] o(2)] o(4) by simp
  have len: "length (reg_heap r') = Suc (length (reg_heap ?r))" using o(4) by simp
  have counts: "counts_inv r' (IncConnected (sv_metrics (wd_sv w)))"
    using inv unfolding counts_inv_def card len
    by (simp add: vpn_inv_def Let_def counts_inv_def metrics_ops add.commute)
  have old: "reg_heap r' ! k = reg_heap ?r ! k" if "k < length (reg_heap ?r)" for k
    using that o(4) by (simp add: nth_append)
  have new: "c_ip (reg_heap r' ! i) = candidate ?r octet"
    "client_inv (reg_heap r' ! i) ph"
    using o(3,4) ph by (auto simp: client_inv_def sendCh_cap_def)
  have keep: "reg_clients r' (c_ip (reg_heap ?r ! k)) = Some k \<longleftrightarrow>
      reg_clients ?r (c_ip (reg_heap ?r ! k)) = Some k" if "k < length (reg_heap ?r)" for k
    using that o(2-4) by auto
  have regd: "registered r' k \<longleftrightarrow> registered ?r k \<or> k = i" for k
  proof -
    consider "k < length (reg_heap ?r)" | "k = i" | "k > i" using o(3) by linarith
    then show ?thesis
    proof cases
      case 1
      with old keep o(3) len show ?thesis by (simp add: registered_def less_SucI)
    next
      case 2
      with new o(3,4) len show ?thesis by (simp add: registered_def)
    next
      case 3
      with o(3) len show ?thesis by (simp add: registered_def)
    qed
  qed
  have clients: "client_inv (reg_heap r' ! k) (((wd_reader w)(i := ph)) k)"
    if "k < length (reg_heap r')" for k
  proof (cases "k = i")
    case True
    with new show ?thesis by simp
  next
    case False
    with that len o(3) have "k < length (reg_heap ?r)" by simp
    with False inv old show ?thesis by (auto simp: vpn_inv_def Let_def)
  qed
  have route: "k < length (reg_heap r') \<and> pkt_for (reg_heap r' ! k) p" if "wd_route w = Some (k, p)" for k p
    using that inv len old [of k] by (auto simp: vpn_inv_def Let_def)
  have phases: "((wd_reader w)(i := ph)) k = RdNone" if "length (reg_heap r') \<le> k" for k
    using that inv len o(3) by (auto simp: vpn_inv_def Let_def)
  show ?thesis
    using inv wf' counts regd clients route phases
    by (auto simp: vpn_inv_def Let_def)
qed

lemma same_view_read_request:
  assumes "read_request cid s = (r, s')"
  shows "same_view s s'"
  using read_request_frame [OF assms] by auto

lemma same_view_send: "same_view s (fst (conn_send cid t p s))"
proof -
  obtain f e where "conn_send cid t p s = (upd_conn cid f s, e)" by (rule conn_send_cases)
  then show ?thesis by simp
qed

lemma same_view_admit:
  assumes "admit marshal d ip raw s = (r, s')"
  shows "same_view s s'"
proof (cases r)
  case (Inl e)
  from admit_Inl [OF assms [unfolded Inl]] obtain tm fs where s': "s' = upd_metrics IncAuthFailure
      (s\<lparr>sv_tokens := tm, sv_fs := fs, sv_limiter := RecordFailure (dr_fail d) (sv_limiter s) ip\<rparr>)"
    by blast
  show ?thesis unfolding s'
    by (rule same_view_trans [OF same_viewI same_view_metrics]) (simp_all add: metrics_ops)
next
  case (Inr name)
  from admit_Inr [OF assms [unfolded Inr]] show ?thesis by (auto intro: same_viewI)
qed

text \<open>The front door changes what the invariant sees only where it assigns an address.\<close>

lemma handleConn_view:
  assumes "handleConn marshal d cid s = (out, s')"
  obtains "same_view s s'" "\<forall>i. out \<noteq> TunnelOpen i"
  | name s1 where "same_view s s1" "open_tunnel d cid name s1 = (out, s')"
proof -
  let ?ip = "host_of (cn_addr (sv_conns s ! cid))"
  obtain banned lim where b: "IsBanned (dr_ban d) (sv_limiter s) ?ip = (banned, lim)"
    by (metis prod.exhaust)
  define s1 where "s1 = s\<lparr>sv_limiter := lim\<rparr>"
  have v1: "same_view s s1" by (rule same_viewI) (simp_all add: s1_def)
  obtain r s2 where r: "read_request cid s1 = (r, s2)" by (metis prod.exhaust)
  have v2: "same_view s s2" using v1 same_view_read_request [OF r] by (rule same_view_trans)
  show thesis
  proof (cases banned)
    case True
    then have "out = Banned" "s' = close_conn cid s1"
      using assms b by (simp_all add: handleConn_def s1_def)
    with that(1) same_view_trans [OF v1 same_view_close_conn] show thesis by simp
  next
    case nb: False
    show thesis
    proof (cases r)
      case (Inl o')
      then have o': "out = o'" "s' = close_conn cid s2"
        using assms b nb r by (simp_all add: handleConn_def s1_def)
      moreover have "\<forall>i. o' \<noteq> TunnelOpen i"
        using r Inl by (auto simp: read_request_def split: prod.splits sum.splits if_splits)
      ultimately show thesis using that(1) same_view_trans [OF v2 same_view_close_conn] by simp
    next
      case (Inr req)
      obtain a s3 where a: "admit marshal d ?ip (ar_Token req) s2 = (a, s3)" by (metis prod.exhaust)
      have v3: "same_view s s3" using v2 same_view_admit [OF a] by (rule same_view_trans)
      show thesis
      proof (cases a)
        case (Inl e)
        then have "out = Denied e"
          "s' = close_conn cid (send_auth_fail cid (validate_message e) s3)"
          using assms b nb r Inr a by (simp_all add: handleConn_def s1_def)
        with that(1) same_view_trans [OF same_view_trans [OF v3 same_view_send] same_view_close_conn]
        show thesis by (simp add: send_auth_fail_def)
      next
        case aI: (Inr name)
        show thesis
        proof (cases "ar_Mode req = ''proxy''")
          case True
          then have op: "open_proxy cid name s3 = (out, s')"
            using assms b nb r Inr a aI by (simp add: handleConn_def s1_def)
          obtain f e where "conn_send cid TypeAuthOK (Encode (json_AuthOKResponse zero_AuthOK)) s3 =
              (upd_conn cid f s3, e)"
            by (rule conn_send_cases)
          with op have "same_view s3 s'"
            by (auto simp: open_proxy_def same_view_def split: option.splits)
          with that(1) same_view_trans [OF v3] open_proxy_outcome [OF op] show thesis by auto
        next
          case False
          then have "open_tunnel d cid name s3 = (out, s')"
            using assms b nb r Inr a aI by (simp add: handleConn_def s1_def)
          with that(2) v3 show thesis by blast
        qed
      qed
    qed
  qed
qed

lemma vpn_inv_open_tunnel:
  assumes inv: "vpn_inv w" and ot: "open_tunnel d cid name (wd_sv w) = (out, s')"
  shows "vpn_inv (start_client out (w\<lparr>wd_sv := s'\<rparr>))"
proof -
  obtain res r where a: "Assign (dr_assign d) (sv_clients (wd_sv w)) name cid = (res, r)"
    by (metis prod.exhaust)
  show ?thesis
  proof (cases res)
    case (Inl e)
    have "same_view (wd_sv w) (close_conn cid (send_auth_fail cid ''no IP available'' (wd_sv w)))"
      unfolding send_auth_fail_def by (rule same_view_trans [OF same_view_send same_view_close_conn])
    from vpn_inv_same_view [OF inv this] ot a Inl show ?thesis
      by (auto simp: open_tunnel_def start_client_def)
  next
    case (Inr i)
    define s1 where "s1 = upd_metrics IncConnected ((wd_sv w)\<lparr>sv_clients := r\<rparr>)"
    define ph where "ph = (if out = TunnelOpen i then RdRunning else RdNone)"
    define w1 where "w1 = w\<lparr>wd_sv := s1, wd_reader := (wd_reader w)(i := ph),
      wd_writer := (wd_writer w)(i := True)\<rparr>"
    have inv1: "vpn_inv w1"
      unfolding w1_def s1_def
      by (rule vpn_inv_Assign [OF inv a [unfolded Inr]]) (simp add: ph_def)
    have i: "i = length (reg_heap (sv_clients (wd_sv w)))"
      using Assign_Inr [OF a [unfolded Inr]] by blast
    then have idle: "\<not> wd_writer w i" "wd_reader w i = RdNone"
      using inv by (auto simp: vpn_inv_def Let_def registered_def)
    obtain f e where snd: "conn_send cid TypeAuthOK
        (Encode (json_AuthOKResponse (auth_ok_response s1 (c_ip (reg_heap r ! i))))) s1 = (upd_conn cid f s1, e)"
      by (rule conn_send_cases)
    have inv2: "vpn_inv (w1\<lparr>wd_sv := upd_conn cid f s1\<rparr>)"
      using vpn_inv_same_view [OF inv1, of "upd_conn cid f s1"] by (simp add: w1_def)
    have w1: "w1\<lparr>wd_sv := x\<rparr> = w\<lparr>wd_sv := x, wd_reader := (wd_reader w)(i := ph),
        wd_writer := (wd_writer w)(i := True)\<rparr>" for x
      by (cases w) (simp add: w1_def)
    show ?thesis
    proof (cases e)
      case None
      then have "out = TunnelOpen i" "s' = upd_conn cid f s1"
        using ot a Inr snd by (auto simp: open_tunnel_def s1_def Let_def)
      with inv2 show ?thesis unfolding w1 by (simp add: start_client_def ph_def)
    next
      case (Some err)
      then have "out = TunnelSendFailed i err" "s' = finish_client i (upd_conn cid f s1)"
        using ot a Inr snd by (auto simp: open_tunnel_def s1_def Let_def)
      with vpn_inv_finish [OF inv2, of i] idle show ?thesis
        unfolding w1 by (simp add: start_client_def ph_def fun_upd_idem)
    qed
  qed
qed

lemma vpn_inv_connect:
  assumes inv: "vpn_inv w"
  shows "vpn_inv (connect_world marshal d c w)"
proof -
  let ?cid = "length (sv_conns (wd_sv w))"
  obtain out s' where h: "handleConn marshal d ?cid (add_conn c (wd_sv w)) = (out, s')"
    by (metis prod.exhaust)
  have v0: "same_view (wd_sv w) (add_conn c (wd_sv w))"
    by (rule same_viewI) (simp_all add: add_conn_def)
  from h have "vpn_inv (start_client out (w\<lparr>wd_sv := s'\<rparr>))"
  proof (cases rule: handleConn_view)
    case 1
    from vpn_inv_same_view [OF inv same_view_trans [OF v0 1(1)]] 1(2) show ?thesis
      by (simp add: start_client_def split: outcome.split)
  next
    case (2 name s1)
    have "vpn_inv (w\<lparr>wd_sv := s1\<rparr>)" by (rule vpn_inv_same_view [OF inv same_view_trans [OF v0 2(1)]])
    from vpn_inv_open_tunnel [OF this, of d ?cid name out s'] 2(2) show ?thesis by simp
  qed
  with h show ?thesis by (simp add: connect_world_def)
qed

lemma same_view_reaper: "same_view s (reaper_tick order now s)"
proof -
  have "same_view s (foldl (\<lambda>s cid. close_conn cid s) s cids)" for cids
    by (induction cids rule: rev_induct) (auto intro: same_view_trans)
  then show ?thesis by (simp add: reaper_tick_def)
qed

theorem vpn_inv_step:
  assumes inv: "vpn_inv w" and step: "vpn_step marshal w w'"
  shows "vpn_inv w'"
  using step
proof (cases rule: vpn_step.cases)
  case (Disconnect order name)
  have "same_view (wd_sv w) (snd (disconnect_client order name (wd_sv w)))"
    by (auto simp: disconnect_client_def split: option.splits)
  with Disconnect inv show ?thesis by (simp add: vpn_inv_same_view)
next
  case (ReloadAcl yaml)
  have "same_view (wd_sv w) (reload_acl yaml (wd_sv w))"
    by (rule same_viewI) (auto simp: reload_acl_def split: option.splits)
  with ReloadAcl inv show ?thesis by (simp add: vpn_inv_same_view)
next
  case (Refresh token resp)
  have "same_view (wd_sv w)
      ((wd_sv w)\<lparr>sv_expose := map_option (expose_refresh token resp) (sv_expose (wd_sv w))\<rparr>)"
    by (rule same_viewI) simp_all
  with Refresh inv show ?thesis by (simp add: vpn_inv_same_view)
qed (use inv in \<open>auto intro: vpn_inv_connect vpn_inv_reader vpn_inv_mark vpn_inv_close vpn_inv_writer
      vpn_inv_take vpn_inv_put vpn_inv_same_view same_view_reaper\<close>)

lemma vpn_inv_start: "initial_world s0 w \<Longrightarrow> vpn_inv w"
  by (auto simp: initial_world_def vpn_inv_def Let_def reg_wf_def counts_inv_def registered_def)

lemma vpn_inv_reach: "vpn_reach marshal s0 w \<Longrightarrow> vpn_inv w"
  by (erule vpn.invariant) (auto intro: vpn_inv_start vpn_inv_step)

section \<open>A race\<close>

text \<open>Concrete steps of the small server: the client connects and leaves; between the check of
  \<open>dead\<close> and the send, its reader closes the channel.\<close>

definition lab_world :: "server \<Rightarrow> world" where
  "lab_world s = \<lparr>wd_sv = s, wd_reader = (\<lambda>i. RdNone), wd_writer = (\<lambda>i. False), wd_route = None,
     wd_panic = False\<rparr>"

definition lab_packet :: bytes where
  "lab_packet = replicate 16 0 @ [10, 8, 0, 2]"

lemma destIP_lab_packet: "destIP lab_packet = ''10.8.0.2''"
  by (simp add: destIP_def dotted_def decimals nth_append lab_packet_def)

lemma length_lab_packet [simp]: "length lab_packet = 20"
  by (simp add: lab_packet_def)

lemma lab_initial: "initial_world lab_server (lab_world lab_server)"
  by (simp add: initial_world_def lab_world_def lab_server_def newClientRegistry_def newMetrics_def)

text \<open>The client has joined; \<open>rest\<close> is what it sends next.\<close>

definition lab_joined :: "bytes \<Rightarrow> world" where
  "lab_joined rest =
     \<lparr>wd_sv = lab_open rest, wd_reader = (\<lambda>i. RdNone)(0 := RdRunning), wd_writer = (\<lambda>i. False)(0 := True),
      wd_route = None, wd_panic = False\<rparr>"

lemma lab_connect:
  "connect_world marshal lab_door (lab_conn rest) (lab_world lab_server) = lab_joined rest"
proof -
  have "length (sv_conns (wd_sv (lab_world lab_server))) = 0"
    by (simp add: lab_world_def lab_server_def)
  moreover have "add_conn (lab_conn rest) (wd_sv (lab_world lab_server)) = lab_server\<lparr>sv_conns := [lab_conn rest]\<rparr>"
    by (simp add: add_conn_def lab_world_def lab_server_def)
  ultimately show ?thesis
    by (simp add: connect_world_def lab_handleConn start_client_def lab_world_def lab_joined_def)
qed

lemma lab_joined_reach: "vpn_reach marshal lab_server (lab_joined rest)"
  using vpn_reach.Step [OF vpn_reach.Start [OF lab_initial], of marshal
      "connect_world marshal lab_door (lab_conn rest) (lab_world lab_server)"]
    vpn_step.Connect [of "lab_world lab_server" "lab_conn rest" marshal lab_door]
  by (simp add: lab_connect) (simp add: lab_world_def lab_conn_def)

lemma route_lookup_lab: "route_lookup lab_packet (lab_open rest) = (Some 0, lab_open rest)"
  unfolding route_lookup_def destIP_lab_packet
  by (simp add: GetByIP_def client_at_def lab_open_def lab_registry_def lab_client_def lab_server_def)

text \<open>A world in which a packet is on its way to client 0 while that client's reader stops.\<close>

lemma put_after_close:
  assumes "vpn_reach marshal s0 w" and "\<not> wd_panic w" and "wd_reader w i = RdStopping"
    and "wd_route w = Some (i, p)"
  shows "\<exists>w'. vpn_reach marshal s0 w' \<and> wd_panic w'"
proof -
  have i: "i < length (reg_heap (sv_clients (wd_sv w)))"
    using vpn_inv_reader_bound [OF vpn_inv_reach [OF assms(1)], of i] assms(3) by simp
  let ?w1 = "w\<lparr>wd_sv := mark_dead i (wd_sv w), wd_reader := (wd_reader w)(i := RdDead)\<rparr>"
  let ?w2 = "?w1\<lparr>wd_sv := close_sendCh i (wd_sv ?w1), wd_reader := (wd_reader ?w1)(i := RdDone)\<rparr>"
  have "vpn_step marshal w ?w1" using assms by (intro vpn_step.Mark)
  moreover have "vpn_step marshal ?w1 ?w2" using assms(2) by (intro vpn_step.CloseCh) simp_all
  moreover have "vpn_step marshal ?w2 (put_world i p ?w2)"
    using assms by (intro vpn_step.Put) simp_all
  ultimately have "vpn_reach marshal s0 (put_world i p ?w2)"
    using assms(1) by (meson vpn_reach.Step)
  moreover have "wd_panic (put_world i p ?w2)"
    using i by (simp add: put_world_def route_send_def client_at_def close_sendCh_def mark_dead_def upd_client_def)
  ultimately show ?thesis by blast
qed

text \<open>Checking and sending in one step is safe: a client that is not dead has an open channel.\<close>

lemma checked_client_open:
  assumes "vpn_inv w" and "route_lookup pkt (wd_sv w) = (Some i, s')"
  shows "\<not> c_closed (client_at (wd_sv w) i)"
proof -
  from route_lookup_Some [OF assms(2)] have
    r: "reg_clients (sv_clients (wd_sv w)) (destIP pkt) = Some i" "\<not> c_dead (client_at (wd_sv w) i)" by auto
  with assms(1) have "i < length (reg_heap (sv_clients (wd_sv w)))"
    by (auto simp: vpn_inv_def Let_def reg_wf_def)
  with assms(1) have "client_inv (client_at (wd_sv w) i) (wd_reader w i)"
    by (auto simp: vpn_inv_def Let_def client_at_def)
  with r(2) show ?thesis by (auto simp: client_inv_def)
qed

section \<open>Properties\<close>



text \<open>The check of \<open>dead\<close> and the send that follows are safe together only: done in one step they
  never hit a closed channel.\<close>

theorem check_and_send_together_safe:
  assumes "vpn_reach marshal s0 w" and "\<not> wd_panic w" and "wd_route (take_world pkt w) = Some (i, p)"
  shows "\<not> wd_panic (put_world i p (take_world pkt w))"
proof -
  obtain r s' where l: "route_lookup pkt (wd_sv w) = (r, s')" by (metis prod.exhaust)
  with assms(3) have r: "r = Some i" "p = pkt" by (auto simp: take_world_def)
  then have "s' = wd_sv w" using route_lookup_Some [of pkt "wd_sv w" i s'] l by simp
  with checked_client_open [OF vpn_inv_reach [OF assms(1)], of pkt i s'] l r assms(2)
  show ?thesis by (auto simp: put_world_def take_world_def route_send_def Let_def)
qed

theorem check_and_send_together_safe_witness:
  "\<not> wd_panic (put_world 0 lab_packet (take_world lab_packet (lab_joined [])))"
  by (rule check_and_send_together_safe [OF lab_joined_reach])
    (simp_all add: lab_joined_def take_world_def route_lookup_lab)

text \<open>C15: done in two steps they are not: the server can reach a state in which \<open>routeFromTUN\<close> sends
  on a closed channel, which panics. One whitelisted client that connects and closes its
  connection is enough.\<close>

theorem send_on_closed_channel_reachable:
  "\<exists>w. vpn_reach marshal lab_server w \<and> wd_panic w"
proof -
  let ?w2 = "take_world lab_packet (lab_joined [])" and ?w3 = "reader_world 0 False 0 (take_world lab_packet (lab_joined []))"
  have w2: "?w2 = (lab_joined [])\<lparr>wd_route := Some (0, lab_packet)\<rparr>"
    by (simp add: lab_joined_def take_world_def route_lookup_lab)
  have r2: "vpn_reach marshal lab_server ?w2"
    by (rule vpn_reach.Step [OF lab_joined_reach [of marshal "[]"]], rule vpn_step.Take)
      (simp_all add: lab_joined_def tunBufSize_def)
  have r3: "vpn_reach marshal lab_server ?w3"
    by (rule vpn_reach.Step [OF r2], rule vpn_step.Reader; unfold w2; simp add: lab_joined_def)
  have "fst (forwardToTUN_step 0 False 0 (lab_open [])) = False"
    by (simp add: forwardToTUN_step_def conn_recv_def ReadFrame_def ReadFull_def lab_open_def lab_conn_def
        client_at_def lab_registry_def lab_client_def headerSize_def)
  then obtain s where "forwardToTUN_step 0 False 0 (lab_open []) = (False, s)"
    by (metis prod.collapse)
  then have "wd_reader ?w3 0 = RdStopping \<and> wd_route ?w3 = Some (0, lab_packet) \<and> \<not> wd_panic ?w3"
    unfolding w2 by (simp add: reader_world_def lab_joined_def)
  with put_after_close [OF r3] show ?thesis by blast
qed

end
