(* ===== verification/Updater.thy ===== *)
theory Updater
  imports ClientState Json
begin

text \<open>
  The self-update, \<open>internal/updater/update.go\<close>: which release is looked for, which asset is
  downloaded, and the steps that put it in the place of the running program, over the file system.
  What the web answers, the platform, the path of the program and the outcome of each system call
  are arguments. Restarting the service afterwards is the list of commands that are run.
\<close>

section \<open>Releases\<close>

definition release_api :: string where
  "release_api = ''https://api.github.com/repos/adishM98/auth-vpn/releases/latest''"

definition baseURL :: string where
  "baseURL = ''https://github.com/adishM98/auth-vpn/releases/download''"

definition mem_githubRelease :: "string \<Rightarrow> json \<Rightarrow> string \<Rightarrow> string \<times> bool" where
  "mem_githubRelease k v r = (if key_is k ''tag_name'' then dec_string v r else (r, True))"

text \<open>A response: an error, or the status and what was read of the body, with the error of the read.\<close>

record response =
  rs_status :: nat
  rs_body :: string
  rs_broken :: "string option"

datatype update_error =
    FetchRelease string
  | ReleaseStatus nat
  | DecodeRelease
  | NoBinary string string
  | LocateBinary string
  | Download string
  | DownloadStatus nat
  | CreateTemp os_error
  | WriteDownload string
  | ChmodFailed os_error
  | ReplaceFailed os_error

definition LatestVersion :: "(string \<Rightarrow> string + response) \<Rightarrow> update_error + string" where
  "LatestVersion get =
     (case get release_api of
        Inl e \<Rightarrow> Inl (FetchRelease e)
      | Inr r \<Rightarrow>
          if rs_status r \<noteq> 200 then Inl (ReleaseStatus (rs_status r))
          else (let (tag, ok) = decode_first mem_githubRelease (rs_body r) []
                in if \<not> ok then Inl DecodeRelease else Inr tag))"

definition binaryName :: "string \<Rightarrow> string \<Rightarrow> update_error + string" where
  "binaryName os arch =
     (if os = ''linux'' \<and> arch = ''amd64'' then Inr ''auth-vpn-linux-amd64''
      else if os = ''darwin'' \<and> arch = ''arm64'' then Inr ''auth-vpn-darwin-arm64''
      else if os = ''darwin'' \<and> arch = ''amd64'' then Inr ''auth-vpn-darwin-amd64''
      else Inl (NoBinary os arch))"

section \<open>Replacing the program\<close>

text \<open>The outcome of the system calls; \<open>ue_write\<close> is a failing write with what it left.\<close>

record update_env =
  ue_os :: string
  ue_arch :: string
  ue_exe :: "string + string"
  ue_create :: "os_error option"
  ue_write :: "(string \<times> string) option"
  ue_chmod :: "os_error option"
  ue_rename :: "os_error option"
  ue_remove :: "os_error option"
  ue_active :: bool

definition downloadFile ::
    "update_env \<Rightarrow> (string \<Rightarrow> string + response) \<Rightarrow> filesys \<Rightarrow> string \<Rightarrow> string \<Rightarrow> filesys \<times> update_error option" where
  "downloadFile env get fs url dest =
     (case get url of
        Inl e \<Rightarrow> (fs, Some (Download e))
      | Inr r \<Rightarrow>
          if rs_status r \<noteq> 200 then (fs, Some (DownloadStatus (rs_status r)))
          else (case ue_create env of
                  Some e \<Rightarrow> (fs, Some (CreateTemp e))
                | None \<Rightarrow>
                    (case ue_write env of
                       Some (e, part) \<Rightarrow> (set_file dest (Some part) fs, Some (WriteDownload e))
                     | None \<Rightarrow>
                         (set_file dest (Some (rs_body r)) fs,
                          case rs_broken r of None \<Rightarrow> None | Some e \<Rightarrow> Some (WriteDownload e)))))"

definition restartService :: "update_env \<Rightarrow> string list" where
  "restartService env =
     (if ue_os env \<noteq> ''linux'' then []
      else ''systemctl is-active --quiet auth-vpn'' #
           (if ue_active env then [''systemctl restart auth-vpn''] else []))"

definition drop_new :: "update_env \<Rightarrow> filesys \<Rightarrow> string \<Rightarrow> filesys" where
  "drop_new env fs tmp = fst (Remove_file (ue_remove env) fs tmp)"

text \<open>\<open>Run\<close>: the error, and the commands run to restart the service.\<close>

definition replace_binary ::
    "update_env \<Rightarrow> (string \<Rightarrow> string + response) \<Rightarrow> filesys \<Rightarrow> string \<Rightarrow> string \<Rightarrow>
     filesys \<times> update_error option \<times> string list" where
  "replace_binary env get fs url exePath =
     (let tmpPath = exePath @ ''.new''
      in case downloadFile env get fs url tmpPath of
           (fs1, Some e) \<Rightarrow> (drop_new env fs1 tmpPath, Some e, [])
         | (fs1, None) \<Rightarrow>
             (case ue_chmod env of
                Some e \<Rightarrow> (drop_new env fs1 tmpPath, Some (ChmodFailed e), [])
              | None \<Rightarrow>
                  (case ue_rename env of
                     Some e \<Rightarrow> (drop_new env fs1 tmpPath, Some (ReplaceFailed e), [])
                   | None \<Rightarrow>
                       (set_file tmpPath None (set_file exePath (files fs1 tmpPath) fs1), None, restartService env))))"

definition Run_update ::
    "update_env \<Rightarrow> (string \<Rightarrow> string + response) \<Rightarrow> filesys \<Rightarrow> string \<Rightarrow>
     filesys \<times> update_error option \<times> string list" where
  "Run_update env get fs currentVersion =
     (case LatestVersion get of
        Inl e \<Rightarrow> (fs, Some e, [])
      | Inr latest \<Rightarrow>
          if TrimPrefix latest ''v'' = TrimPrefix currentVersion ''v'' then (fs, None, [])
          else (case binaryName (ue_os env) (ue_arch env) of
                  Inl e \<Rightarrow> (fs, Some e, [])
                | Inr asset \<Rightarrow>
                    (case ue_exe env of
                       Inl e \<Rightarrow> (fs, Some (LocateBinary e), [])
                     | Inr exePath \<Rightarrow>
                         replace_binary env get fs (baseURL @ ''/'' @ latest @ ''/'' @ asset) exePath)))"

section \<open>Steps\<close>

lemma downloadFile_files:
  "q \<noteq> dest \<Longrightarrow> files (fst (downloadFile env get fs url dest)) q = files fs q"
  by (auto simp: downloadFile_def split: sum.splits option.splits)

lemma downloadFile_complete:
  assumes "downloadFile env get fs url dest = (fs', None)"
  shows "\<exists>r. get url = Inr r \<and> rs_status r = 200 \<and> rs_broken r = None \<and> files fs' dest = Some (rs_body r)"
  using assms by (auto simp: downloadFile_def split: sum.splits if_splits option.splits)

lemma drop_new_files:
  "q \<noteq> tmp \<Longrightarrow> files (drop_new env fs tmp) q = files fs q"
  "ue_remove env = None \<Longrightarrow> files (drop_new env fs tmp) tmp = None"
  by (auto simp: drop_new_def Remove_file_def split: option.splits)

lemma replace_binary_cases:
  assumes "replace_binary env get fs url exe = (fs', e, cmds)"
  shows "(e \<noteq> None \<longrightarrow> cmds = [] \<and> (\<forall>q. q \<noteq> exe @ ''.new'' \<longrightarrow> files fs' q = files fs q) \<and>
      (ue_remove env = None \<longrightarrow> files fs' (exe @ ''.new'') = None)) \<and>
    (e = None \<longrightarrow> (\<exists>r. get url = Inr r \<and> rs_status r = 200 \<and> rs_broken r = None \<and>
      files fs' = (files fs)(exe \<mapsto> rs_body r, exe @ ''.new'' := None)))"
proof -
  obtain fs1 d where dl: "downloadFile env get fs url (exe @ ''.new'') = (fs1, d)" by (metis prod.exhaust)
  have o: "q \<noteq> exe @ ''.new'' \<Longrightarrow> files fs1 q = files fs q" for q
    using downloadFile_files [of q "exe @ ''.new''" env get fs url] dl by simp
  show ?thesis
  proof (cases "e = None")
    case False
    then have "cmds = []" "fs' = drop_new env fs1 (exe @ ''.new'')"
      using assms dl by (auto simp: replace_binary_def Let_def split: option.splits)
    with False o show ?thesis by (auto simp: drop_new_files)
  next
    case True
    then have d: "d = None" and fs': "fs' = set_file (exe @ ''.new'') None (set_file exe (files fs1 (exe @ ''.new'')) fs1)"
      using assms dl by (auto simp: replace_binary_def Let_def split: option.splits)
    obtain r where r: "get url = Inr r" "rs_status r = 200" "rs_broken r = None"
      "files fs1 (exe @ ''.new'') = Some (rs_body r)"
      using downloadFile_complete dl d by blast
    have "files fs' = (files fs)(exe \<mapsto> rs_body r, exe @ ''.new'' := None)"
      using o r(4) by (auto simp: fs' fun_eq_iff)
    with True r(1-3) show ?thesis by blast
  qed
qed

section \<open>Properties\<close>


definition lab_update :: update_env where
  "lab_update = \<lparr>ue_os = ''linux'', ue_arch = ''amd64'', ue_exe = Inr ''/b'', ue_create = None, ue_write = None,
     ue_chmod = None, ue_rename = None, ue_remove = None, ue_active = True\<rparr>"

definition lab_release :: "string \<Rightarrow> string + response" where
  "lab_release u = Inr \<lparr>rs_status = 200, rs_body = (if u = release_api then ''{\"tag_name\":\"v2\"}'' else ''NEW''),
     rs_broken = None\<rparr>"


end
