(* ===== verification/Spec2Isabelle.thy ===== *)
theory Spec2Isabelle
  imports Access Acl Cli ClientConn ClientPush ClientRun ClientState Clients Commands Dashboard Deploy Device Direct DualProto Expose Frame GoNet GoStrings GoTime HttpApi Hub Install Json Metrics Prelude Protocol ProxyMux ProxyServer RateLimit Server ServerConfig ServerStart Sha256 Stores Tofu Tokens Tunnel TunnelState Updater
begin

text \<open>
  A verification library of auth-vpn, a VPN over TLS written in Go: a server that authenticates
  devices by token or whitelisted address and moves IP packets between their connections and a TUN
  device, its HTTP API and SSH access, a client in TUN and in proxy mode, a hub for several servers,
  and the command line that installs, starts and updates them. The definitions are translated from
  the sources under \<open>src/\<close>, operation by operation, and are executable.

  \<^bold>\<open>Parts and their theories.\<close>
  Foundations: \<open>Prelude\<close> (bytes, big-endian words, files, step systems), \<open>GoStrings\<close> and \<open>GoNet\<close>
  (what the program uses of \<open>strings\<close>, \<open>strconv\<close>, \<open>path\<close>, \<open>net\<close>), \<open>GoTime\<close>, \<open>Json\<close>
  (\<open>encoding/json\<close>), \<open>Sha256\<close>.
  Wire: \<open>Protocol\<close> (\<open>pkg/protocol/messages.go\<close>), \<open>Frame\<close> (\<open>internal/tunnel/frame.go\<close>).
  Server state: \<open>Tokens\<close>, \<open>RateLimit\<close> (\<open>internal/auth\<close>), \<open>Acl\<close>, \<open>Metrics\<close>, \<open>Clients\<close>, \<open>Stores\<close>
  (whitelist, forwards and SSH keys), \<open>Expose\<close>, \<open>ServerConfig\<close> (\<open>config.go\<close>, \<open>push.go\<close>, the defaults
  of \<open>server.go\<close>).
  Server behaviour: \<open>Server\<close> (the front door \<open>handleConn\<close> and one iteration of each loop of
  \<open>server.go\<close>), \<open>Tunnel\<close> (the interleaving of these steps), \<open>ProxyServer\<close> (\<open>proxy.go\<close>), \<open>Direct\<close>
  (\<open>direct.go\<close>), \<open>Access\<close> (\<open>sshsrv.go\<close>, \<open>control.go\<close>, \<open>dualproto.go\<close>, \<open>plugin.go\<close>), \<open>HttpApi\<close>
  (\<open>httpapi.go\<close>, \<open>webui.go\<close>), \<open>DualProto\<close> (the dashboard's listener as a step relation), \<open>Dashboard\<close> (the way
  of a request from its listener to the routes, and an SSH connection from login to channels),
  \<open>ServerStart\<close> (\<open>Start\<close>, the accept loop with its signals, the SSH host key, the control socket).
  Client: \<open>ClientState\<close> (profiles and private files), \<open>TunnelState\<close> (\<open>tunnel.json\<close> and the running
  process), \<open>Tofu\<close> (trust on first use, \<open>internal/tlsutil\<close>), \<open>ClientPush\<close> (\<open>push.go\<close>), \<open>ClientConn\<close>
  (\<open>client.go\<close>, split DNS), \<open>ProxyMux\<close> (\<open>internal/client/proxy.go\<close>), \<open>ClientRun\<close> (\<open>Connect\<close> and \<open>ConnectProxy\<close>
  as a whole, with the routes and files they share with other processes).
  Around them: \<open>Hub\<close> (\<open>internal/hub\<close>), \<open>Install\<close> (\<open>install.go\<close>), \<open>Updater\<close>, \<open>Device\<close>
  (\<open>internal/tunnel\<close>), \<open>Cli\<close> and \<open>Commands\<close> (\<open>cmd\<close>), \<open>Deploy\<close> (installation, start and API put together).

  \<^bold>\<open>How the code is represented.\<close>
  A Go struct is a record, a tagged value a datatype, an error a value of a sum or option type. The
  managers and the server are explicit states; one operation that the code runs under a mutex is one
  step, and where the code lets goroutines interleave (the tunnel of a client, the proxy multiplexer,
  the hub) a step relation or a list of events gives the order. Pointers to connections are indices
  into a heap of connections, so that closing and aliasing are visible. Words have the width of the
  code (bytes, 16-, 32- and 64-bit counters), an \<open>int\<close> of Go is an integer with its bounds where they
  matter, times are nanoseconds and durations saturate as in Go.

  \<^bold>\<open>Parameters.\<close>
  Code outside the repository is an argument: \<open>yaml.v3\<close> (an encoder and a decoder per file; lemmas about
  restarts assume that what was written is read back), name resolution, \<open>url.Parse\<close>, dialing and TLS
  handshakes (what the network presents), SSH key parsing, certificates made by \<open>crypto/x509\<close>, random
  bytes, the clock, the environment, the order in which a map is walked, and the outcome of each system
  call, failures included.

  \<^bold>\<open>What the lemmas show.\<close>
  Admission: who gets in, what is refused and recorded, that a one-time token is used once and that a
  stored token survives a restart. Packets: framing round trips under any split of the stream, which
  packets the device and a client get, that addresses are unique and that every reachable state of the
  tunnel is safe up to one race, which is exhibited. Decisions: the access policy, the rate limiter and
  the packet filter equal short specifications; the profile list refines a map. The stores keep their
  invariants under every request, and no request without the key changes anything. Client and server
  models run against each other agree on the settings of the tunnel; the proxy delivers bytes to their
  own stream. Installation, start and API together give a server that asks for the key that was
  reported. What is started ends: a tunnel removes its routes and its record, a shutdown returns once the
  handlers have. Properties of kind error exhibit behaviour that differs from what the code means to do.

  \<^bold>\<open>Bounds and fuel.\<close>
  The JSON reader takes fuel; \<open>max_nesting\<close> 10000 is Go's own limit and the length of the text is enough
  otherwise. Reading frames off a stream takes as many rounds as the stream has bytes, each frame having
  at least five. Scanning an \<open>authorized_keys\<close> file takes the length of the file. Waiting for a process
  is the code's 100 rounds. Other recursion is structural or has a measure; the retry loops are functions
  on the results of the attempts, and their end is a theorem.

  \<^bold>\<open>Not modelled.\<close>
  Binding of sockets, the TUN device itself, the SSH transport and copying between two connections are calls into
  the kernel and third-party code; their use is modelled up to what is decided and sent. Printing, log
  messages, flag declarations and embedded pages have no model. Owners of files and permissions are left
  out. The memory model is that of atomic steps: data races inside one handler are not.
\<close>

text \<open>The access policy looks at the destination port of packets towards a client, which in a reply
  is the client's own port: under a rule that allows a device only TCP port \<open>n\<close>, the replies of a
  service on that port to any other client port are dropped.\<close>

theorem policy_drops_replies:
  assumes "sv_acl s = Some e" and "engine_wf e"
    and "reg_clients (sv_clients s) (destIP pkt) = Some i"
    and "rule_for (eng_policy e) (c_name (client_at s i)) =
      Some \<lparr>rule_Device = dev, rule_Allow = [\<lparr>ps_Proto = ''tcp'', ps_Port = n\<rparr>], rule_Deny = []\<rparr>"
    and "n \<noteq> 0" and "24 \<le> length pkt" and "pkt ! 0 AND 0x0f = 5" and "pkt ! 9 = 6"
    and "uint (be_get16 [pkt ! 22, pkt ! 23]) \<noteq> n"
  shows "route_lookup pkt s = (None, upd_metrics IncDropped s)"
proof -
  have flow: "extractProtoPort pkt = (''tcp'', uint (be_get16 [pkt ! 22, pkt ! 23]))"
    using assms(6-8) by (intro extractProtoPort_plain)
  have "\<not> Allow e (c_name (client_at s i)) pkt"
    using Allow_loaded [OF assms(2), of "c_name (client_at s i)" pkt] assms(4,5,9)
    by (simp add: policy_permits_def spec_admits_def flow)
  with assms(1,3,6) show ?thesis by (simp add: route_lookup_def GetByIP_def)
qed

text \<open>A reply from port 5432 to the client's port 50000.\<close>

definition lab_reply_packet :: bytes where
  "lab_reply_packet = [0x45, 0, 0, 40, 0, 0, 0, 0, 64, 6, 0, 0, 10, 96, 0, 20, 10, 8, 0, 2, 0x15, 0x38, 0xC3, 0x50]"

theorem policy_drops_replies_witness:
  "let p = \<lparr>pol_DefaultPolicy = ''deny'', pol_Rules = [\<lparr>rule_Device = ''office'',
         rule_Allow = [\<lparr>ps_Proto = ''tcp'', ps_Port = 5432\<rparr>], rule_Deny = []\<rparr>]\<rparr>;
       s = (lab_open [])\<lparr>sv_acl := Some \<lparr>eng_policy = p, eng_index = index_rules (pol_Rules p), eng_path = []\<rparr>\<rparr>
   in route_lookup lab_reply_packet s = (None, upd_metrics IncDropped s)"
  unfolding Let_def
proof (rule policy_drops_replies)
  have ip: "destIP lab_reply_packet = ''10.8.0.2''"
    by (simp add: destIP_def lab_reply_packet_def dotted_def decimals)
  let ?s = "(lab_open [])\<lparr>sv_acl := Some \<lparr>eng_policy = \<lparr>pol_DefaultPolicy = ''deny'', pol_Rules =
      [\<lparr>rule_Device = ''office'', rule_Allow = [\<lparr>ps_Proto = ''tcp'', ps_Port = 5432\<rparr>], rule_Deny = []\<rparr>]\<rparr>,
      eng_index = index_rules (pol_Rules \<lparr>pol_DefaultPolicy = ''deny'', pol_Rules =
      [\<lparr>rule_Device = ''office'', rule_Allow = [\<lparr>ps_Proto = ''tcp'', ps_Port = 5432\<rparr>], rule_Deny = []\<rparr>]\<rparr>),
      eng_path = []\<rparr>\<rparr>"
  show "reg_clients (sv_clients ?s) (destIP lab_reply_packet) = Some 0"
    by (simp add: ip lab_open_def lab_registry_def)
  show "rule_for (eng_policy \<lparr>eng_policy = \<lparr>pol_DefaultPolicy = ''deny'', pol_Rules =
      [\<lparr>rule_Device = ''office'', rule_Allow = [\<lparr>ps_Proto = ''tcp'', ps_Port = 5432\<rparr>], rule_Deny = []\<rparr>]\<rparr>,
      eng_index = index_rules (pol_Rules \<lparr>pol_DefaultPolicy = ''deny'', pol_Rules =
      [\<lparr>rule_Device = ''office'', rule_Allow = [\<lparr>ps_Proto = ''tcp'', ps_Port = 5432\<rparr>], rule_Deny = []\<rparr>]\<rparr>),
      eng_path = []\<rparr>) (c_name (client_at ?s 0)) =
      Some \<lparr>rule_Device = ''office'', rule_Allow = [\<lparr>ps_Proto = ''tcp'', ps_Port = 5432\<rparr>], rule_Deny = []\<rparr>"
    by (simp add: rule_for_def client_at_def lab_open_def lab_registry_def lab_client_def)
qed (simp_all add: engine_wf_def lab_reply_packet_def be_get16_def)

text \<open>A packet of the full TUN buffer does not fit a frame: the writer of the client it is for
  ends, and the client is unregistered.\<close>

theorem full_buffer_ends_tunnel:
  assumes "c_sendCh (client_at s i) = pkt # rest" and "length pkt = tunBufSize"
    and "i < length (reg_heap (sv_clients s))"
  shows "fst (writer_step i s) = WrFinished \<and>
    reg_clients (sv_clients (snd (writer_step i s))) (c_ip (client_at s i)) = None"
proof -
  let ?s1 = "upd_reg (upd_client i (\<lambda>c. c\<lparr>c_sendCh := rest\<rparr>)) s" and ?cid = "c_conn (client_at s i)"
  have ip: "c_ip (client_at ?s1 i) = c_ip (client_at s i)"
    using assms(3) by (simp add: client_at_def upd_client_def)
  have "WriteFrame w TypeIPPacket pkt = (w, Some (FrameTooLarge (1 + length pkt)))" for w
    using assms(2) by (intro WriteFrame_too_large) (simp add: tunBufSize_def maxFrameSize_def)
  moreover obtain f e where send: "conn_send ?cid TypeIPPacket pkt ?s1 = (upd_conn ?cid f ?s1, e)"
    by (rule conn_send_cases)
  ultimately obtain err where "e = Some err"
    by (auto simp: conn_send_def Let_def split: if_splits prod.splits)
  then have "writer_step i s = (WrFinished, finish_client i (upd_conn ?cid f ?s1))"
    using assms(1) send by (simp add: writer_step_def Let_def)
  then show ?thesis using ip by (simp add: finish_client_parts Remove_client_def)
qed

theorem full_buffer_ends_tunnel_witness:
  "fst (writer_step 0 (upd_reg (upd_client 0 (\<lambda>c. c\<lparr>c_sendCh := [replicate tunBufSize 0]\<rparr>)) (lab_open []))) = WrFinished"
  using full_buffer_ends_tunnel [of "upd_reg (upd_client 0 (\<lambda>c. c\<lparr>c_sendCh := [replicate tunBufSize 0]\<rparr>)) (lab_open [])"
      0 "replicate tunBufSize 0" "[]"]
  by (simp add: client_at_def upd_client_def lab_open_def lab_registry_def)

text \<open>Addresses are handed out below the first three octets of the subnet whatever its mask: in a
  subnet of half a class C network the lowest address of the pool lies outside the subnet.\<close>

theorem pool_ignores_mask:
  "\<exists>n. map_option snd (ParseCIDR (dotted [10, 8, 0, 128] @ ''/'' @ nat_string 25)) = Some n \<and>
     baseIPFromSubnet (dotted [10, 8, 0, 128] @ ''/'' @ nat_string 25) = Some ''10.8.0'' \<and>
     candidate (newClientRegistry ''10.8.0'') 2 = dotted [10, 8, 0, 2] \<and>
     \<not> net_Contains n [10, 8, 0, 2]"
proof -
  let ?m = "CIDRMask 25 32"
  let ?n = "\<lparr>net_IP = ip_Mask (v4_prefix @ [10, 8, 0, 128]) ?m, net_Mask = ?m\<rparr>"
  have m: "?m = [255, 255, 255, 128]" by (simp add: CIDRMask_def mask_byte_def upt_rec)
  have i: "net_IP ?n = [10, 8, 0, 128]" by (simp add: ip_Mask_mapped m)
  have p: "ParseCIDR (dotted [10, 8, 0, 128] @ ''/'' @ nat_string 25) = Some (v4_prefix @ [10, 8, 0, 128], ?n)"
    by (rule ParseCIDR_dotted) simp_all
  have "nat_string 10 = ''10''" "nat_string 8 = ''8''" "nat_string 0 = ''0''" "nat_string 2 = ''2''"
    by (simp_all add: decimals)
  then have b: "baseIPFromSubnet (dotted [10, 8, 0, 128] @ ''/'' @ nat_string 25) = Some ''10.8.0''"
    using baseIPFromSubnet_dotted [OF p i] by simp
  have c: "candidate (newClientRegistry ''10.8.0'') 2 = dotted [10, 8, 0, 2]"
    by (simp add: candidate_def newClientRegistry_def dotted_def decimals)
  have "\<not> net_Contains ?n [10, 8, 0, 2]"
    by (simp add: net_Contains_4 m ip_Mask_mapped)
  moreover have "map_option snd (ParseCIDR (dotted [10, 8, 0, 128] @ ''/'' @ nat_string 25)) = Some ?n"
    by (simp only: p option.map snd_conv)
  ultimately show ?thesis using b c by blast
qed

end
